(* ===== verification/Prelude.thy ===== *)
theory Prelude
  imports Main "HOL-Library.Word" "HOL-Library.State_Monad"
begin

text \<open>
  Shared by every component: bytes and C strings, the packet buffer view, decimal
  printing, a small Hoare calculus for the state monad, and the locale of systems with
  an inductive invariant.
\<close>

named_theorems hoare_intros \<open>rules that walk through a monadic program\<close>
named_theorems keeps_intros \<open>invariance rules of monadic programs\<close>

section \<open>Bytes and strings\<close>

type_synonym byte = "8 word"
type_synonym bytes = "byte list"

text \<open>A C string literal as the bytes it stands for (without the terminating NUL).\<close>

definition bytes_of :: "string \<Rightarrow> bytes" where
  "bytes_of s = map of_char s"

text \<open>What a C library function sees of a buffer: the bytes before the first NUL.\<close>

definition cstr :: "bytes \<Rightarrow> bytes" where
  "cstr xs = takeWhile (\<lambda>b. b \<noteq> 0) xs"

lemma cstr_idem [simp]: "cstr (cstr xs) = cstr xs"
  unfolding cstr_def by (auto simp: takeWhile_eq_all_conv dest: set_takeWhileD)

lemma cstr_nonzero: "b \<in> set (cstr xs) \<Longrightarrow> b \<noteq> 0"
  unfolding cstr_def by (auto dest: set_takeWhileD)

lemma length_cstr_le: "length (cstr xs) \<le> length xs"
  unfolding cstr_def by (rule length_takeWhile_le)

text \<open>The decimal digits that \<^verbatim>\<open>%d\<close> and \<^verbatim>\<open>%u\<close> print for a non-negative value.\<close>

fun decimal :: "nat \<Rightarrow> string" where
  "decimal n = (if n < 10 then [char_of (48 + n)] else decimal (n div 10) @ [char_of (48 + n mod 10)])"

declare decimal.simps [simp del]

lemma decimal_nonempty [simp]: "decimal n \<noteq> []"
  by (subst decimal.simps) simp

lemma of_char_digit [simp]: "n < 10 \<Longrightarrow> (of_char (char_of (48 + n :: nat)) :: nat) = 48 + n"
  by simp

lemma decimal_digits: "c \<in> set (decimal n) \<Longrightarrow> 48 \<le> (of_char c :: nat) \<and> (of_char c :: nat) < 58"
proof (induction n rule: decimal.induct)
  case (1 n)
  show ?case
  proof (cases "n < 10")
    case True
    with "1.prems" show ?thesis by (subst (asm) decimal.simps) simp
  next
    case False
    with "1" show ?thesis by (subst (asm) (2) decimal.simps) auto
  qed
qed

text \<open>Reading the digits back gives the number, so two numbers never print alike.\<close>

definition undecimal :: "string \<Rightarrow> nat" where
  "undecimal s = foldl (\<lambda>a c. 10 * a + (of_char c - 48)) 0 s"

lemma undecimal_decimal: "undecimal (decimal n) = n"
proof (induction n rule: decimal.induct)
  case (1 n)
  show ?case
  proof (cases "n < 10")
    case True
    then show ?thesis by (subst decimal.simps) (simp add: undecimal_def)
  next
    case False
    with "1" have "undecimal (decimal (n div 10)) = n div 10" by simp
    with False show ?thesis
      by (subst decimal.simps) (simp add: undecimal_def)
  qed
qed

lemma decimal_inject [simp]: "decimal m = decimal n \<longleftrightarrow> m = n"
  by (metis undecimal_decimal)

lemma decimal_no_char: "(of_char c :: nat) < 48 \<or> 58 \<le> (of_char c :: nat) \<Longrightarrow> c \<notin> set (decimal n)"
  using decimal_digits [of c n] by auto

lemma length_decimal_byte: "n < 256 \<Longrightarrow> length (decimal n) \<le> 3"
  by (subst decimal.simps, subst decimal.simps, subst decimal.simps) auto

section \<open>Packet buffers\<close>

text \<open>
  A packet buffer is its contents and a read position: reading takes the byte at the
  position and moves past it, \<open>pb_rest\<close> is what is still to be read, resizing to fewer
  bytes drops the tail.
\<close>

record pktbuf =
  pb_data :: bytes
  pb_pos :: nat

definition pb_of :: "bytes \<Rightarrow> pktbuf" where
  "pb_of xs = \<lparr>pb_data = xs, pb_pos = 0\<rparr>"

definition pb_rest :: "pktbuf \<Rightarrow> bytes" where
  "pb_rest b = drop (pb_pos b) (pb_data b)"

definition pb_available :: "pktbuf \<Rightarrow> nat" where
  "pb_available b = length (pb_rest b)"

definition pb_get_u8 :: "pktbuf \<Rightarrow> (byte \<times> pktbuf) option" where
  "pb_get_u8 b = (case pb_rest b of [] \<Rightarrow> None | x # _ \<Rightarrow> Some (x, b\<lparr>pb_pos := Suc (pb_pos b)\<rparr>))"

lemma pb_rest_pb_of [simp]: "pb_rest (pb_of xs) = xs"
  by (simp add: pb_rest_def pb_of_def)

lemma pb_data_pb_of [simp]: "pb_data (pb_of xs) = xs"
  by (simp add: pb_of_def)

lemma pb_get_u8_Some:
  "pb_get_u8 b = Some (x, b') \<Longrightarrow> pb_rest b = x # pb_rest b' \<and> pb_data b' = pb_data b"
  unfolding pb_get_u8_def pb_rest_def
  by (auto split: list.splits dest!: sym [of "_ # _"] simp: drop_Suc drop_tl)

section \<open>A Hoare calculus for the state monad\<close>

definition gets :: "('s \<Rightarrow> 'a) \<Rightarrow> ('s, 'a) state" where
  "gets f = State (\<lambda>s. (f s, s))"

definition modify :: "('s \<Rightarrow> 's) \<Rightarrow> ('s, unit) state" where
  "modify f = State (\<lambda>s. ((), f s))"

abbreviation return where "return \<equiv> State_Monad.return"

lemma run_gets [simp]: "run_state (gets f) s = (f s, s)"
  by (simp add: gets_def)

lemma run_modify [simp]: "run_state (modify f) s = ((), f s)"
  by (simp add: modify_def)

definition hoare :: "('s \<Rightarrow> bool) \<Rightarrow> ('s, 'a) state \<Rightarrow> ('a \<Rightarrow> 's \<Rightarrow> bool) \<Rightarrow> bool" where
  "hoare P m Q \<longleftrightarrow> (\<forall>s r s'. P s \<longrightarrow> run_state m s = (r, s') \<longrightarrow> Q r s')"

definition keeps :: "('s \<Rightarrow> bool) \<Rightarrow> ('s, 'a) state \<Rightarrow> bool" where
  "keeps I m \<longleftrightarrow> hoare I m (\<lambda>_. I)"

lemma hoareD: "hoare P m Q \<Longrightarrow> P s \<Longrightarrow> run_state m s = (r, s') \<Longrightarrow> Q r s'"
  by (auto simp: hoare_def)

lemma hoareI: "(\<And>s r s'. P s \<Longrightarrow> run_state m s = (r, s') \<Longrightarrow> Q r s') \<Longrightarrow> hoare P m Q"
  by (auto simp: hoare_def)

lemma hoare_weaken: "hoare P' m Q' \<Longrightarrow> (\<And>s. P s \<Longrightarrow> P' s) \<Longrightarrow> (\<And>r s. Q' r s \<Longrightarrow> Q r s) \<Longrightarrow> hoare P m Q"
  unfolding hoare_def by blast

lemma hoare_return [hoare_intros]: "(\<And>s. P s \<Longrightarrow> Q x s) \<Longrightarrow> hoare P (return x) Q"
  by (auto simp: hoare_def)

lemma hoare_gets [hoare_intros]: "(\<And>s. P s \<Longrightarrow> Q (f s) s) \<Longrightarrow> hoare P (gets f) Q"
  by (auto simp: hoare_def)

lemma hoare_modify [hoare_intros]: "(\<And>s. P s \<Longrightarrow> Q () (f s)) \<Longrightarrow> hoare P (modify f) Q"
  by (auto simp: hoare_def)

lemma hoare_bind: "hoare P m R \<Longrightarrow> (\<And>x. hoare (R x) (f x) Q) \<Longrightarrow> hoare P (State_Monad.bind m f) Q"
  unfolding hoare_def by (auto split: prod.splits)

lemma hoare_if [hoare_intros]:
  "(b \<Longrightarrow> hoare P m Q) \<Longrightarrow> (\<not> b \<Longrightarrow> hoare P n Q) \<Longrightarrow> hoare P (if b then m else n) Q"
  by simp

lemma keepsD: "keeps I m \<Longrightarrow> I s \<Longrightarrow> run_state m s = (r, s') \<Longrightarrow> I s'"
  by (auto simp: keeps_def hoare_def)

lemma keepsI: "(\<And>s r s'. I s \<Longrightarrow> run_state m s = (r, s') \<Longrightarrow> I s') \<Longrightarrow> keeps I m"
  by (auto simp: keeps_def hoare_def)

lemma keeps_hoare: "keeps I m \<Longrightarrow> (\<And>s. I s \<Longrightarrow> Q s) \<Longrightarrow> hoare I m (\<lambda>_. Q)"
  by (auto simp: keeps_def hoare_def)

lemma hoare_keeps_bind: "keeps I m \<Longrightarrow> (\<And>x. hoare I (f x) Q) \<Longrightarrow> hoare I (State_Monad.bind m f) Q"
  unfolding keeps_def by (rule hoare_bind)

lemma hoare_bool_bind:
  assumes "hoare P m (\<lambda>r s. if r then A s else B s)" and "hoare A (f True) Q" and "hoare B (f False) Q"
  shows "hoare P (State_Monad.bind m f) Q"
proof (rule hoare_bind [OF assms(1)])
  show "hoare (\<lambda>s. if r then A s else B s) (f r) Q" for r
    using assms(2,3) by (cases r) simp_all
qed

lemma keeps_hoare_weak: "hoare I m (\<lambda>r s. I s \<and> Q r s) \<Longrightarrow> keeps I m"
  by (auto simp: keeps_def hoare_def)

lemma keeps_snd: "keeps I m \<Longrightarrow> I s \<Longrightarrow> I (snd (run_state m s))"
  by (auto intro: keepsD [OF _ _ surjective_pairing])

lemma keeps_return [keeps_intros]: "keeps I (return x)"
  by (auto simp: keeps_def intro: hoare_intros)

lemma keeps_gets [keeps_intros]: "keeps I (gets f)"
  by (auto simp: keeps_def intro: hoare_intros)

lemma keeps_modify: "(\<And>s. I s \<Longrightarrow> I (f s)) \<Longrightarrow> keeps I (modify f)"
  by (auto simp: keeps_def intro: hoare_intros)

lemma keeps_bind [keeps_intros]:
  "keeps I m \<Longrightarrow> (\<And>x. keeps I (f x)) \<Longrightarrow> keeps I (State_Monad.bind m f)"
  unfolding keeps_def by (rule hoare_bind)

text \<open>What a test of the state reads may be assumed of a state that satisfies the invariant.\<close>

lemma keeps_gets_bind: "(\<And>s. I s \<Longrightarrow> keeps I (g (f s))) \<Longrightarrow> keeps I (State_Monad.bind (gets f) g)"
  by (rule keepsI) (simp, blast dest: keepsD)

lemma hoare_gets_bind:
  "(\<And>x. hoare (\<lambda>s. P s \<and> f s = x) (g x) Q) \<Longrightarrow> hoare P (State_Monad.bind (gets f) g) Q"
  by (rule hoareI) (simp, blast dest: hoareD)

lemma keeps_sum [keeps_intros]:
  "(\<And>y. x = Inl y \<Longrightarrow> keeps I (f y)) \<Longrightarrow> (\<And>y. x = Inr y \<Longrightarrow> keeps I (g y)) \<Longrightarrow>
   keeps I (case x of Inl y \<Rightarrow> f y | Inr y \<Rightarrow> g y)"
  by (cases x) auto

lemma keeps_if [keeps_intros]:
  "(b \<Longrightarrow> keeps I m) \<Longrightarrow> (\<not> b \<Longrightarrow> keeps I n) \<Longrightarrow> keeps I (if b then m else n)"
  by simp

lemma keeps_option [keeps_intros]:
  "(x = None \<Longrightarrow> keeps I m) \<Longrightarrow> (\<And>y. x = Some y \<Longrightarrow> keeps I (f y)) \<Longrightarrow>
   keeps I (case x of None \<Rightarrow> m | Some y \<Rightarrow> f y)"
  by (cases x) auto

lemma keeps_list [keeps_intros]:
  "(x = [] \<Longrightarrow> keeps I m) \<Longrightarrow> (\<And>y ys. x = y # ys \<Longrightarrow> keeps I (f y ys)) \<Longrightarrow>
   keeps I (case x of [] \<Rightarrow> m | y # ys \<Rightarrow> f y ys)"
  by (cases x) auto

lemma keeps_prod [keeps_intros]:
  "(\<And>y z. x = (y, z) \<Longrightarrow> keeps I (f y z)) \<Longrightarrow> keeps I (case x of (y, z) \<Rightarrow> f y z)"
  by (cases x) auto

lemma keeps_let [keeps_intros]: "keeps I (f x) \<Longrightarrow> keeps I (Let x f)"
  by simp

lemma keeps_conj: "keeps I m \<Longrightarrow> keeps J m \<Longrightarrow> keeps (\<lambda>s. I s \<and> J s) m"
  by (auto simp: keeps_def hoare_def)

text \<open>For evaluating programs: the continuation waits for the result of the first step.\<close>

lemma bind_weak_cong: "m = m' \<Longrightarrow> State_Monad.bind m f = State_Monad.bind m' f"
  by simp

section \<open>Systems with an inductive invariant\<close>

inductive reach :: "('s \<Rightarrow> bool) \<Rightarrow> ('s \<Rightarrow> 's \<Rightarrow> bool) \<Rightarrow> 's \<Rightarrow> bool"
  for init :: "'s \<Rightarrow> bool" and step :: "'s \<Rightarrow> 's \<Rightarrow> bool" where
  reach_init: "init s \<Longrightarrow> reach init step s"
| reach_step: "reach init step s \<Longrightarrow> step s t \<Longrightarrow> reach init step t"

text \<open>The contract of an invariant: it holds at the start and every step keeps it.\<close>

locale invariant_system =
  fixes init :: "'s \<Rightarrow> bool"
    and step :: "'s \<Rightarrow> 's \<Rightarrow> bool"
    and inv :: "'s \<Rightarrow> bool"
  assumes inv_init: "init s \<Longrightarrow> inv s"
    and inv_step: "inv s \<Longrightarrow> step s t \<Longrightarrow> inv t"
begin

lemma reach_inv: "reach init step s \<Longrightarrow> inv s"
  by (induction rule: reach.induct) (auto intro: inv_init inv_step)

end

end
