(* ===== verification/DimHash.thy ===== *)
theory DimHash
  imports Prelude
begin

text \<open>
  The multi-dimensional policy hash of \<^verbatim>\<open>lib/dimhash.cc\<close>: composite keys, exact lookup,
  insertion and deletion, and the recursive wildcard search. The fixed-size C buffers are
  part of the model: an operation that would write past one returns the memory error.
  The values are whatever the policy stored (never NULL).
\<close>

section \<open>Constants and data\<close>

definition DIMHASH_WILDCARD :: nat where "DIMHASH_WILDCARD = 1"
definition DIMHASH_CONSUME :: nat where "DIMHASH_CONSUME = 2"
definition DIMHASH_MAX_KEYNUM :: nat where "DIMHASH_MAX_KEYNUM = 5"
definition DIMHASH_MAX_KEYSIZE :: nat where "DIMHASH_MAX_KEYSIZE = 100"

lemmas dimhash_consts =
  DIMHASH_WILDCARD_def DIMHASH_CONSUME_def DIMHASH_MAX_KEYNUM_def DIMHASH_MAX_KEYSIZE_def

record 'v dimhash =
  dh_hash :: "string \<rightharpoonup> 'v"
  dh_keynum :: nat
  dh_minkeynum :: nat
  dh_flags :: "nat list"

datatype mem_error = BufferOverflow | InvalidRead

section \<open>Operations\<close>

definition z_dim_hash_table_new :: "nat \<Rightarrow> nat list \<Rightarrow> 'v dimhash" where
  "z_dim_hash_table_new minnum fs =
     \<lparr>dh_hash = Map.empty, dh_keynum = length fs, dh_minkeynum = minnum, dh_flags = fs\<rparr>"

text \<open>Whether a step was possible, and the altered key.\<close>

definition z_dim_hash_nextstep :: "string \<Rightarrow> nat \<Rightarrow> bool \<times> string" where
  "z_dim_hash_nextstep key flags =
     (if flags = 0 \<or> key = [] then (False, key)
      else if flags = DIMHASH_WILDCARD then (True, [])
      else if flags = DIMHASH_CONSUME then (True, butlast key)
      else (False, key))"

text \<open>The part of the composite key one dimension contributes: nothing for an empty string or a star.\<close>

definition keypart :: "string \<Rightarrow> string" where
  "keypart p = (if p \<noteq> [] \<and> (tl p \<noteq> [] \<or> hd p \<noteq> CHR ''*'') then p else [])"

definition composite :: "string list \<Rightarrow> string" where
  "composite parts =
     (case parts of [] \<Rightarrow> [] | p # ps \<Rightarrow> keypart p @ concat (map (\<lambda>q. ''::'' @ keypart q) ps))"

text \<open>
  \<open>z_dim_hash_table_makekey key_len parts\<close>: the length test counts the parts only, so the
  separators and the terminating NUL may still run past the buffer.
\<close>

definition z_dim_hash_table_makekey :: "nat \<Rightarrow> string list \<Rightarrow> mem_error + string option" where
  "z_dim_hash_table_makekey key_len key_parts =
     (if sum_list (map length key_parts) > key_len then Inr None
      else if key_parts = [] then Inl InvalidRead
      else if length (composite key_parts) + 1 > key_len then Inl BufferOverflow
      else Inr (Some (composite key_parts)))"

definition keybuf_len :: nat where
  "keybuf_len = DIMHASH_MAX_KEYNUM * (DIMHASH_MAX_KEYSIZE + 2) + 1"

definition key_count_ok :: "'v dimhash \<Rightarrow> nat \<Rightarrow> bool" where
  "key_count_ok self num \<longleftrightarrow> \<not> (dh_minkeynum self > num \<or> dh_keynum self < num)"

definition z_dim_hash_table_lookup :: "'v dimhash \<Rightarrow> string list \<Rightarrow> mem_error + 'v option" where
  "z_dim_hash_table_lookup self keys =
     (if \<not> key_count_ok self (length keys) then Inr None
      else case z_dim_hash_table_makekey keybuf_len keys of
        Inl e \<Rightarrow> Inl e
      | Inr None \<Rightarrow> Inr None
      | Inr (Some key) \<Rightarrow> Inr (dh_hash self key))"

definition z_dim_hash_table_insert :: "'v dimhash \<Rightarrow> 'v \<Rightarrow> string list \<Rightarrow> mem_error + 'v dimhash" where
  "z_dim_hash_table_insert self v keys =
     (if \<not> key_count_ok self (length keys) then Inr self
      else case z_dim_hash_table_makekey keybuf_len keys of
        Inl e \<Rightarrow> Inl e
      | Inr None \<Rightarrow> Inr self
      | Inr (Some key) \<Rightarrow> Inr (self\<lparr>dh_hash := (dh_hash self)(key \<mapsto> v)\<rparr>))"

text \<open>Deletion also hands the removed value to the caller's free function.\<close>

definition z_dim_hash_table_delete ::
  "'v dimhash \<Rightarrow> string list \<Rightarrow> mem_error + ('v dimhash \<times> 'v option)" where
  "z_dim_hash_table_delete self keys =
     (if \<not> key_count_ok self (length keys) then Inr (self, None)
      else case z_dim_hash_table_makekey keybuf_len keys of
        Inl e \<Rightarrow> Inl e
      | Inr None \<Rightarrow> Inr (self, None)
      | Inr (Some key) \<Rightarrow>
          (case dh_hash self key of
             None \<Rightarrow> Inr (self, None)
           | Some v \<Rightarrow> Inr (self\<lparr>dh_hash := (dh_hash self)(key := None)\<rparr>, Some v)))"

text \<open>
  The recursive search. \<open>pre\<close> holds the current contents of the key buffers of the dimensions
  already entered, the second list the caller's keys and flags of the dimensions still to
  enter: entering a dimension copies the caller's key over its 100-byte buffer, and a deeper
  call never touches an outer buffer. \<open>rec_search_loop\<close> is the loop over one dimension.
\<close>

lemma nextstep_shrinks: "z_dim_hash_nextstep k f = (True, k') \<Longrightarrow> length k' < length k"
  by (auto simp: z_dim_hash_nextstep_def split: if_splits)

function (sequential)
  z_dim_hash_table_rec_search ::
    "(string \<rightharpoonup> 'v) \<Rightarrow> string list \<Rightarrow> (string \<times> nat) list \<Rightarrow> mem_error + 'v option"
  and rec_search_loop ::
    "(string \<rightharpoonup> 'v) \<Rightarrow> string list \<Rightarrow> string \<Rightarrow> nat \<Rightarrow> (string \<times> nat) list \<Rightarrow> mem_error + 'v option"
where
  "z_dim_hash_table_rec_search h pre [] =
     (case z_dim_hash_table_makekey keybuf_len pre of
        Inl e \<Rightarrow> Inl e
      | Inr None \<Rightarrow> Inr None
      | Inr (Some key) \<Rightarrow> Inr (h key))"
| "z_dim_hash_table_rec_search h pre ((k, f) # rest) =
     (if length k + 1 > DIMHASH_MAX_KEYSIZE then Inl BufferOverflow
      else rec_search_loop h pre k f rest)"
| "rec_search_loop h pre k f rest =
     (case z_dim_hash_table_rec_search h (pre @ [k]) rest of
        Inl e \<Rightarrow> Inl e
      | Inr (Some v) \<Rightarrow> Inr (Some v)
      | Inr None \<Rightarrow>
          (case z_dim_hash_nextstep k f of
             (True, k') \<Rightarrow> rec_search_loop h pre k' f rest
           | (False, _) \<Rightarrow> Inr None))"
  by pat_completeness auto
termination
  by (relation "measures [case_sum (\<lambda>(h, pre, rest). 2 * length rest) (\<lambda>(h, pre, k, f, rest). 2 * length rest + 1),
        case_sum (\<lambda>_. 0) (\<lambda>(h, pre, k, f, rest). length k)]")
    (auto dest: nextstep_shrinks [OF sym])

text \<open>The search drops trailing dimensions until a match is found or none is left.\<close>

fun search_loop :: "'v dimhash \<Rightarrow> string list \<Rightarrow> nat \<Rightarrow> mem_error + 'v option" where
  "search_loop self keys 0 = Inr None"
| "search_loop self keys (Suc n) =
     (case z_dim_hash_table_rec_search (dh_hash self) [] (take (Suc n) (zip keys (dh_flags self))) of
        Inl e \<Rightarrow> Inl e
      | Inr (Some v) \<Rightarrow> Inr (Some v)
      | Inr None \<Rightarrow> search_loop self keys n)"

definition z_dim_hash_table_search :: "'v dimhash \<Rightarrow> string list \<Rightarrow> mem_error + 'v option" where
  "z_dim_hash_table_search self keys =
     (if \<not> key_count_ok self (length keys) then Inr None
      else if length keys > DIMHASH_MAX_KEYNUM then Inl BufferOverflow
      else search_loop self keys (length keys))"

section \<open>The abstract search\<close>

text \<open>
  The candidates of one dimension, most specific first: the key itself and then what its
  flag allows (nothing, for a wildcard; ever shorter prefixes, for a consumed key). The
  candidate vectors of all dimensions are tried with the last dimension varying fastest.
\<close>

definition variants :: "nat \<Rightarrow> string \<Rightarrow> string list" where
  "variants f k =
     (if f = DIMHASH_WILDCARD \<and> k \<noteq> [] then [k, []]
      else if f = DIMHASH_CONSUME then map (\<lambda>n. take n k) (rev [0..<Suc (length k)])
      else [k])"

fun candidates :: "(string \<times> nat) list \<Rightarrow> string list list" where
  "candidates [] = [[]]"
| "candidates ((k, f) # rest) = concat (map (\<lambda>k'. map (\<lambda>c. k' # c) (candidates rest)) (variants f k))"

fun first_match :: "(string \<rightharpoonup> 'v) \<Rightarrow> string list list \<Rightarrow> 'v option" where
  "first_match h [] = None"
| "first_match h (c # cs) = (case h (composite c) of Some v \<Rightarrow> Some v | None \<Rightarrow> first_match h cs)"

text \<open>Every key vector of at least one dimension, longest first, with all its candidates.\<close>

definition search_order :: "(string \<times> nat) list \<Rightarrow> string list list" where
  "search_order kfs = concat (map (\<lambda>n. candidates (take n kfs)) (rev [1..<Suc (length kfs)]))"

definition keys_fit :: "string list \<Rightarrow> bool" where
  "keys_fit keys \<longleftrightarrow> list_all (\<lambda>k. length k < DIMHASH_MAX_KEYSIZE) keys"

section \<open>Lemmas\<close>

lemma first_match_append [simp]:
  "first_match h (as @ bs) = (case first_match h as of Some v \<Rightarrow> Some v | None \<Rightarrow> first_match h bs)"
  by (induction "as") (auto split: option.splits)

lemma first_match_SomeD: "first_match h cs = Some v \<Longrightarrow> \<exists>c\<in>set cs. h (composite c) = Some v"
  by (induction cs) (auto split: option.splits)

lemma first_match_None_iff: "first_match h cs = None \<longleftrightarrow> (\<forall>c\<in>set cs. h (composite c) = None)"
  by (induction cs) (auto split: option.splits)

lemma variants_unfold:
  "variants f k = k # (case z_dim_hash_nextstep k f of (True, k') \<Rightarrow> variants f k' | (False, _) \<Rightarrow> [])"
proof (cases "f = DIMHASH_CONSUME \<and> k \<noteq> []")
  case True
  then have "variants f k = k # map (\<lambda>n. take n k) (rev [0..<length k])"
    by (simp add: variants_def dimhash_consts)
  also have "map (\<lambda>n. take n k) (rev [0..<length k]) = variants f (butlast k)"
    using True by (auto simp: variants_def dimhash_consts take_butlast simp del: upt_Suc)
  finally show ?thesis
    using True by (simp add: z_dim_hash_nextstep_def dimhash_consts)
next
  case False
  then show ?thesis
    by (auto simp: variants_def z_dim_hash_nextstep_def dimhash_consts)
qed

lemma variants_length: "k' \<in> set (variants f k) \<Longrightarrow> length k' \<le> length k"
  by (auto simp: variants_def split: if_splits)

lemma hd_candidates: "\<exists>cs. candidates kfs = map fst kfs # cs"
proof (induction kfs)
  case (Cons kf rest)
  obtain k f where kf: "kf = (k, f)" by fastforce
  obtain cs where "candidates rest = map fst rest # cs" using Cons by blast
  moreover obtain vs where "variants f k = k # vs"
    using variants_unfold [of f k] by blast
  ultimately show ?case using kf by simp
qed simp

lemma keypart_length: "length (keypart p) \<le> length p"
  by (simp add: keypart_def)

lemma length_composite:
  "parts \<noteq> [] \<Longrightarrow> length (composite parts) \<le> sum_list (map length parts) + 2 * (length parts - 1)"
proof (induction parts)
  case (Cons p ps)
  have "length (concat (map (\<lambda>q. ''::'' @ keypart q) ps)) \<le> sum_list (map length ps) + 2 * length ps"
    by (induction ps) (auto intro: le_trans [OF add_mono [OF keypart_length]])
  then show ?case
    using keypart_length [of p] by (simp add: composite_def)
qed simp

lemma sum_list_bounded:
  "list_all (\<lambda>k. length k < n) ks \<Longrightarrow> sum_list (map length ks) + length ks \<le> n * length ks"
  by (induction ks) auto

lemma makekey_fits:
  assumes "keys_fit ks" and "ks \<noteq> []" and "length ks \<le> DIMHASH_MAX_KEYNUM"
  shows "z_dim_hash_table_makekey keybuf_len ks = Inr (Some (composite ks))"
proof -
  have "sum_list (map length ks) + length ks \<le> 100 * length ks"
    using sum_list_bounded [of 100 ks] assms(1) by (simp add: keys_fit_def dimhash_consts)
  moreover have "length (composite ks) \<le> sum_list (map length ks) + 2 * (length ks - 1)"
    by (rule length_composite [OF assms(2)])
  moreover have "0 < length ks" "length ks \<le> 5"
    using assms(2,3) by (auto simp: dimhash_consts)
  ultimately show ?thesis
    using assms(2) by (simp add: z_dim_hash_table_makekey_def keybuf_len_def dimhash_consts)
qed

lemma keys_fit_append [simp]: "keys_fit (xs @ ys) \<longleftrightarrow> keys_fit xs \<and> keys_fit ys"
  by (simp add: keys_fit_def)

text \<open>The recursion over mutable key buffers computes the first matching candidate.\<close>

lemma rec_search_first_match:
  shows "keys_fit (pre @ map fst rest) \<Longrightarrow> pre @ map fst rest \<noteq> [] \<Longrightarrow>
      length pre + length rest \<le> DIMHASH_MAX_KEYNUM \<Longrightarrow>
      z_dim_hash_table_rec_search h pre rest = Inr (first_match h (map (\<lambda>c. pre @ c) (candidates rest)))"
    and "keys_fit (pre @ k # map fst rest) \<Longrightarrow>
      length pre + length rest < DIMHASH_MAX_KEYNUM \<Longrightarrow>
      rec_search_loop h pre k f rest =
        Inr (first_match h (concat (map (\<lambda>k'. map (\<lambda>c. pre @ k' # c) (candidates rest)) (variants f k))))"
proof (induction h pre rest and h pre k f rest 
    rule: z_dim_hash_table_rec_search_rec_search_loop.induct)
  case (1 h pre)
  then show ?case by (simp add: makekey_fits split: option.splits)
next
  case (2 h pre k f rest)
  then show ?case
    by (simp add: keys_fit_def dimhash_consts map_concat comp_def)
next
  case (3 h pre k f rest)
  have rec: "z_dim_hash_table_rec_search h (pre @ [k]) rest =
      Inr (first_match h (map (\<lambda>c. pre @ k # c) (candidates rest)))"
    using 3(1) "3.prems" by simp
  show ?case
  proof (cases "z_dim_hash_nextstep k f")
    case (Pair ok k')
    show ?thesis
    proof (cases ok)
      case True
      then have step: "z_dim_hash_nextstep k f = (True, k')" using Pair by simp
      have "keys_fit (pre @ k' # map fst rest)"
        using "3.prems"(1) nextstep_shrinks [OF step] by (auto simp: keys_fit_def)
      then have "first_match h (map (\<lambda>c. pre @ k # c) (candidates rest)) = None \<Longrightarrow>
          rec_search_loop h pre k' f rest =
            Inr (first_match h (concat (map (\<lambda>k'. map (\<lambda>c. pre @ k' # c) (candidates rest)) (variants f k'))))"
        using 3(2) [OF rec _ step [symmetric]] "3.prems"(2) by auto
      then show ?thesis
        using rec step by (subst variants_unfold) (auto simp: split: option.splits)
    next
      case False
      with Pair have step: "z_dim_hash_nextstep k f = (False, k')" by simp
      show ?thesis
        using rec step by (subst variants_unfold) (auto simp: split: option.splits)
    qed
  qed
qed


lemma take_zip_fst: "length ks \<le> length fs \<Longrightarrow> map fst (take n (zip ks fs)) = take n ks"
  by (simp add: take_map [symmetric] map_fst_zip_take)

lemma keys_fit_take: "keys_fit ks \<Longrightarrow> keys_fit (take n ks)"
  by (auto simp: keys_fit_def list_all_iff dest: in_set_takeD)

lemma search_loop_first_match:
  assumes "keys_fit keys" and "length keys \<le> DIMHASH_MAX_KEYNUM"
    and "length keys \<le> length (dh_flags self)" and "n \<le> length keys"
  shows "search_loop self keys n =
    Inr (first_match (dh_hash self)
      (concat (map (\<lambda>m. candidates (take m (zip keys (dh_flags self)))) (rev [1..<Suc n]))))"
  using assms(4)
proof (induction n)
  case 0
  then show ?case by simp
next
  case (Suc n)
  let ?kfs = "take (Suc n) (zip keys (dh_flags self))"
  have "z_dim_hash_table_rec_search (dh_hash self) [] ?kfs =
      Inr (first_match (dh_hash self) (map (\<lambda>c. [] @ c) (candidates ?kfs)))"
  proof (rule rec_search_first_match)
    show "keys_fit ([] @ map fst ?kfs)"
      using assms(1,3) by (simp add: take_zip_fst keys_fit_take)
    show "[] @ map fst ?kfs \<noteq> []"
      using Suc.prems assms(3) by (auto simp: take_zip_fst)
    show "length [] + length ?kfs \<le> DIMHASH_MAX_KEYNUM"
      using assms(2) by simp
  qed
  then show ?case
    using Suc by (auto split: option.splits)
qed

text \<open>The two guards in front of every operation.\<close>

lemma key_count_okD:
  "key_count_ok self n \<Longrightarrow> dh_minkeynum self \<le> n \<and> n \<le> dh_keynum self"
  by (auto simp: key_count_ok_def)

lemma rec_search_overflow:
  shows "list_all (\<lambda>k. length k < DIMHASH_MAX_KEYSIZE) pre \<Longrightarrow> \<not> keys_fit (map fst rest) \<Longrightarrow>
      z_dim_hash_table_rec_search h pre rest = Inl BufferOverflow"
    and "list_all (\<lambda>k. length k < DIMHASH_MAX_KEYSIZE) (pre @ [k]) \<Longrightarrow> \<not> keys_fit (map fst rest) \<Longrightarrow>
      rec_search_loop h pre k f rest = Inl BufferOverflow"
  by (induction h pre rest and h pre k f rest
      rule: z_dim_hash_table_rec_search_rec_search_loop.induct)
    (auto simp: keys_fit_def not_less_eq)

lemma search_loop_overflow:
  assumes "\<not> keys_fit keys" and "length keys \<le> length (dh_flags self)" and "keys \<noteq> []"
  shows "search_loop self keys (length keys) = Inl BufferOverflow"
proof -
  obtain n where n: "length keys = Suc n" using assms(3) by (cases keys) auto
  then have "map fst (take (Suc n) (zip keys (dh_flags self))) = keys"
    using assms(2) take_zip_fst [of keys "dh_flags self" "Suc n"] by simp
  with assms(1) n show ?thesis by (simp add: rec_search_overflow)
qed

text \<open>Composite keys of colon-free vectors determine the vector up to the spelling of \<open>unspecified\<close>.\<close>

definition colon_free :: "string list \<Rightarrow> bool" where
  "colon_free ks \<longleftrightarrow> list_all (\<lambda>k. CHR '':'' \<notin> set k) ks"

lemma colon_free_Cons [simp]: "colon_free (k # ks) \<longleftrightarrow> CHR '':'' \<notin> set k \<and> colon_free ks"
  by (simp add: colon_free_def)

lemma keypart_set: "x \<in> set (keypart p) \<Longrightarrow> x \<in> set p"
  by (simp add: keypart_def split: if_splits)

lemma takeWhile_colon:
  assumes "CHR '':'' \<notin> set xs" and "ys = [] \<or> hd ys = CHR '':''"
  shows "takeWhile (\<lambda>c. c \<noteq> CHR '':'') (xs @ ys) = xs"
proof -
  have "takeWhile (\<lambda>c. c \<noteq> CHR '':'') (xs @ ys) = xs @ takeWhile (\<lambda>c. c \<noteq> CHR '':'') ys"
    using assms(1) by (intro takeWhile_append2) auto
  then show ?thesis using assms(2) by (cases ys) auto
qed

lemma tail_inject:
  assumes "colon_free ps" and "colon_free qs"
    and "concat (map (\<lambda>q. ''::'' @ keypart q) ps) = concat (map (\<lambda>q. ''::'' @ keypart q) qs)"
  shows "map keypart ps = map keypart qs"
  using assms
proof (induction ps arbitrary: qs)
  case Nil
  then show ?case by (cases qs) auto
next
  case (Cons p ps)
  then obtain q qs' where q: "qs = q # qs'" by (cases qs) auto
  let ?t = "\<lambda>xs. concat (map (\<lambda>q. ''::'' @ keypart q) xs)"
  have eq: "keypart p @ ?t ps = keypart q @ ?t qs'" using Cons.prems(3) q by simp
  have hd: "?t xs = [] \<or> hd (?t xs) = CHR '':''" for xs by (cases xs) auto
  have "keypart p = takeWhile (\<lambda>c. c \<noteq> CHR '':'') (keypart p @ ?t ps)"
    using Cons.prems(1) keypart_set [of _ p] by (intro takeWhile_colon [OF _ hd, symmetric]) auto
  also have "\<dots> = keypart q"
    unfolding eq using Cons.prems(2) keypart_set [of _ q] q by (intro takeWhile_colon [OF _ hd]) auto
  finally have kp: "keypart p = keypart q" .
  moreover have "map keypart ps = map keypart qs'"
    using Cons.IH [of qs'] Cons.prems(1,2) eq kp q by simp
  ultimately show ?case using q by simp
qed

lemma composite_inject:
  assumes "colon_free ps" and "colon_free qs" and "ps \<noteq> []" and "qs \<noteq> []"
  shows "composite ps = composite qs \<longleftrightarrow> map keypart ps = map keypart qs"
proof
  assume "composite ps = composite qs"
  then have "concat (map (\<lambda>q. ''::'' @ keypart q) ps) = concat (map (\<lambda>q. ''::'' @ keypart q) qs)"
    using assms(3,4) by (cases ps; cases qs) (auto simp: composite_def)
  then show "map keypart ps = map keypart qs" by (rule tail_inject [OF assms(1,2)])
next
  assume eq: "map keypart ps = map keypart qs"
  have "composite xs = (case map keypart xs of [] \<Rightarrow> [] | p # ps \<Rightarrow> p @ concat (map (\<lambda>q. ''::'' @ q) ps))"
    for xs by (cases xs) (simp_all add: composite_def comp_def)
  with eq show "composite ps = composite qs" by simp
qed


section \<open>The interface: a store of key vectors\<close>

text \<open>
  What the users of the table rely on: after a store, an equivalent key finds the new value
  and every other key what it found before; after a removal, equivalent keys find nothing.
  \<open>ok t k\<close> says that the key is admissible for the table.
\<close>

locale key_store =
  fixes ins :: "'t \<Rightarrow> 'k \<Rightarrow> 'v \<Rightarrow> 't"
    and del :: "'t \<Rightarrow> 'k \<Rightarrow> 't"
    and look :: "'t \<Rightarrow> 'k \<Rightarrow> 'v option"
    and ok :: "'t \<Rightarrow> 'k \<Rightarrow> bool"
    and norm :: "'k \<Rightarrow> 'n"
  assumes look_ins: "ok t k \<Longrightarrow> ok t k' \<Longrightarrow>
      look (ins t k v) k' = (if norm k' = norm k then Some v else look t k')"
    and look_del: "ok t k \<Longrightarrow> ok t k' \<Longrightarrow>
      look (del t k) k' = (if norm k' = norm k then None else look t k')"
    and ok_ins: "ok (ins t k v) k' \<longleftrightarrow> ok t k'"
    and ok_del: "ok (del t k) k' \<longleftrightarrow> ok t k'"
begin

lemma look_fold_ins:
  assumes "\<And>k v. (k, v) \<in> set kvs \<Longrightarrow> ok t k" and "ok t k'"
  shows "look (fold (\<lambda>(k, v) t. ins t k v) kvs t) k' =
    (case map_of (rev (map (\<lambda>(k, v). (norm k, v)) kvs)) (norm k') of
       None \<Rightarrow> look t k' | Some v \<Rightarrow> Some v)"
  using assms
proof (induction kvs arbitrary: t)
  case Nil
  then show ?case by simp
next
  case (Cons kv kvs)
  obtain k v where kv: "kv = (k, v)" by fastforce
  have "look (fold (\<lambda>(k, v) t. ins t k v) kvs (ins t k v)) k' =
    (case map_of (rev (map (\<lambda>(k, v). (norm k, v)) kvs)) (norm k') of
       None \<Rightarrow> look (ins t k v) k' | Some v \<Rightarrow> Some v)"
    using Cons.prems kv by (intro Cons.IH) (auto simp: ok_ins)
  moreover have "look (ins t k v) k' = (if norm k' = norm k then Some v else look t k')"
    using Cons.prems kv by (intro look_ins) auto
  ultimately show ?case
    using kv by (auto simp: map_add_def split: option.splits)
qed

lemma look_ins_del: "ok t k \<Longrightarrow> ok t k' \<Longrightarrow> norm k' \<noteq> norm k \<Longrightarrow> look (del (ins t k v) k) k' = look t k'"
  by (simp add: look_del look_ins ok_ins)

end

text \<open>The table's operations in the shape of the interface: a refused operation changes nothing.\<close>

definition dh_ins :: "'v dimhash \<Rightarrow> string list \<Rightarrow> 'v \<Rightarrow> 'v dimhash" where
  "dh_ins t k v = (case z_dim_hash_table_insert t v k of Inl _ \<Rightarrow> t | Inr t' \<Rightarrow> t')"

definition dh_del :: "'v dimhash \<Rightarrow> string list \<Rightarrow> 'v dimhash" where
  "dh_del t k = (case z_dim_hash_table_delete t k of Inl _ \<Rightarrow> t | Inr (t', _) \<Rightarrow> t')"

definition dh_look :: "'v dimhash \<Rightarrow> string list \<Rightarrow> 'v option" where
  "dh_look t k = (case z_dim_hash_table_lookup t k of Inl _ \<Rightarrow> None | Inr r \<Rightarrow> r)"

definition dh_ok :: "'v dimhash \<Rightarrow> string list \<Rightarrow> bool" where
  "dh_ok t k \<longleftrightarrow> key_count_ok t (length k) \<and> k \<noteq> [] \<and> length k \<le> DIMHASH_MAX_KEYNUM \<and>
     keys_fit k \<and> colon_free k"

lemma key_count_ok_hash [simp]: "key_count_ok (t\<lparr>dh_hash := h\<rparr>) n = key_count_ok t n"
  by (simp add: key_count_ok_def)

lemma dh_ok_ops:
  assumes "dh_ok t k"
  shows "z_dim_hash_table_insert t v k = Inr (t\<lparr>dh_hash := (dh_hash t)(composite k \<mapsto> v)\<rparr>)"
    and "z_dim_hash_table_lookup t k = Inr (dh_hash t (composite k))"
    and "dh_hash (dh_del t k) = (dh_hash t)(composite k := None)"
  using assms
  by (auto simp: dh_ok_def z_dim_hash_table_insert_def z_dim_hash_table_lookup_def dh_del_def
      z_dim_hash_table_delete_def makekey_fits split: option.splits)

lemma dh_frame:
  "dh_keynum (dh_ins t k v) = dh_keynum t" "dh_minkeynum (dh_ins t k v) = dh_minkeynum t"
  "dh_flags (dh_ins t k v) = dh_flags t"
  "dh_keynum (dh_del t k) = dh_keynum t" "dh_minkeynum (dh_del t k) = dh_minkeynum t"
  "dh_flags (dh_del t k) = dh_flags t"
  by (auto simp: dh_ins_def dh_del_def z_dim_hash_table_insert_def z_dim_hash_table_delete_def
      split: sum.splits option.splits if_splits)

lemma dh_ok_frame: "dh_ok (dh_ins t k v) k' = dh_ok t k'" "dh_ok (dh_del t k) k' = dh_ok t k'"
  by (simp_all add: dh_ok_def key_count_ok_def dh_frame)

lemma dh_ok_composite: "dh_ok t k \<Longrightarrow> dh_ok t k' \<Longrightarrow> composite k' = composite k \<longleftrightarrow> map keypart k' = map keypart k"
  by (auto simp: dh_ok_def composite_inject)

text \<open>A table with a wildcard default, for the examples.\<close>

definition star_table :: "nat dimhash" where
  "star_table = dh_ins (dh_ins (z_dim_hash_table_new 1 [1, 1]) [''24'', ''1''] 7) [''*'', ''*''] 3"

interpretation dh: key_store dh_ins dh_del dh_look dh_ok "map keypart"
proof unfold_locales
  fix t :: "'v dimhash" and k k' :: "string list" and v :: 'v
  assume k: "dh_ok t k" and k': "dh_ok t k'"
  have ins: "dh_ok (t\<lparr>dh_hash := h\<rparr>) k' = dh_ok t k'" for h by (simp add: dh_ok_def)
  show "dh_look (dh_ins t k v) k' = (if map keypart k' = map keypart k then Some v else dh_look t k')"
    using k k' dh_ok_composite [OF k k'] by (auto simp: dh_look_def dh_ins_def dh_ok_ops ins)
  show "dh_look (dh_del t k) k' = (if map keypart k' = map keypart k then None else dh_look t k')"
    using k k' dh_ok_composite [OF k k'] by (auto simp: dh_look_def dh_ok_ops dh_ok_frame)
qed (simp_all add: dh_ok_frame)

section \<open>Properties\<close>

text \<open>C28: The recursive search over shared key buffers returns the value of the first candidate
  vector, in order of precedence, that the table holds: trailing dimensions are dropped one by
  one, and within a dimension count the more specific keys come first.\<close>

theorem dimhash_search_spec:
  assumes "key_count_ok self (length keys)" and "dh_keynum self = length (dh_flags self)"
    and "length keys \<le> DIMHASH_MAX_KEYNUM" and "keys_fit keys"
  shows "z_dim_hash_table_search self keys =
    Inr (first_match (dh_hash self) (search_order (zip keys (dh_flags self))))"
proof -
  have "length keys \<le> length (dh_flags self)"
    using key_count_okD [OF assms(1)] assms(2) by simp
  with assms show ?thesis
    using search_loop_first_match [of keys self "length keys"]
    by (simp add: z_dim_hash_table_search_def search_order_def)
qed

theorem dimhash_search_spec_witness:
  "z_dim_hash_table_search star_table [''24'', ''0''] =
     Inr (first_match (dh_hash star_table) (search_order (zip [''24'', ''0''] (dh_flags star_table))))
   \<and> z_dim_hash_table_search star_table [''24'', ''0''] = Inr (Some 3)
   \<and> z_dim_hash_table_search star_table [''24'', ''1''] = Inr (Some 7)"
proof (intro conjI)
  show "z_dim_hash_table_search star_table [''24'', ''0''] =
     Inr (first_match (dh_hash star_table) (search_order (zip [''24'', ''0''] (dh_flags star_table))))"
    by (rule dimhash_search_spec) code_simp+
qed code_simp+

text \<open>C40: The search is memory safe exactly when every key is shorter than 100 characters: a
  longer key is copied over the 100-byte buffer that was allocated for its truncated copy.\<close>

theorem dimhash_search_overflow_iff:
  assumes "key_count_ok self (length keys)" and "dh_keynum self = length (dh_flags self)"
    and "length keys \<le> DIMHASH_MAX_KEYNUM"
  shows "z_dim_hash_table_search self keys = Inl BufferOverflow \<longleftrightarrow> \<not> keys_fit keys"
proof -
  have len: "length keys \<le> length (dh_flags self)"
    using key_count_okD [OF assms(1)] assms(2) by simp
  show ?thesis
  proof (cases "keys_fit keys")
    case True
    then show ?thesis
      using search_loop_first_match [of keys self "length keys"] assms len
      by (simp add: z_dim_hash_table_search_def)
  next
    case False
    then have "search_loop self keys (length keys) = Inl BufferOverflow"
      using len by (intro search_loop_overflow) (auto simp: keys_fit_def)
    with False show ?thesis
      using assms by (simp add: z_dim_hash_table_search_def)
  qed
qed

theorem dimhash_search_overflow_iff_witness:
  "z_dim_hash_table_search star_table [replicate 100 CHR ''a''] = Inl BufferOverflow"
proof -
  have "z_dim_hash_table_search star_table [replicate 100 CHR ''a''] = Inl BufferOverflow
      \<longleftrightarrow> \<not> keys_fit [replicate 100 CHR ''a'']"
    by (rule dimhash_search_overflow_iff) code_simp+
  then show ?thesis by (simp add: keys_fit_def dimhash_consts)
qed

text \<open>Exact lookup builds the composite key in a 511-byte buffer whose size test ignores the
  separators and the terminating NUL: it overruns the buffer exactly when the parts alone pass
  the test and the composite does not fit.\<close>

theorem dimhash_lookup_overflow_iff:
  assumes "key_count_ok self (length keys)" and "keys \<noteq> []"
  shows "z_dim_hash_table_lookup self keys = Inl BufferOverflow \<longleftrightarrow>
    sum_list (map length keys) \<le> 511 \<and> 511 \<le> length (composite keys)"
  using assms
  by (auto simp: z_dim_hash_table_lookup_def z_dim_hash_table_makekey_def keybuf_len_def dimhash_consts
      split: sum.splits option.splits)

theorem dimhash_lookup_overflow_iff_witness:
  "z_dim_hash_table_lookup (z_dim_hash_table_new 1 [1, 1] :: nat dimhash)
     [replicate 255 CHR ''a'', replicate 255 CHR ''b''] = Inl BufferOverflow"
proof -
  let ?t = "z_dim_hash_table_new 1 [1, 1] :: nat dimhash"
  let ?k = "[replicate 255 CHR ''a'', replicate 255 CHR ''b'']"
  have "z_dim_hash_table_lookup ?t ?k = Inl BufferOverflow \<longleftrightarrow>
      sum_list (map length ?k) \<le> 511 \<and> 511 \<le> length (composite ?k)"
    by (rule dimhash_lookup_overflow_iff) (auto simp: key_count_ok_def z_dim_hash_table_new_def)
  moreover have "keypart (replicate 255 c) = replicate 255 c" for c
    by (simp add: keypart_def)
  ultimately show ?thesis by (simp add: composite_def)
qed

text \<open>A table filled by a sequence of insertions answers an exact lookup with the value of the
  last insertion under an equivalent key vector (an empty part and a star are the same key).\<close>

theorem dimhash_last_insert_wins:
  assumes "\<And>k v. (k, v) \<in> set kvs \<Longrightarrow> dh_ok t k" and "dh_ok t k'"
  shows "dh_look (fold (\<lambda>(k, v) t. dh_ins t k v) kvs t) k' =
    (case map_of (rev (map (\<lambda>(k, v). (map keypart k, v)) kvs)) (map keypart k') of
       None \<Rightarrow> dh_look t k' | Some v \<Rightarrow> Some v)"
  by (rule dh.look_fold_ins) (use assms in auto)

theorem dimhash_last_insert_wins_witness:
  "dh_look (fold (\<lambda>(k, v) t. dh_ins t k v) [([''*''], 1), ([''1''], 2), ([[]], 5)]
     (z_dim_hash_table_new 1 [1, 1] :: nat dimhash)) [''*''] = Some 5"
proof -
  let ?t = "z_dim_hash_table_new 1 [1, 1] :: nat dimhash"
  have "dh_look (fold (\<lambda>(k, v) t. dh_ins t k v) [([''*''], 1), ([''1''], 2), ([[]], 5)] ?t) [''*''] =
    (case map_of (rev (map (\<lambda>(k, v). (map keypart k, v)) [([''*''], 1), ([''1''], 2), ([[]], 5)]))
       (map keypart [''*'']) of None \<Rightarrow> dh_look ?t [''*''] | Some v \<Rightarrow> Some v)"
    by (rule dimhash_last_insert_wins)
      (auto simp: dh_ok_def key_count_ok_def z_dim_hash_table_new_def dimhash_consts keys_fit_def colon_free_def)
  then show ?thesis by (simp add: keypart_def)
qed

end
