(* ===== verification/Policy.thy ===== *)
theory Policy
  imports Prelude
begin

text \<open>
  The vocabulary the proxies share with the policy layer (\<^verbatim>\<open>lib/zorp/policy.h\<close>): verdicts,
  the two endpoints, the Python values a policy hash may hold, and the conversions that
  \<^verbatim>\<open>z_policy_var_parse\<close> performs on them.
\<close>

datatype ZVerdict =
  ZV_UNSPEC | ZV_ACCEPT | ZV_DENY | ZV_REJECT | ZV_ABORT | ZV_DROP | ZV_POLICY | ZV_ERROR | ZV_PROXY_SPECIFIC

fun zv_code :: "ZVerdict \<Rightarrow> int" where
  "zv_code ZV_UNSPEC = 0"
| "zv_code ZV_ACCEPT = 1"
| "zv_code ZV_DENY = 2"
| "zv_code ZV_REJECT = 3"
| "zv_code ZV_ABORT = 4"
| "zv_code ZV_DROP = 5"
| "zv_code ZV_POLICY = 6"
| "zv_code ZV_ERROR = 7"
| "zv_code ZV_PROXY_SPECIFIC = 100"

lemma zv_code_inject [simp]: "zv_code a = zv_code b \<longleftrightarrow> a = b"
  by (cases a; cases b) auto

datatype endpoint = EP_CLIENT | EP_SERVER

text \<open>A proxy keeps some of its fields per endpoint; being enumerable, such functions can be compared.\<close>

instantiation endpoint :: enum
begin

definition enum_endpoint :: "endpoint list" where
  "enum_endpoint = [EP_CLIENT, EP_SERVER]"

definition enum_all_endpoint :: "(endpoint \<Rightarrow> bool) \<Rightarrow> bool" where
  "enum_all_endpoint P \<longleftrightarrow> P EP_CLIENT \<and> P EP_SERVER"

definition enum_ex_endpoint :: "(endpoint \<Rightarrow> bool) \<Rightarrow> bool" where
  "enum_ex_endpoint P \<longleftrightarrow> P EP_CLIENT \<or> P EP_SERVER"

instance
proof
  have univ: "(UNIV :: endpoint set) = {EP_CLIENT, EP_SERVER}"
    using endpoint.exhaust by auto
  show "(UNIV :: endpoint set) = set enum_class.enum" "distinct (enum_class.enum :: endpoint list)"
    by (simp_all add: enum_endpoint_def univ)
  show "enum_class.enum_all P \<longleftrightarrow> Ball UNIV P" "enum_class.enum_ex P \<longleftrightarrow> Bex UNIV P" for P :: "endpoint \<Rightarrow> bool"
    by (simp_all add: enum_all_endpoint_def enum_ex_endpoint_def univ)
qed

end

fun EP_OTHER :: "endpoint \<Rightarrow> endpoint" where
  "EP_OTHER EP_CLIENT = EP_SERVER"
| "EP_OTHER EP_SERVER = EP_CLIENT"

lemma EP_OTHER_EP_OTHER [simp]: "EP_OTHER (EP_OTHER ep) = ep"
  by (cases ep) auto

lemma EP_OTHER_neq [simp]: "EP_OTHER ep \<noteq> ep" "ep \<noteq> EP_OTHER ep"
  by (cases ep; simp)+

text \<open>Python objects as far as the proxies look at them; a callable is known by a number.\<close>

datatype pyval = PyInt int | PyStr string | PySeq "pyval list" | PyCallable nat | PyNone

text \<open>Format \<^verbatim>\<open>i\<close>: a C int, refused out of its range. Format \<^verbatim>\<open>I\<close>: an unsigned int, wrapped.\<close>

fun parse_i :: "pyval \<Rightarrow> int option" where
  "parse_i (PyInt n) = (if - (2 ^ 31) \<le> n \<and> n < 2 ^ 31 then Some n else None)"
| "parse_i _ = None"

fun parse_I :: "pyval \<Rightarrow> nat option" where
  "parse_I (PyInt n) = Some (nat (n mod 2 ^ 32))"
| "parse_I _ = None"

fun parse_iO :: "pyval \<Rightarrow> (int \<times> pyval) option" where
  "parse_iO (PySeq [a, b]) = (case parse_i a of None \<Rightarrow> None | Some n \<Rightarrow> Some (n, b))"
| "parse_iO _ = None"

text \<open>Sequences are tuples, lists and strings; the first item of an empty one is NULL.\<close>

fun seq_check :: "pyval \<Rightarrow> bool" where
  "seq_check (PySeq _) = True"
| "seq_check (PyStr _) = True"
| "seq_check _ = False"

fun seq_getitem0 :: "pyval \<Rightarrow> pyval option" where
  "seq_getitem0 (PySeq (x # _)) = Some x"
| "seq_getitem0 (PyStr (c # _)) = Some (PyStr [c])"
| "seq_getitem0 _ = None"

datatype giostatus = G_IO_STATUS_ERROR | G_IO_STATUS_NORMAL | G_IO_STATUS_EOF | G_IO_STATUS_AGAIN

text \<open>The numeric values GLib gives the statuses, where the code uses one as a gboolean.\<close>

fun giostatus_code :: "giostatus \<Rightarrow> int" where
  "giostatus_code G_IO_STATUS_ERROR = 0"
| "giostatus_code G_IO_STATUS_NORMAL = 1"
| "giostatus_code G_IO_STATUS_EOF = 2"
| "giostatus_code G_IO_STATUS_AGAIN = 3"

end
