(* ===== verification/Telnet_Option.thy ===== *)
theory Telnet_Option
  imports Policy
begin

text \<open>
  Telnet command and option codes (\<^verbatim>\<open>modules/telnet/telnet.h\<close>) and the option negotiation
  state of \<^verbatim>\<open>modules/telnet/telnetoption.cc\<close>: four bits per option and endpoint. The lemmas
  give the bit operations their meaning (what each side uses and wants), and the locale
  states the contract the proxy's negotiation relies on, for both directions.
\<close>

unbundle bit_operations_syntax

section \<open>Codes\<close>

abbreviation TELNET_CMD_SE :: byte where "TELNET_CMD_SE \<equiv> 240"
abbreviation TELNET_CMD_SB :: byte where "TELNET_CMD_SB \<equiv> 250"
abbreviation TELNET_CMD_WILL :: byte where "TELNET_CMD_WILL \<equiv> 251"
abbreviation TELNET_CMD_WONT :: byte where "TELNET_CMD_WONT \<equiv> 252"
abbreviation TELNET_CMD_DO :: byte where "TELNET_CMD_DO \<equiv> 253"
abbreviation TELNET_CMD_DONT :: byte where "TELNET_CMD_DONT \<equiv> 254"
abbreviation TELNET_IAC :: byte where "TELNET_IAC \<equiv> 255"

abbreviation TELNET_OPTION_ECHO :: byte where "TELNET_OPTION_ECHO \<equiv> 1"
abbreviation TELNET_OPTION_SUPPRESS_GO_AHEAD :: byte where "TELNET_OPTION_SUPPRESS_GO_AHEAD \<equiv> 3"
abbreviation TELNET_OPTION_TERMINAL_TYPE :: byte where "TELNET_OPTION_TERMINAL_TYPE \<equiv> 24"
abbreviation TELNET_OPTION_NAWS :: byte where "TELNET_OPTION_NAWS \<equiv> 31"
abbreviation TELNET_OPTION_TERMINAL_SPEED :: byte where "TELNET_OPTION_TERMINAL_SPEED \<equiv> 32"
abbreviation TELNET_OPTION_X_DISPLAY_LOCATION :: byte where "TELNET_OPTION_X_DISPLAY_LOCATION \<equiv> 35"
abbreviation TELNET_OPTION_ENVIRONMENT :: byte where "TELNET_OPTION_ENVIRONMENT \<equiv> 39"
abbreviation TELNET_OPTION_STARTTLS :: byte where "TELNET_OPTION_STARTTLS \<equiv> 46"

section \<open>Option state\<close>

abbreviation OPTION_DO :: byte where "OPTION_DO \<equiv> 1"
abbreviation OPTION_WILL :: byte where "OPTION_WILL \<equiv> 2"
abbreviation OPTION_WANT_DO :: byte where "OPTION_WANT_DO \<equiv> 4"
abbreviation OPTION_WANT_WILL :: byte where "OPTION_WANT_WILL \<equiv> 8"

type_synonym TelnetOptionState = byte
type_synonym options = "byte \<Rightarrow> endpoint \<Rightarrow> TelnetOptionState"

definition telnet_option_state :: "options \<Rightarrow> endpoint \<Rightarrow> byte \<Rightarrow> TelnetOptionState" where
  "telnet_option_state opts ep option = opts option ep"

definition state_will :: "TelnetOptionState \<Rightarrow> bool" where
  "state_will state \<longleftrightarrow> state AND OPTION_WILL \<noteq> 0"

definition state_do :: "TelnetOptionState \<Rightarrow> bool" where
  "state_do state \<longleftrightarrow> state AND OPTION_DO \<noteq> 0"

definition do_in_progress :: "TelnetOptionState \<Rightarrow> bool" where
  "do_in_progress state \<longleftrightarrow> (state AND OPTION_DO \<noteq> 0) \<noteq> (state AND OPTION_WANT_DO \<noteq> 0)"

definition will_in_progress :: "TelnetOptionState \<Rightarrow> bool" where
  "will_in_progress state \<longleftrightarrow> (state AND OPTION_WILL \<noteq> 0) \<noteq> (state AND OPTION_WANT_WILL \<noteq> 0)"

definition telnet_option_do_in_progress :: "options \<Rightarrow> endpoint \<Rightarrow> byte \<Rightarrow> bool" where
  "telnet_option_do_in_progress opts ep option = do_in_progress (telnet_option_state opts ep option)"

definition telnet_option_will_in_progress :: "options \<Rightarrow> endpoint \<Rightarrow> byte \<Rightarrow> bool" where
  "telnet_option_will_in_progress opts ep option = will_in_progress (telnet_option_state opts ep option)"

definition telnet_option_do :: "options \<Rightarrow> endpoint \<Rightarrow> byte \<Rightarrow> bool" where
  "telnet_option_do opts ep option \<longleftrightarrow>
     (let state = telnet_option_state opts ep option in \<not> do_in_progress state \<and> state_do state)"

definition telnet_option_will :: "options \<Rightarrow> endpoint \<Rightarrow> byte \<Rightarrow> bool" where
  "telnet_option_will opts ep option \<longleftrightarrow>
     (let state = telnet_option_state opts ep option in \<not> will_in_progress state \<and> state_will state)"

text \<open>Writing one entry of the table.\<close>

definition upd_state ::
  "(TelnetOptionState \<Rightarrow> TelnetOptionState) \<Rightarrow> options \<Rightarrow> endpoint \<Rightarrow> byte \<Rightarrow> options" where
  "upd_state f opts ep option = opts(option := (opts option)(ep := f (opts option ep)))"

definition request_will :: "options \<Rightarrow> endpoint \<Rightarrow> byte \<Rightarrow> options" where
  "request_will = upd_state (\<lambda>state. state OR OPTION_WANT_WILL)"

definition response_will :: "options \<Rightarrow> endpoint \<Rightarrow> byte \<Rightarrow> options" where
  "response_will = upd_state (\<lambda>state. state OR OPTION_DO)"

definition request_do :: "options \<Rightarrow> endpoint \<Rightarrow> byte \<Rightarrow> options" where
  "request_do = upd_state (\<lambda>state. state OR OPTION_WANT_DO)"

definition response_do :: "options \<Rightarrow> endpoint \<Rightarrow> byte \<Rightarrow> options" where
  "response_do = upd_state (\<lambda>state. state OR OPTION_WILL)"

definition request_wont :: "options \<Rightarrow> endpoint \<Rightarrow> byte \<Rightarrow> options" where
  "request_wont = upd_state (\<lambda>state. state AND NOT OPTION_WANT_WILL)"

definition response_wont :: "options \<Rightarrow> endpoint \<Rightarrow> byte \<Rightarrow> options" where
  "response_wont = upd_state (\<lambda>state. state AND NOT (OPTION_DO OR OPTION_WANT_DO))"

definition request_dont :: "options \<Rightarrow> endpoint \<Rightarrow> byte \<Rightarrow> options" where
  "request_dont = upd_state (\<lambda>state. state AND NOT OPTION_WANT_DO)"

definition response_dont :: "options \<Rightarrow> endpoint \<Rightarrow> byte \<Rightarrow> options" where
  "response_dont = upd_state (\<lambda>state. state AND NOT (OPTION_WILL OR OPTION_WANT_WILL))"

text \<open>An unknown command runs into \<^verbatim>\<open>g_assert_not_reached\<close>: no result.\<close>

definition telnet_option_command_received :: "options \<Rightarrow> endpoint \<Rightarrow> byte \<Rightarrow> byte \<Rightarrow> options option" where
  "telnet_option_command_received opts ep command option =
     (if command = TELNET_CMD_WILL then Some (response_will opts ep option)
      else if command = TELNET_CMD_WONT then Some (response_wont opts ep option)
      else if command = TELNET_CMD_DO then Some (response_do opts ep option)
      else if command = TELNET_CMD_DONT then Some (response_dont opts ep option)
      else None)"

definition telnet_option_command_sent :: "options \<Rightarrow> endpoint \<Rightarrow> byte \<Rightarrow> byte \<Rightarrow> options option" where
  "telnet_option_command_sent opts ep command option =
     (if command = TELNET_CMD_WILL then Some (request_will opts ep option)
      else if command = TELNET_CMD_WONT then Some (request_wont opts ep option)
      else if command = TELNET_CMD_DO then Some (request_do opts ep option)
      else if command = TELNET_CMD_DONT then Some (request_dont opts ep option)
      else None)"

section \<open>The abstract view\<close>

text \<open>What the four bits say of one option on one connection.\<close>

record optview =
  ov_do :: bool \<comment> \<open>the peer uses the option\<close>
  ov_will :: bool \<comment> \<open>we use the option\<close>
  ov_want_do :: bool \<comment> \<open>we asked the peer to use it\<close>
  ov_want_will :: bool \<comment> \<open>we asked to use it\<close>

definition optview :: "TelnetOptionState \<Rightarrow> optview" where
  "optview state = \<lparr>ov_do = bit state 0, ov_will = bit state 1,
     ov_want_do = bit state 2, ov_want_will = bit state 3\<rparr>"

definition received_spec :: "byte \<Rightarrow> optview \<Rightarrow> optview" where
  "received_spec command v =
     (if command = TELNET_CMD_WILL then v\<lparr>ov_do := True\<rparr>
      else if command = TELNET_CMD_WONT then v\<lparr>ov_do := False, ov_want_do := False\<rparr>
      else if command = TELNET_CMD_DO then v\<lparr>ov_will := True\<rparr>
      else v\<lparr>ov_will := False, ov_want_will := False\<rparr>)"

definition sent_spec :: "byte \<Rightarrow> optview \<Rightarrow> optview" where
  "sent_spec command v =
     (if command = TELNET_CMD_WILL then v\<lparr>ov_want_will := True\<rparr>
      else if command = TELNET_CMD_WONT then v\<lparr>ov_want_will := False\<rparr>
      else if command = TELNET_CMD_DO then v\<lparr>ov_want_do := True\<rparr>
      else v\<lparr>ov_want_do := False\<rparr>)"

definition is_opneg :: "byte \<Rightarrow> bool" where
  "is_opneg command \<longleftrightarrow> command \<in> {TELNET_CMD_WILL, TELNET_CMD_WONT, TELNET_CMD_DO, TELNET_CMD_DONT}"

lemmas request_response_defs =
  request_will_def response_will_def request_do_def response_do_def
  request_wont_def response_wont_def request_dont_def response_dont_def

section \<open>Lemmas\<close>

lemma and_bit_nonzero:
  "state AND OPTION_DO \<noteq> 0 \<longleftrightarrow> bit state 0"
  "state AND OPTION_WILL \<noteq> 0 \<longleftrightarrow> bit state 1"
  "state AND OPTION_WANT_DO \<noteq> 0 \<longleftrightarrow> bit state 2"
  "state AND OPTION_WANT_WILL \<noteq> 0 \<longleftrightarrow> bit state 3"
  for state :: byte
  using and_exp_eq_0_iff_not_bit [of state 0] and_exp_eq_0_iff_not_bit [of state 1]
    and_exp_eq_0_iff_not_bit [of state 2] and_exp_eq_0_iff_not_bit [of state 3]
  by simp_all

lemmas option_test_defs =
  telnet_option_do_def telnet_option_will_def telnet_option_do_in_progress_def
  telnet_option_will_in_progress_def telnet_option_state_def do_in_progress_def will_in_progress_def
  state_do_def state_will_def

lemma option_tests:
  "telnet_option_do opts ep option \<longleftrightarrow> bit (opts option ep) 0 \<and> bit (opts option ep) 2"
  "telnet_option_will opts ep option \<longleftrightarrow> bit (opts option ep) 1 \<and> bit (opts option ep) 3"
  "telnet_option_do_in_progress opts ep option \<longleftrightarrow> bit (opts option ep) 0 \<noteq> bit (opts option ep) 2"
  "telnet_option_will_in_progress opts ep option \<longleftrightarrow> bit (opts option ep) 1 \<noteq> bit (opts option ep) 3"
  unfolding option_test_defs and_bit_nonzero by (auto simp: Let_def)



lemma upd_state_apply [simp]:
  "upd_state f opts ep option option' ep' =
     (if option' = option \<and> ep' = ep then f (opts option ep) else opts option' ep')"
  by (auto simp: upd_state_def)

lemma received_Some: "telnet_option_command_received opts ep command option = Some opts' \<Longrightarrow> is_opneg command"
  by (auto simp: telnet_option_command_received_def is_opneg_def split: if_splits)

lemma sent_Some: "telnet_option_command_sent opts ep command option = Some opts' \<Longrightarrow> is_opneg command"
  by (auto simp: telnet_option_command_sent_def is_opneg_def split: if_splits)

lemma is_opneg_defined:
  assumes "is_opneg command"
  shows "\<exists>opts'. telnet_option_command_received opts ep command option = Some opts'"
    and "\<exists>opts'. telnet_option_command_sent opts ep command option = Some opts'"
  using assms
  by (auto simp: telnet_option_command_received_def telnet_option_command_sent_def is_opneg_def)

lemma received_other:
  "telnet_option_command_received opts ep command option = Some opts' \<Longrightarrow>
   option' \<noteq> option \<or> ep' \<noteq> ep \<Longrightarrow> opts' option' ep' = opts option' ep'"
  by (auto simp: telnet_option_command_received_def request_response_defs split: if_splits)

lemma sent_other:
  "telnet_option_command_sent opts ep command option = Some opts' \<Longrightarrow>
   option' \<noteq> option \<or> ep' \<noteq> ep \<Longrightarrow> opts' option' ep' = opts option' ep'"
  by (auto simp: telnet_option_command_sent_def request_response_defs split: if_splits)

text \<open>Only the low four bits of an entry are ever set.\<close>

definition options_ok :: "options \<Rightarrow> bool" where
  "options_ok opts \<longleftrightarrow> (\<forall>option ep. opts option ep AND NOT 15 = 0)"

lemma low_bits:
  "(a OR b) AND NOT 15 = 0 \<longleftrightarrow> a AND NOT 15 = 0 \<and> b AND NOT 15 = 0"
  "a AND NOT 15 = 0 \<Longrightarrow> (a AND c) AND NOT 15 = 0"
  for a b c :: byte
  by (auto simp: bit_eq_iff bit_simps)

section \<open>The contract of a negotiated option\<close>

text \<open>
  One direction of one option: \<open>active\<close> when both sides agreed on its use, \<open>pending\<close> while our
  wish and the peer's answer differ. Asking and being granted activates it, a refusal always
  ends the negotiation with the option off, and an unasked grant alone never activates it.
\<close>

locale negotiated =
  fixes active :: "'s \<Rightarrow> bool"
    and pending :: "'s \<Rightarrow> bool"
    and wanted :: "'s \<Rightarrow> bool"
    and ask :: "'s \<Rightarrow> 's"
    and withdraw :: "'s \<Rightarrow> 's"
    and granted :: "'s \<Rightarrow> 's"
    and refused :: "'s \<Rightarrow> 's"
  assumes active_settled: "active s \<Longrightarrow> \<not> pending s \<and> wanted s"
    and wanted_ask: "wanted (ask s)"
    and wanted_withdraw: "\<not> wanted (withdraw s)"
    and wanted_granted: "wanted (granted s) \<longleftrightarrow> wanted s"
    and active_granted: "active (granted s) \<longleftrightarrow> wanted s"
    and refused_off: "\<not> active (refused s) \<and> \<not> pending (refused s) \<and> \<not> wanted (refused s)"
    and ask_active: "active (ask s) \<longleftrightarrow> \<not> pending (ask s)"
begin

lemma ask_granted: "active (granted (ask s)) \<and> \<not> pending (granted (ask s))"
  using active_granted [of "ask s"] wanted_ask active_settled by blast

lemma unasked_grant: "\<not> wanted s \<Longrightarrow> \<not> active (granted s)"
  by (simp add: active_granted)

lemma withdraw_inactive: "\<not> active (withdraw s)"
  using active_settled wanted_withdraw by blast

lemma refuse_then_grant: "\<not> active (granted (refused s))"
  using refused_off by (simp add: active_granted)

lemma answer_settles: "\<not> pending (granted (ask s)) \<and> \<not> pending (refused (ask s))"
  using ask_granted refused_off by blast

end

text \<open>The option the peer performs (our DO, the peer's WILL) and the one we perform (our WILL, the peer's DO).\<close>

interpretation peer: negotiated
  "\<lambda>opts. telnet_option_do opts ep option" "\<lambda>opts. telnet_option_do_in_progress opts ep option"
  "\<lambda>opts. ov_want_do (optview (opts option ep))"
  "\<lambda>opts. request_do opts ep option" "\<lambda>opts. request_dont opts ep option"
  "\<lambda>opts. response_will opts ep option" "\<lambda>opts. response_wont opts ep option"
  for ep :: endpoint and option :: byte
  by unfold_locales (auto simp: option_tests optview_def request_response_defs bit_simps)

interpretation ours: negotiated
  "\<lambda>opts. telnet_option_will opts ep option" "\<lambda>opts. telnet_option_will_in_progress opts ep option"
  "\<lambda>opts. ov_want_will (optview (opts option ep))"
  "\<lambda>opts. request_will opts ep option" "\<lambda>opts. request_wont opts ep option"
  "\<lambda>opts. response_do opts ep option" "\<lambda>opts. response_dont opts ep option"
  for ep :: endpoint and option :: byte
  by unfold_locales (auto simp: option_tests optview_def request_response_defs bit_simps)

text \<open>A run of received commands never creates a wish of ours.\<close>

fun receive_all :: "options \<Rightarrow> endpoint \<Rightarrow> (byte \<times> byte) list \<Rightarrow> options option" where
  "receive_all opts ep [] = Some opts"
| "receive_all opts ep ((command, option) # rest) =
     (case telnet_option_command_received opts ep command option of
        None \<Rightarrow> None | Some opts' \<Rightarrow> receive_all opts' ep rest)"

lemma receive_all_wants:
  assumes "receive_all opts ep cmds = Some opts'"
  shows "(ov_want_do (optview (opts' option ep)) \<longrightarrow> ov_want_do (optview (opts option ep))) \<and>
    (ov_want_will (optview (opts' option ep)) \<longrightarrow> ov_want_will (optview (opts option ep)))"
  using assms
proof (induction cmds arbitrary: opts)
  case (Cons c cmds)
  obtain command opt where c: "c = (command, opt)" by fastforce
  then obtain opts1 where 1: "telnet_option_command_received opts ep command opt = Some opts1"
    and 2: "receive_all opts1 ep cmds = Some opts'"
    using Cons.prems by (auto split: option.splits)
  have "(ov_want_do (optview (opts1 option ep)) \<longrightarrow> ov_want_do (optview (opts option ep))) \<and>
    (ov_want_will (optview (opts1 option ep)) \<longrightarrow> ov_want_will (optview (opts option ep)))"
    using 1 by (auto simp: telnet_option_command_received_def request_response_defs optview_def bit_simps
        split: if_splits)
  with Cons.IH [OF 2] show ?case by blast
qed simp

section \<open>Properties\<close>

text \<open>C29: The bit operations on the negotiation table implement the abstract protocol view: a
  received and a sent command change exactly the entry of their option and endpoint, and that
  entry as the specification says.\<close>

theorem option_state_refines:
  assumes "telnet_option_command_sent opts ep sent option = Some opts1"
    and "telnet_option_command_received opts1 ep received option = Some opts2"
  shows "optview (opts1 option ep) = sent_spec sent (optview (opts option ep)) \<and>
    optview (opts2 option ep) = received_spec received (optview (opts1 option ep)) \<and>
    (\<forall>option' ep'. option' \<noteq> option \<or> ep' \<noteq> ep \<longrightarrow> opts2 option' ep' = opts option' ep')"
proof (intro conjI)
  show "optview (opts1 option ep) = sent_spec sent (optview (opts option ep))"
    using assms(1)
    by (auto simp: telnet_option_command_sent_def sent_spec_def request_response_defs optview_def bit_simps
        split: if_splits)
  show "optview (opts2 option ep) = received_spec received (optview (opts1 option ep))"
    using assms(2)
    by (auto simp: telnet_option_command_received_def received_spec_def request_response_defs optview_def bit_simps
        split: if_splits)
qed (use assms in \<open>simp add: received_other sent_other\<close>)

theorem option_state_refines_witness:
  "\<exists>opts1 opts2.
     telnet_option_command_sent (\<lambda>_ _. 0) EP_CLIENT TELNET_CMD_DO 31 = Some opts1 \<and>
     telnet_option_command_received opts1 EP_CLIENT TELNET_CMD_WILL 31 = Some opts2 \<and>
     optview (opts2 31 EP_CLIENT) = received_spec TELNET_CMD_WILL (optview (opts1 31 EP_CLIENT))"
proof -
  obtain opts1 where 1: "telnet_option_command_sent (\<lambda>_ _. 0) EP_CLIENT TELNET_CMD_DO 31 = Some opts1"
    using is_opneg_defined(2) [of TELNET_CMD_DO "\<lambda>_ _. 0" EP_CLIENT 31] by (auto simp: is_opneg_def)
  obtain opts2 where 2: "telnet_option_command_received opts1 EP_CLIENT TELNET_CMD_WILL 31 = Some opts2"
    using is_opneg_defined(1) [of TELNET_CMD_WILL opts1 EP_CLIENT 31] by (auto simp: is_opneg_def)
  show ?thesis using 1 2 option_state_refines [OF 1 2] by blast
qed

text \<open>C30: A peer cannot switch an option on by itself: after any sequence of commands received
  from it, an option we did not ask for is still not in use, in either direction.\<close>

theorem option_peer_cannot_force:
  assumes "\<not> ov_want_do (optview (opts option ep))" and "\<not> ov_want_will (optview (opts option ep))"
    and "receive_all opts ep cmds = Some opts'"
  shows "\<not> telnet_option_do opts' ep option \<and> \<not> telnet_option_will opts' ep option"
  using receive_all_wants [OF assms(3), of option] assms(1,2)
    peer.active_settled [of opts' ep option] ours.active_settled [of opts' ep option] by blast

theorem option_peer_cannot_force_witness:
  "\<exists>opts'. receive_all (\<lambda>_ _. 0) EP_CLIENT [(TELNET_CMD_WILL, 24), (TELNET_CMD_DO, 24)] = Some opts' \<and>
     \<not> telnet_option_do opts' EP_CLIENT 24 \<and> \<not> telnet_option_will opts' EP_CLIENT 24"
proof -
  obtain opts' where 1:
      "receive_all (\<lambda>_ _. 0) EP_CLIENT [(TELNET_CMD_WILL, 24), (TELNET_CMD_DO, 24)] = Some opts'"
    by (simp add: telnet_option_command_received_def)
  show ?thesis
    using 1 option_peer_cannot_force [OF _ _ 1, of 24] by (simp add: optview_def)
qed

end
