(* ===== verification/Telnet_Protocol.thy ===== *)
theory Telnet_Protocol
  imports Telnet_Option
begin

text \<open>
  The byte-level Telnet decoder and encoder of \<^verbatim>\<open>modules/telnet/telnetprotocol.cc\<close>. The decoder
  is a state machine over single bytes that collects data and suboption bytes in two bounded
  buffers and calls back the proxy; the callbacks act on a user state \<open>'u\<close> and answer whether
  to go on. The session id, used for logging only, is left out.
\<close>

section \<open>Data\<close>

datatype TelnetProtocolState =
  PROTO_STATE_DATA | PROTO_STATE_ESCAPED | PROTO_STATE_OPNEG | PROTO_STATE_SUBNEG
| PROTO_STATE_SUBNEG_ESCAPED | PROTO_STATE_QUIT

definition TELNET_BUFFER_SIZE :: nat where "TELNET_BUFFER_SIZE = 16384"

record TelnetProtocol =
  tp_state :: TelnetProtocolState
  tp_data :: bytes
  tp_subneg :: bytes
  tp_command :: byte

record 'u telnet_callbacks =
  data_received :: "(bytes \<Rightarrow> 'u \<Rightarrow> bool \<times> 'u) option"
  subneg_received :: "(bytes \<Rightarrow> 'u \<Rightarrow> bool \<times> 'u) option"
  command_received :: "(byte \<Rightarrow> 'u \<Rightarrow> bool \<times> 'u) option"
  opneg_received :: "(byte \<Rightarrow> byte \<Rightarrow> 'u \<Rightarrow> bool \<times> 'u) option"

text \<open>The command byte of a fresh decoder is whatever the enclosing structure held: zero.\<close>

definition telnet_protocol_init :: TelnetProtocol where
  "telnet_protocol_init = \<lparr>tp_state = PROTO_STATE_DATA, tp_data = [], tp_subneg = [], tp_command = 0\<rparr>"

definition no_callbacks :: "'u telnet_callbacks" where
  "no_callbacks = \<lparr>data_received = None, subneg_received = None, command_received = None, opneg_received = None\<rparr>"

definition telnet_protocol_set_data_received ::
  "(bytes \<Rightarrow> 'u \<Rightarrow> bool \<times> 'u) \<Rightarrow> 'u telnet_callbacks \<Rightarrow> 'u telnet_callbacks" where
  "telnet_protocol_set_data_received f cb = cb\<lparr>data_received := Some f\<rparr>"

definition telnet_protocol_set_subneg_received ::
  "(bytes \<Rightarrow> 'u \<Rightarrow> bool \<times> 'u) \<Rightarrow> 'u telnet_callbacks \<Rightarrow> 'u telnet_callbacks" where
  "telnet_protocol_set_subneg_received f cb = cb\<lparr>subneg_received := Some f\<rparr>"

definition telnet_protocol_set_command_received ::
  "(byte \<Rightarrow> 'u \<Rightarrow> bool \<times> 'u) \<Rightarrow> 'u telnet_callbacks \<Rightarrow> 'u telnet_callbacks" where
  "telnet_protocol_set_command_received f cb = cb\<lparr>command_received := Some f\<rparr>"

definition telnet_protocol_set_opneg_received ::
  "(byte \<Rightarrow> byte \<Rightarrow> 'u \<Rightarrow> bool \<times> 'u) \<Rightarrow> 'u telnet_callbacks \<Rightarrow> 'u telnet_callbacks" where
  "telnet_protocol_set_opneg_received f cb = cb\<lparr>opneg_received := Some f\<rparr>"

section \<open>The decoder\<close>

definition change_state :: "TelnetProtocolState \<Rightarrow> TelnetProtocol \<Rightarrow> TelnetProtocol" where
  "change_state new_state p = p\<lparr>tp_state := new_state\<rparr>"

definition telnet_protocol_is_running :: "TelnetProtocol \<Rightarrow> bool" where
  "telnet_protocol_is_running p \<longleftrightarrow> tp_state p \<noteq> PROTO_STATE_QUIT"

definition call_data_received ::
  "'u telnet_callbacks \<Rightarrow> TelnetProtocol \<times> 'u \<Rightarrow> TelnetProtocol \<times> 'u" where
  "call_data_received cb = (\<lambda>(p, u).
     if \<not> telnet_protocol_is_running p then (p, u)
     else if tp_data p = [] then (p, u)
     else case data_received cb of
       None \<Rightarrow> (p\<lparr>tp_data := []\<rparr>, u)
     | Some f \<Rightarrow>
         (case f (tp_data p) u of (res, u') \<Rightarrow>
            ((if res then p else change_state PROTO_STATE_QUIT p)\<lparr>tp_data := []\<rparr>, u')))"

definition call_subneg_received ::
  "'u telnet_callbacks \<Rightarrow> TelnetProtocol \<times> 'u \<Rightarrow> TelnetProtocol \<times> 'u" where
  "call_subneg_received cb = (\<lambda>(p, u).
     if \<not> telnet_protocol_is_running p then (p, u)
     else if tp_subneg p = [] then (p, u)
     else case subneg_received cb of
       None \<Rightarrow> (p\<lparr>tp_subneg := []\<rparr>, u)
     | Some f \<Rightarrow>
         (case f (tp_subneg p) u of (res, u') \<Rightarrow>
            ((if res then p else change_state PROTO_STATE_QUIT p)\<lparr>tp_subneg := []\<rparr>, u')))"

definition call_opneg_received ::
  "'u telnet_callbacks \<Rightarrow> byte \<Rightarrow> TelnetProtocol \<times> 'u \<Rightarrow> TelnetProtocol \<times> 'u" where
  "call_opneg_received cb option = (\<lambda>(p, u).
     if \<not> telnet_protocol_is_running p then (p, u)
     else case opneg_received cb of
       None \<Rightarrow> (p, u)
     | Some f \<Rightarrow>
         (case f (tp_command p) option u of (res, u') \<Rightarrow>
            (if res then p else change_state PROTO_STATE_QUIT p, u')))"

definition call_command_received ::
  "'u telnet_callbacks \<Rightarrow> TelnetProtocol \<times> 'u \<Rightarrow> TelnetProtocol \<times> 'u" where
  "call_command_received cb = (\<lambda>(p, u).
     if \<not> telnet_protocol_is_running p then (p, u)
     else case command_received cb of
       None \<Rightarrow> (p, u)
     | Some f \<Rightarrow>
         (case f (tp_command p) u of (res, u') \<Rightarrow>
            (if res then p else change_state PROTO_STATE_QUIT p, u')))"

text \<open>Appending stops the decoder on a buffer overrun; one version per buffer.\<close>

definition append_data :: "byte \<Rightarrow> TelnetProtocol \<Rightarrow> TelnetProtocol" where
  "append_data byte p =
     (if length (tp_data p) \<ge> TELNET_BUFFER_SIZE then change_state PROTO_STATE_QUIT p
      else p\<lparr>tp_data := tp_data p @ [byte]\<rparr>)"

definition append_subneg :: "byte \<Rightarrow> TelnetProtocol \<Rightarrow> TelnetProtocol" where
  "append_subneg byte p =
     (if length (tp_subneg p) \<ge> TELNET_BUFFER_SIZE then change_state PROTO_STATE_QUIT p
      else p\<lparr>tp_subneg := tp_subneg p @ [byte]\<rparr>)"

definition handle_state_data :: "byte \<Rightarrow> TelnetProtocol \<times> 'u \<Rightarrow> TelnetProtocol \<times> 'u" where
  "handle_state_data byte = (\<lambda>(p, u).
     (if byte = TELNET_IAC then change_state PROTO_STATE_ESCAPED p else append_data byte p, u))"

definition handle_state_escaped ::
  "'u telnet_callbacks \<Rightarrow> byte \<Rightarrow> TelnetProtocol \<times> 'u \<Rightarrow> TelnetProtocol \<times> 'u" where
  "handle_state_escaped cb byte = (\<lambda>(p0, u).
     let p = p0\<lparr>tp_command := byte\<rparr> in
     if byte = TELNET_IAC then
       call_data_received cb (append_data byte (change_state PROTO_STATE_DATA p), u)
     else if byte = TELNET_CMD_SB then
       ((change_state PROTO_STATE_SUBNEG p)\<lparr>tp_subneg := []\<rparr>, u)
     else if byte \<in> {TELNET_CMD_WILL, TELNET_CMD_WONT, TELNET_CMD_DO, TELNET_CMD_DONT} then
       (change_state PROTO_STATE_OPNEG p, u)
     else
       call_command_received cb (call_data_received cb (change_state PROTO_STATE_DATA p, u)))"

definition handle_state_opneg ::
  "'u telnet_callbacks \<Rightarrow> byte \<Rightarrow> TelnetProtocol \<times> 'u \<Rightarrow> TelnetProtocol \<times> 'u" where
  "handle_state_opneg cb option = (\<lambda>(p, u).
     call_opneg_received cb option (call_data_received cb (change_state PROTO_STATE_DATA p, u)))"

definition handle_state_subneg :: "byte \<Rightarrow> TelnetProtocol \<times> 'u \<Rightarrow> TelnetProtocol \<times> 'u" where
  "handle_state_subneg byte = (\<lambda>(p, u).
     (if byte = TELNET_IAC then change_state PROTO_STATE_SUBNEG_ESCAPED p else append_subneg byte p, u))"

definition handle_state_subneg_escaped ::
  "'u telnet_callbacks \<Rightarrow> byte \<Rightarrow> TelnetProtocol \<times> 'u \<Rightarrow> TelnetProtocol \<times> 'u" where
  "handle_state_subneg_escaped cb byte = (\<lambda>(p, u).
     if byte = TELNET_CMD_SE then
       call_subneg_received cb (call_data_received cb (change_state PROTO_STATE_DATA p, u))
     else (append_subneg byte (change_state PROTO_STATE_SUBNEG p), u))"

definition handle_byte ::
  "'u telnet_callbacks \<Rightarrow> byte \<Rightarrow> TelnetProtocol \<times> 'u \<Rightarrow> TelnetProtocol \<times> 'u" where
  "handle_byte cb byte pu =
     (case tp_state (fst pu) of
        PROTO_STATE_DATA \<Rightarrow> handle_state_data byte pu
      | PROTO_STATE_ESCAPED \<Rightarrow> handle_state_escaped cb byte pu
      | PROTO_STATE_OPNEG \<Rightarrow> handle_state_opneg cb byte pu
      | PROTO_STATE_SUBNEG \<Rightarrow> handle_state_subneg byte pu
      | PROTO_STATE_SUBNEG_ESCAPED \<Rightarrow> handle_state_subneg_escaped cb byte pu
      | PROTO_STATE_QUIT \<Rightarrow> pu)"

text \<open>The loop runs while the decoder is running and bytes are left.\<close>

fun process_loop ::
  "'u telnet_callbacks \<Rightarrow> bytes \<Rightarrow> TelnetProtocol \<times> 'u \<Rightarrow> TelnetProtocol \<times> 'u" where
  "process_loop cb [] pu = pu"
| "process_loop cb (b # bs) pu =
     (if telnet_protocol_is_running (fst pu) then process_loop cb bs (handle_byte cb b pu) else pu)"

definition telnet_protocol_process_data ::
  "'u telnet_callbacks \<Rightarrow> bytes \<Rightarrow> TelnetProtocol \<times> 'u \<Rightarrow> TelnetProtocol \<times> 'u" where
  "telnet_protocol_process_data cb data pu = call_data_received cb (process_loop cb data pu)"

section \<open>The encoder\<close>

text \<open>Every IAC byte is doubled in place.\<close>

fun telnet_protocol_escape_data :: "bytes \<Rightarrow> bytes" where
  "telnet_protocol_escape_data [] = []"
| "telnet_protocol_escape_data (byte # data) =
     (if byte = TELNET_IAC then byte # TELNET_IAC # telnet_protocol_escape_data data
      else byte # telnet_protocol_escape_data data)"

section \<open>What the decoder reports\<close>

text \<open>The calls a chunk of bytes causes when every callback agrees to go on.\<close>

datatype tp_event = Data bytes | Subneg bytes | Command byte | Opneg byte byte

definition recorder :: "tp_event list telnet_callbacks" where
  "recorder = \<lparr>data_received = Some (\<lambda>d es. (True, es @ [Data d])),
     subneg_received = Some (\<lambda>d es. (True, es @ [Subneg d])),
     command_received = Some (\<lambda>c es. (True, es @ [Command c])),
     opneg_received = Some (\<lambda>c opt es. (True, es @ [Opneg c opt]))\<rparr>"

definition tp_events :: "TelnetProtocol \<Rightarrow> bytes \<Rightarrow> tp_event list" where
  "tp_events p data = snd (telnet_protocol_process_data recorder data (p, []))"

definition tp_after :: "TelnetProtocol \<Rightarrow> bytes \<Rightarrow> TelnetProtocol" where
  "tp_after p data = fst (telnet_protocol_process_data recorder data (p, []))"

text \<open>Handing one event to the callbacks, and a sequence of them until one refuses.\<close>

fun call_back :: "'u telnet_callbacks \<Rightarrow> tp_event \<Rightarrow> 'u \<Rightarrow> bool \<times> 'u" where
  "call_back cb (Data d) u = (case data_received cb of None \<Rightarrow> (True, u) | Some f \<Rightarrow> f d u)"
| "call_back cb (Subneg d) u = (case subneg_received cb of None \<Rightarrow> (True, u) | Some f \<Rightarrow> f d u)"
| "call_back cb (Command c) u = (case command_received cb of None \<Rightarrow> (True, u) | Some f \<Rightarrow> f c u)"
| "call_back cb (Opneg c opt) u = (case opneg_received cb of None \<Rightarrow> (True, u) | Some f \<Rightarrow> f c opt u)"

fun deliver :: "'u telnet_callbacks \<Rightarrow> tp_event list \<Rightarrow> 'u \<Rightarrow> bool \<times> 'u" where
  "deliver cb [] u = (True, u)"
| "deliver cb (e # es) u =
     (case call_back cb e u of (True, u') \<Rightarrow> deliver cb es u' | (False, u') \<Rightarrow> (False, u'))"

lemmas tp_defs =
  change_state_def telnet_protocol_is_running_def call_data_received_def call_subneg_received_def
  call_opneg_received_def call_command_received_def append_data_def append_subneg_def
  handle_state_data_def handle_state_escaped_def handle_state_opneg_def handle_state_subneg_def
  handle_state_subneg_escaped_def handle_byte_def

section \<open>Lemmas\<close>

lemma deliver_append:
  "deliver cb (es @ fs) u = (case deliver cb es u of (True, u') \<Rightarrow> deliver cb fs u' | (False, u') \<Rightarrow> (False, u'))"
  by (induction es arbitrary: u) (auto split: prod.splits bool.splits)

subsection \<open>The recorder only appends\<close>

lemma recorder_calls:
  "call_data_received recorder (p, es) =
     (if telnet_protocol_is_running p \<and> tp_data p \<noteq> [] then (p\<lparr>tp_data := []\<rparr>, es @ [Data (tp_data p)]) else (p, es))"
  "call_subneg_received recorder (p, es) =
     (if telnet_protocol_is_running p \<and> tp_subneg p \<noteq> [] then (p\<lparr>tp_subneg := []\<rparr>, es @ [Subneg (tp_subneg p)]) else (p, es))"
  "call_opneg_received recorder opt (p, es) =
     (if telnet_protocol_is_running p then (p, es @ [Opneg (tp_command p) opt]) else (p, es))"
  "call_command_received recorder (p, es) =
     (if telnet_protocol_is_running p then (p, es @ [Command (tp_command p)]) else (p, es))"
  by (simp_all add: recorder_def call_data_received_def call_subneg_received_def
      call_opneg_received_def call_command_received_def)

lemma handle_byte_recorder:
  "handle_byte recorder b (p, es) = (fst (handle_byte recorder b (p, [])), es @ snd (handle_byte recorder b (p, [])))"
  by (simp add: handle_byte_def handle_state_data_def handle_state_escaped_def handle_state_opneg_def
      handle_state_subneg_def handle_state_subneg_escaped_def recorder_calls Let_def
      split: TelnetProtocolState.split)

lemma process_loop_recorder:
  "process_loop recorder bs (p, es) =
     (fst (process_loop recorder bs (p, [])), es @ snd (process_loop recorder bs (p, [])))"
proof (induction bs arbitrary: p es)
  case (Cons b bs)
  obtain q fs where h: "handle_byte recorder b (p, []) = (q, fs)" by fastforce
  have "process_loop recorder bs (q, es @ fs) =
      (fst (process_loop recorder bs (q, [])), es @ fs @ snd (process_loop recorder bs (q, [])))"
    by (subst Cons.IH) simp
  moreover have "process_loop recorder bs (q, fs) =
      (fst (process_loop recorder bs (q, [])), fs @ snd (process_loop recorder bs (q, [])))"
    by (rule Cons.IH)
  ultimately show ?case
    using h by (simp add: handle_byte_recorder [of b p es])
qed simp

lemma process_data_recorder:
  "telnet_protocol_process_data recorder bs (p, es) = (tp_after p bs, es @ tp_events p bs)"
  unfolding tp_after_def tp_events_def telnet_protocol_process_data_def
  by (subst process_loop_recorder)
    (cases "process_loop recorder bs (p, [])"; simp add: recorder_calls)

subsection \<open>Arbitrary callbacks see the recorded events\<close>

text \<open>
  The decoder with the callbacks \<open>cb\<close> and the one with the recorder: as long as every
  delivered event was accepted the two agree; after the first refusal the former has quit.
\<close>

lemma calls_by_event:
  "call_data_received cb (p, u) =
     (if telnet_protocol_is_running p \<and> tp_data p \<noteq> [] then
        (case call_back cb (Data (tp_data p)) u of (res, u') \<Rightarrow>
           ((if res then p else change_state PROTO_STATE_QUIT p)\<lparr>tp_data := []\<rparr>, u'))
      else (p, u))"
  "call_subneg_received cb (p, u) =
     (if telnet_protocol_is_running p \<and> tp_subneg p \<noteq> [] then
        (case call_back cb (Subneg (tp_subneg p)) u of (res, u') \<Rightarrow>
           ((if res then p else change_state PROTO_STATE_QUIT p)\<lparr>tp_subneg := []\<rparr>, u'))
      else (p, u))"
  "call_opneg_received cb opt (p, u) =
     (if telnet_protocol_is_running p then
        (case call_back cb (Opneg (tp_command p) opt) u of (res, u') \<Rightarrow>
           (if res then p else change_state PROTO_STATE_QUIT p, u'))
      else (p, u))"
  "call_command_received cb (p, u) =
     (if telnet_protocol_is_running p then
        (case call_back cb (Command (tp_command p)) u of (res, u') \<Rightarrow>
           (if res then p else change_state PROTO_STATE_QUIT p, u'))
      else (p, u))"
  by (auto simp: call_data_received_def call_subneg_received_def call_opneg_received_def
      call_command_received_def split: option.splits)

lemma call_back_recorder [simp]: "call_back recorder e es = (True, es @ [e])"
  by (cases e) (simp_all add: recorder_def)

declare call_back.simps [simp del]

definition tracks :: "'u telnet_callbacks \<Rightarrow> 'u \<Rightarrow> TelnetProtocol \<times> 'u \<Rightarrow> TelnetProtocol \<times> tp_event list \<Rightarrow> bool" where
  "tracks cb u0 pu qes \<longleftrightarrow>
     (case deliver cb (snd qes) u0 of
        (True, u') \<Rightarrow> pu = (fst qes, u')
      | (False, u') \<Rightarrow> \<not> telnet_protocol_is_running (fst pu) \<and> snd pu = u')"

lemma tracks_calls:
  assumes "tracks cb u0 (p, u) (q, es)"
  shows "tracks cb u0 (call_data_received cb (p, u)) (call_data_received recorder (q, es))"
    and "tracks cb u0 (call_subneg_received cb (p, u)) (call_subneg_received recorder (q, es))"
    and "tracks cb u0 (call_opneg_received cb opt (p, u)) (call_opneg_received recorder opt (q, es))"
    and "tracks cb u0 (call_command_received cb (p, u)) (call_command_received recorder (q, es))"
  using assms
  by (auto simp: tracks_def calls_by_event deliver_append telnet_protocol_is_running_def
      change_state_def split: prod.splits bool.splits)

lemma tracks_call_pairs:
  assumes "tracks cb u0 pu qes"
  shows "tracks cb u0 (call_data_received cb pu) (call_data_received recorder qes)"
    and "tracks cb u0 (call_subneg_received cb pu) (call_subneg_received recorder qes)"
    and "tracks cb u0 (call_opneg_received cb opt pu) (call_opneg_received recorder opt qes)"
    and "tracks cb u0 (call_command_received cb pu) (call_command_received recorder qes)"
  using tracks_calls [of cb u0 "fst pu" "snd pu" "fst qes" "snd qes"] assms by simp_all

lemma tracks_same: "deliver cb es u0 = (True, u) \<Longrightarrow> tracks cb u0 (p, u) (p, es)"
  by (simp add: tracks_def)

lemma tracks_handle_byte:
  assumes "deliver cb es u0 = (True, u)"
  shows "tracks cb u0 (handle_byte cb b (p, u)) (handle_byte recorder b (p, es))"
  unfolding handle_byte_def handle_state_data_def handle_state_escaped_def handle_state_opneg_def
    handle_state_subneg_def handle_state_subneg_escaped_def Let_def
  using tracks_same [OF assms]
  by (cases "tp_state p") (auto intro!: tracks_call_pairs)

lemma tracks_dead:
  assumes "deliver cb es u0 = (False, u')"
  shows "tracks cb u0 (p, u) (q, es @ fs) \<longleftrightarrow> \<not> telnet_protocol_is_running p \<and> u = u'"
  using assms by (simp add: tracks_def deliver_append)

lemma tracks_process_loop:
  "tracks cb u0 (p, u) (q, es) \<Longrightarrow>
   tracks cb u0 (process_loop cb bs (p, u)) (process_loop recorder bs (q, es))"
proof (induction bs arbitrary: p u q es)
  case (Cons b bs)
  show ?case
  proof (cases "deliver cb es u0")
    case (Pair ok u')
    show ?thesis
    proof (cases ok)
      case True
      with Pair Cons.prems have same: "p = q" "u = u'" by (auto simp: tracks_def)
      have "tracks cb u0 (handle_byte cb b (p, u)) (handle_byte recorder b (p, es))"
        using Pair True same by (intro tracks_handle_byte) simp
      then have "tracks cb u0 (process_loop cb bs (handle_byte cb b (p, u)))
          (process_loop recorder bs (handle_byte recorder b (p, es)))"
        using Cons.IH by (metis surjective_pairing)
      then show ?thesis using same Cons.prems by simp
    next
      case False
      then have dead: "deliver cb es u0 = (False, u')" using Pair by simp
      then have stop: "\<not> telnet_protocol_is_running p \<and> u = u'"
        using Cons.prems by (simp add: tracks_def)
      then show ?thesis
        using tracks_dead [OF dead] by (subst process_loop_recorder) simp
    qed
  qed
qed simp

subsection \<open>The decoder's view of a byte stream\<close>

text \<open>
  How data is cut into callbacks is not significant: \<open>flat\<close> spells an event list byte by byte,
  and the view of a decoder adds the data still in its buffer.
\<close>

fun flat1 :: "tp_event \<Rightarrow> tp_event list" where
  "flat1 (Data d) = map (\<lambda>b. Data [b]) d"
| "flat1 e = [e]"

definition flat :: "tp_event list \<Rightarrow> tp_event list" where
  "flat es = concat (map flat1 es)"

lemma flat_simps [simp]: "flat [] = []" "flat (e # es) = flat1 e @ flat es" "flat (es @ fs) = flat es @ flat fs"
  by (simp_all add: flat_def)

definition view :: "TelnetProtocol \<times> tp_event list \<Rightarrow> TelnetProtocolState \<times> bytes \<times> byte \<times> tp_event list" where
  "view = (\<lambda>(p, es). (tp_state p, tp_subneg p, tp_command p, flat es @ flat1 (Data (tp_data p))))"

lemma view_call_data [simp]: "view (call_data_received recorder x) = view x"
  by (cases x) (simp add: view_def recorder_calls)

lemma view_handle_byte:
  assumes "view x = view y"
    and "length (tp_data (fst x)) < TELNET_BUFFER_SIZE" and "length (tp_data (fst y)) < TELNET_BUFFER_SIZE"
  shows "view (handle_byte recorder b x) = view (handle_byte recorder b y)"
  using assms
  by (cases x; cases y)
    (auto simp: view_def handle_byte_def handle_state_data_def handle_state_escaped_def
      handle_state_opneg_def handle_state_subneg_def handle_state_subneg_escaped_def recorder_calls
      append_data_def append_subneg_def change_state_def telnet_protocol_is_running_def Let_def
      split: TelnetProtocolState.split)

lemma length_call_data: "length (tp_data (fst (call_data_received recorder x))) \<le> length (tp_data (fst x))"
  by (cases x) (simp add: recorder_calls)

lemma length_handle_byte: "length (tp_data (fst (handle_byte recorder b x))) \<le> Suc (length (tp_data (fst x)))"
  by (cases x)
    (auto simp: handle_byte_def handle_state_data_def handle_state_escaped_def
      handle_state_opneg_def handle_state_subneg_def handle_state_subneg_escaped_def recorder_calls
      append_data_def append_subneg_def change_state_def Let_def
      split: TelnetProtocolState.split)

lemma length_process_loop:
  "length (tp_data (fst (process_loop recorder bs x))) \<le> length (tp_data (fst x)) + length bs"
proof (induction bs arbitrary: x)
  case (Cons b bs)
  show ?case using Cons [of "handle_byte recorder b x"] length_handle_byte [of b x] by simp
qed simp

lemma view_running: "view x = view y \<Longrightarrow> telnet_protocol_is_running (fst x) = telnet_protocol_is_running (fst y)"
  by (cases x; cases y) (simp add: view_def telnet_protocol_is_running_def)

lemma view_process_loop:
  assumes "view x = view y"
    and "length (tp_data (fst x)) + length bs \<le> TELNET_BUFFER_SIZE"
    and "length (tp_data (fst y)) + length bs \<le> TELNET_BUFFER_SIZE"
  shows "view (process_loop recorder bs x) = view (process_loop recorder bs y)"
  using assms
proof (induction bs arbitrary: x y)
  case (Cons b bs)
  have "view (handle_byte recorder b x) = view (handle_byte recorder b y)"
    using Cons.prems by (intro view_handle_byte) auto
  moreover have "length (tp_data (fst (handle_byte recorder b z))) + length bs \<le> TELNET_BUFFER_SIZE"
    if "length (tp_data (fst z)) + length (b # bs) \<le> TELNET_BUFFER_SIZE" for z
    using that length_handle_byte [of b z] by simp
  ultimately have "view (process_loop recorder bs (handle_byte recorder b x)) =
      view (process_loop recorder bs (handle_byte recorder b y))"
    using Cons.prems by (intro Cons.IH) auto
  then show ?case
    using Cons.prems(1) view_running [OF Cons.prems(1)] by simp
qed simp

lemma process_loop_append:
  "process_loop cb (xs @ ys) x = process_loop cb ys (process_loop cb xs x)"
proof (induction xs arbitrary: x)
  case Nil
  then show ?case by simp
next
  case (Cons b xs)
  have "\<not> telnet_protocol_is_running (fst x) \<Longrightarrow> process_loop cb ys x = x" by (cases ys) auto
  with Cons show ?case by simp
qed

lemma flushed:
  "telnet_protocol_is_running (fst (call_data_received recorder x)) \<Longrightarrow>
   tp_data (fst (call_data_received recorder x)) = []"
  by (cases x) (auto simp: recorder_calls)

lemma view_flushed:
  assumes "telnet_protocol_is_running (fst (call_data_received recorder x))"
  shows "view (call_data_received recorder x) =
    (let (p, es) = call_data_received recorder x in (tp_state p, tp_subneg p, tp_command p, flat es))"
  using flushed [OF assms] by (cases "call_data_received recorder x") (simp add: view_def)

subsection \<open>Bounds\<close>

definition tp_bounded :: "TelnetProtocol \<Rightarrow> bool" where
  "tp_bounded p \<longleftrightarrow> length (tp_data p) \<le> TELNET_BUFFER_SIZE \<and> length (tp_subneg p) \<le> TELNET_BUFFER_SIZE"

lemma calls_bounded:
  "tp_bounded (fst x) \<Longrightarrow> tp_bounded (fst (call_data_received cb x))"
  "tp_bounded (fst x) \<Longrightarrow> tp_bounded (fst (call_subneg_received cb x))"
  "tp_bounded (fst x) \<Longrightarrow> tp_bounded (fst (call_opneg_received cb opt x))"
  "tp_bounded (fst x) \<Longrightarrow> tp_bounded (fst (call_command_received cb x))"
  by (cases x; auto simp: calls_by_event tp_bounded_def change_state_def split: prod.splits)+

lemma tp_bounded_updates [simp]:
  "tp_bounded (change_state s p) = tp_bounded p"
  "tp_bounded (p\<lparr>tp_command := c\<rparr>) = tp_bounded p"
  "tp_bounded p \<Longrightarrow> tp_bounded (p\<lparr>tp_subneg := []\<rparr>)"
  "tp_bounded p \<Longrightarrow> tp_bounded (append_data b p)"
  "tp_bounded p \<Longrightarrow> tp_bounded (append_subneg b p)"
  by (simp_all add: tp_bounded_def change_state_def append_data_def append_subneg_def)

lemma handle_byte_bounded: "tp_bounded (fst x) \<Longrightarrow> tp_bounded (fst (handle_byte cb b x))"
  by (cases x)
    (auto simp: handle_byte_def handle_state_data_def handle_state_escaped_def
      handle_state_opneg_def handle_state_subneg_def handle_state_subneg_escaped_def Let_def
      split: TelnetProtocolState.split intro!: calls_bounded)

lemma process_loop_bounded: "tp_bounded (fst x) \<Longrightarrow> tp_bounded (fst (process_loop cb bs x))"
  by (induction cb bs x rule: process_loop.induct) (simp_all add: handle_byte_bounded)

subsection \<open>The contract of a client of the decoder\<close>

text \<open>A well-formed decoder is within its buffers and knows which negotiation it is reading.\<close>

definition tp_wf :: "TelnetProtocol \<Rightarrow> bool" where
  "tp_wf p \<longleftrightarrow> tp_bounded p \<and> (tp_state p = PROTO_STATE_OPNEG \<longrightarrow> is_opneg (tp_command p))"

text \<open>
  The callbacks keep an invariant of the user state; the one for negotiations may rely on being
  called with a negotiation command only. Then decoding keeps it, and keeps the decoder well-formed.
\<close>

locale decoder_client =
  fixes cb :: "'u telnet_callbacks" and J :: "'u \<Rightarrow> bool"
  assumes cb_data: "data_received cb = Some f1 \<Longrightarrow> J u \<Longrightarrow> J (snd (f1 d u))"
    and cb_subneg: "subneg_received cb = Some f2 \<Longrightarrow> J u \<Longrightarrow> J (snd (f2 d u))"
    and cb_command: "command_received cb = Some f3 \<Longrightarrow> J u \<Longrightarrow> J (snd (f3 c u))"
    and cb_opneg: "opneg_received cb = Some f4 \<Longrightarrow> is_opneg c \<Longrightarrow> J u \<Longrightarrow> J (snd (f4 c option u))"
begin

lemma calls_keep:
  "J (snd x) \<Longrightarrow> J (snd (call_data_received cb x))"
  "J (snd x) \<Longrightarrow> J (snd (call_subneg_received cb x))"
  "J (snd x) \<Longrightarrow> J (snd (call_command_received cb x))"
  "J (snd x) \<Longrightarrow> is_opneg (tp_command (fst x)) \<Longrightarrow> J (snd (call_opneg_received cb option x))"
  by (simp_all add: call_data_received_def call_subneg_received_def call_command_received_def
      call_opneg_received_def case_prod_unfold cb_data cb_subneg cb_command cb_opneg split: option.split)

lemma call_data_frame:
  "tp_command (fst (call_data_received cb x)) = tp_command (fst x)"
  "tp_state (fst (call_data_received cb x)) \<in> {tp_state (fst x), PROTO_STATE_QUIT}"
  by (auto simp: call_data_received_def change_state_def split: prod.splits option.splits)

lemma not_opneg:
  "tp_state (fst x) \<noteq> PROTO_STATE_OPNEG \<Longrightarrow> tp_state (fst (call_data_received cb x)) \<noteq> PROTO_STATE_OPNEG"
  "tp_state (fst x) \<noteq> PROTO_STATE_OPNEG \<Longrightarrow> tp_state (fst (call_subneg_received cb x)) \<noteq> PROTO_STATE_OPNEG"
  "tp_state (fst x) \<noteq> PROTO_STATE_OPNEG \<Longrightarrow> tp_state (fst (call_command_received cb x)) \<noteq> PROTO_STATE_OPNEG"
  "tp_state (fst x) \<noteq> PROTO_STATE_OPNEG \<Longrightarrow> tp_state (fst (call_opneg_received cb option x)) \<noteq> PROTO_STATE_OPNEG"
  "tp_state p \<noteq> PROTO_STATE_OPNEG \<Longrightarrow> tp_state (append_data b p) \<noteq> PROTO_STATE_OPNEG"
  "tp_state p \<noteq> PROTO_STATE_OPNEG \<Longrightarrow> tp_state (append_subneg b p) \<noteq> PROTO_STATE_OPNEG"
  by (simp_all add: call_data_received_def call_subneg_received_def call_command_received_def
      call_opneg_received_def append_data_def append_subneg_def change_state_def case_prod_unfold split: option.split)

lemma state_change_state [simp]: "tp_state (change_state st p) = st"
  by (simp add: change_state_def)

lemma handle_byte_state:
  "tp_state (fst (handle_byte cb b x)) = PROTO_STATE_OPNEG \<longrightarrow> is_opneg (tp_command (fst (handle_byte cb b x)))"
proof (cases "tp_state (fst x) = PROTO_STATE_ESCAPED")
  case True
  then show ?thesis
    by (cases "b \<in> {TELNET_CMD_WILL, TELNET_CMD_WONT, TELNET_CMD_DO, TELNET_CMD_DONT}")
      (auto simp: handle_byte_def handle_state_escaped_def Let_def case_prod_unfold is_opneg_def not_opneg
        change_state_def)
next
  case False
  then have "tp_state (fst (handle_byte cb b x)) \<noteq> PROTO_STATE_OPNEG"
    by (cases "tp_state (fst x)")
      (simp_all add: handle_byte_def handle_state_data_def handle_state_opneg_def handle_state_subneg_def
        handle_state_subneg_escaped_def case_prod_unfold not_opneg)
  then show ?thesis by simp
qed

lemma handle_byte_keeps:
  assumes "tp_wf (fst x)" and "J (snd x)"
  shows "J (snd (handle_byte cb b x))"
proof -
  obtain p u where x: "x = (p, u)" by fastforce
  have opneg: "J (snd (handle_state_opneg cb b x))" if "tp_state p = PROTO_STATE_OPNEG"
    using that assms x
    by (auto simp: handle_state_opneg_def tp_wf_def call_data_frame change_state_def intro!: calls_keep)
  show ?thesis
    using assms x opneg
    by (cases "tp_state p")
      (auto simp: handle_byte_def handle_state_data_def handle_state_escaped_def handle_state_subneg_def
        handle_state_subneg_escaped_def Let_def intro!: calls_keep)
qed

lemma process_loop_keeps:
  "tp_wf (fst x) \<Longrightarrow> J (snd x) \<Longrightarrow> tp_wf (fst (process_loop cb bs x)) \<and> J (snd (process_loop cb bs x))"
proof (induction bs arbitrary: x)
  case (Cons b bs)
  have "tp_wf (fst (handle_byte cb b x))"
    using Cons.prems handle_byte_bounded handle_byte_state unfolding tp_wf_def by blast
  with Cons show ?case by (simp add: handle_byte_keeps)
qed simp

lemma process_data_keeps:
  assumes "tp_wf p" and "J u" and "telnet_protocol_process_data cb data (p, u) = (p', u')"
  shows "tp_wf p' \<and> J u'"
proof -
  let ?y = "process_loop cb data (p, u)"
  have y: "tp_wf (fst ?y) \<and> J (snd ?y)" using process_loop_keeps [of "(p, u)" data] assms(1,2) by simp
  then have "tp_wf (fst (call_data_received cb ?y))"
    using call_data_frame [of ?y] calls_bounded(1) [of ?y cb] by (auto simp: tp_wf_def)
  with y show ?thesis
    using assms(3) calls_keep(1) [of ?y] by (simp add: telnet_protocol_process_data_def)
qed

end

subsection \<open>Encoding and decoding\<close>

text \<open>The bytes the proxy writes for an event, and the events it can write.\<close>

fun encode :: "tp_event \<Rightarrow> bytes" where
  "encode (Data d) = telnet_protocol_escape_data d"
| "encode (Subneg s) = [TELNET_IAC, TELNET_CMD_SB] @ telnet_protocol_escape_data s @ [TELNET_IAC, TELNET_CMD_SE]"
| "encode (Command c) = [TELNET_IAC, c]"
| "encode (Opneg c opt) = [TELNET_IAC, c, opt]"

fun sendable :: "tp_event \<Rightarrow> bool" where
  "sendable (Data d) = True"
| "sendable (Subneg s) = (s \<noteq> [])"
| "sendable (Command c) = (c \<notin> {TELNET_IAC, TELNET_CMD_SB} \<and> \<not> is_opneg c)"
| "sendable (Opneg c opt) = is_opneg c"

lemma length_escape: "length d \<le> length (telnet_protocol_escape_data d)"
  by (induction d) auto

lemmas tp_step_defs =
  handle_byte_def handle_state_data_def handle_state_escaped_def handle_state_opneg_def
  handle_state_subneg_def handle_state_subneg_escaped_def recorder_calls append_data_def append_subneg_def
  change_state_def telnet_protocol_is_running_def is_opneg_def Let_def

lemma loop_escaped_data:
  assumes "tp_state p = PROTO_STATE_DATA" and "length (tp_data p) + length d \<le> TELNET_BUFFER_SIZE"
  shows "\<exists>q fs. process_loop recorder (telnet_protocol_escape_data d) (p, es) = (q, fs) \<and>
    tp_state q = PROTO_STATE_DATA \<and>
    flat fs @ flat1 (Data (tp_data q)) = flat es @ flat1 (Data (tp_data p @ d))"
  using assms
proof (induction d arbitrary: p es)
  case (Cons b d)
  show ?case
  proof (cases "b = TELNET_IAC")
    case True
    let ?p = "p\<lparr>tp_command := TELNET_IAC, tp_state := PROTO_STATE_DATA, tp_data := []\<rparr>"
    have "\<exists>q fs. process_loop recorder (telnet_protocol_escape_data d) (?p, es @ [Data (tp_data p @ [b])]) = (q, fs) \<and>
      tp_state q = PROTO_STATE_DATA \<and>
      flat fs @ flat1 (Data (tp_data q)) = flat (es @ [Data (tp_data p @ [b])]) @ flat1 (Data (tp_data ?p @ d))"
      by (rule Cons.IH) (use Cons.prems in auto)
    then show ?thesis
      using True Cons.prems by (simp add: tp_step_defs)
  next
    case False
    let ?p = "p\<lparr>tp_data := tp_data p @ [b]\<rparr>"
    have "\<exists>q fs. process_loop recorder (telnet_protocol_escape_data d) (?p, es) = (q, fs) \<and>
      tp_state q = PROTO_STATE_DATA \<and>
      flat fs @ flat1 (Data (tp_data q)) = flat es @ flat1 (Data (tp_data ?p @ d))"
      by (rule Cons.IH) (use Cons.prems in auto)
    then show ?thesis
      using False Cons.prems by (simp add: tp_step_defs)
  qed
qed simp

lemma loop_escaped_subneg:
  assumes "tp_state p = PROTO_STATE_SUBNEG" and "length (tp_subneg p) + length s \<le> TELNET_BUFFER_SIZE"
  shows "process_loop recorder (telnet_protocol_escape_data s) (p, es) = (p\<lparr>tp_subneg := tp_subneg p @ s\<rparr>, es)"
  using assms
proof (induction s arbitrary: p)
  case (Cons b s)
  let ?p = "p\<lparr>tp_subneg := tp_subneg p @ [b]\<rparr>"
  have "process_loop recorder (telnet_protocol_escape_data s) (?p, es) =
      (?p\<lparr>tp_subneg := tp_subneg ?p @ s\<rparr>, es)"
    by (rule Cons.IH) (use Cons.prems in auto)
  moreover have same: "p\<lparr>tp_state := PROTO_STATE_SUBNEG, tp_subneg := t\<rparr> = p\<lparr>tp_subneg := t\<rparr>" for t
    using Cons.prems(1) by (cases p) simp
  ultimately show ?case
    using Cons.prems by (auto simp: tp_step_defs same)
qed simp

lemma loop_encode:
  assumes "tp_state p = PROTO_STATE_DATA" and "sendable e"
    and "length (tp_data p) + length (encode e) \<le> TELNET_BUFFER_SIZE"
  shows "\<exists>q fs. process_loop recorder (encode e) (p, es) = (q, fs) \<and> tp_state q = PROTO_STATE_DATA \<and>
    flat fs @ flat1 (Data (tp_data q)) = flat es @ flat1 (Data (tp_data p)) @ flat1 e"
proof (cases e)
  case (Data d)
  then show ?thesis
    using loop_escaped_data [of p d es] assms(1,3) length_escape [of d] by auto
next
  case (Subneg s)
  let ?p = "p\<lparr>tp_command := TELNET_CMD_SB, tp_state := PROTO_STATE_SUBNEG, tp_subneg := []\<rparr>"
  have "process_loop recorder (telnet_protocol_escape_data s) (?p, es) = (?p\<lparr>tp_subneg := tp_subneg ?p @ s\<rparr>, es)"
    using assms(3) Subneg length_escape [of s] by (intro loop_escaped_subneg) auto
  then show ?thesis
    using Subneg assms(1,2) by (simp add: process_loop_append tp_step_defs)
qed (use assms in \<open>auto simp: tp_step_defs\<close>)

lemma loop_encode_all:
  assumes "tp_state p = PROTO_STATE_DATA" and "list_all sendable evs"
    and "length (tp_data p) + length (concat (map encode evs)) \<le> TELNET_BUFFER_SIZE"
  shows "\<exists>q fs. process_loop recorder (concat (map encode evs)) (p, es) = (q, fs) \<and> tp_state q = PROTO_STATE_DATA \<and>
    flat fs @ flat1 (Data (tp_data q)) = flat es @ flat1 (Data (tp_data p)) @ flat evs"
  using assms
proof (induction evs arbitrary: p es)
  case (Cons e evs)
  obtain q fs where q: "process_loop recorder (encode e) (p, es) = (q, fs)" "tp_state q = PROTO_STATE_DATA"
      "flat fs @ flat1 (Data (tp_data q)) = flat es @ flat1 (Data (tp_data p)) @ flat1 e"
    using loop_encode [of p e es] Cons.prems by auto
  have "length (tp_data q) \<le> length (tp_data p) + length (encode e)"
    using length_process_loop [of "encode e" "(p, es)"] q(1) by simp
  then obtain r gs where "process_loop recorder (concat (map encode evs)) (q, fs) = (r, gs)"
      "tp_state r = PROTO_STATE_DATA"
      "flat gs @ flat1 (Data (tp_data r)) = flat fs @ flat1 (Data (tp_data q)) @ flat evs"
    using Cons.IH [of q fs] Cons.prems q(2) by auto
  then show ?case
    using q by (auto simp: process_loop_append)
qed simp

section \<open>Properties\<close>


text \<open>C21: What the proxy writes is read back as it was meant: a sequence of escaped data, commands,
  option negotiations and suboptions that fits one read decodes to the same sequence.\<close>

theorem telnet_decode_encode:
  assumes "tp_state p = PROTO_STATE_DATA" and "tp_data p = []" and "list_all sendable evs"
    and "length (concat (map encode evs)) \<le> TELNET_BUFFER_SIZE"
  shows "flat (tp_events p (concat (map encode evs))) = flat evs \<and>
    tp_state (tp_after p (concat (map encode evs))) = PROTO_STATE_DATA"
proof -
  obtain q fs where q: "process_loop recorder (concat (map encode evs)) (p, []) = (q, fs)"
      "tp_state q = PROTO_STATE_DATA"
      "flat fs @ flat1 (Data (tp_data q)) = flat evs"
    using loop_encode_all [of p evs "[]"] assms by auto
  then show ?thesis
    unfolding tp_events_def tp_after_def telnet_protocol_process_data_def
    by (auto simp: recorder_calls telnet_protocol_is_running_def)
qed

theorem telnet_decode_encode_witness:
  "flat (tp_events telnet_protocol_init
     (concat (map encode [Data [97, 255, 98], Subneg [24, 0, 255], Opneg TELNET_CMD_DO 1, Command 246]))) =
   flat [Data [97, 255, 98], Subneg [24, 0, 255], Opneg TELNET_CMD_DO 1, Command 246]"
  using telnet_decode_encode [of telnet_protocol_init
      "[Data [97, 255, 98], Subneg [24, 0, 255], Opneg TELNET_CMD_DO 1, Command 246]"]
  by (simp add: telnet_protocol_init_def is_opneg_def TELNET_BUFFER_SIZE_def)

text \<open>C38: Decoding does not depend on how the peer's bytes are split into reads: as long as the
  bytes fit the buffer and the decoder is still running, two reads report the same elements as one.\<close>

theorem telnet_decode_chunks:
  assumes "tp_data p = []" and "length (xs @ ys) \<le> TELNET_BUFFER_SIZE"
    and "telnet_protocol_is_running (tp_after p (xs @ ys))"
  shows "flat (tp_events p (xs @ ys)) = flat (tp_events p xs @ tp_events (tp_after p xs) ys) \<and>
    tp_state (tp_after (tp_after p xs) ys) = tp_state (tp_after p (xs @ ys))"
proof -
  let ?one = "process_loop recorder xs (p, [])"
  let ?two = "call_data_received recorder ?one"
  have len: "length (tp_data (fst ?one)) \<le> length xs"
    using length_process_loop [of xs "(p, [])"] assms(1) by simp
  then have "view (process_loop recorder ys ?one) = view (process_loop recorder ys ?two)"
    using assms(2) length_call_data [of ?one] by (intro view_process_loop) auto
  then have v: "view (call_data_received recorder (process_loop recorder ys ?one)) =
      view (call_data_received recorder (process_loop recorder ys ?two))" by simp
  have 1: "call_data_received recorder (process_loop recorder ys ?one) = (tp_after p (xs @ ys), tp_events p (xs @ ys))"
    using process_data_recorder [of "xs @ ys" p "[]"]
    by (simp add: telnet_protocol_process_data_def process_loop_append)
  have "?two = (tp_after p xs, tp_events p xs)"
    using process_data_recorder [of xs p "[]"] by (simp add: telnet_protocol_process_data_def)
  then have 2: "call_data_received recorder (process_loop recorder ys ?two) =
      (tp_after (tp_after p xs) ys, tp_events p xs @ tp_events (tp_after p xs) ys)"
    using process_data_recorder [of ys "tp_after p xs" "tp_events p xs"]
    by (simp add: telnet_protocol_process_data_def)
  have "telnet_protocol_is_running (tp_after (tp_after p xs) ys)"
    using view_running [OF v] assms(3) 1 2 by simp
  then show ?thesis
    using v 1 2 assms(3) view_flushed [of "process_loop recorder ys ?one"]
      view_flushed [of "process_loop recorder ys ?two"] by simp
qed

theorem telnet_decode_chunks_witness:
  "flat (tp_events telnet_protocol_init ([97, 255] @ [253, 1])) =
   flat (tp_events telnet_protocol_init [97, 255] @ tp_events (tp_after telnet_protocol_init [97, 255]) [253, 1])"
proof -
  have "telnet_protocol_is_running (tp_after telnet_protocol_init ([97, 255] @ [253, 1]))"
    by (simp add: tp_after_def telnet_protocol_process_data_def telnet_protocol_init_def tp_step_defs
        TELNET_BUFFER_SIZE_def)
  then show ?thesis
    using telnet_decode_chunks [of telnet_protocol_init "[97, 255]" "[253, 1]"]
    by (simp add: telnet_protocol_init_def TELNET_BUFFER_SIZE_def)
qed

text \<open>Whatever a peer sends and whatever the callbacks answer, neither buffer of the decoder
  ever holds more than 16384 bytes.\<close>

theorem telnet_buffers_bounded:
  assumes "length (tp_data p) \<le> 16384" and "length (tp_subneg p) \<le> 16384"
  shows "length (tp_data (fst (telnet_protocol_process_data cb data (p, u)))) \<le> 16384 \<and>
    length (tp_subneg (fst (telnet_protocol_process_data cb data (p, u)))) \<le> 16384"
proof -
  have "tp_bounded (fst (telnet_protocol_process_data cb data (p, u)))"
    unfolding telnet_protocol_process_data_def
    by (intro calls_bounded process_loop_bounded) (use assms in \<open>simp add: tp_bounded_def TELNET_BUFFER_SIZE_def\<close>)
  then show ?thesis by (simp add: tp_bounded_def TELNET_BUFFER_SIZE_def)
qed

theorem telnet_buffers_bounded_witness:
  "length (tp_data (fst (telnet_protocol_process_data recorder (replicate 99999 7) (telnet_protocol_init, [])))) \<le> 16384"
  using telnet_buffers_bounded [of telnet_protocol_init recorder "replicate 99999 7" "[]"]
  by (simp add: telnet_protocol_init_def)

end
