(* ===== verification/Telnet_LineEdit.thy ===== *)
theory Telnet_LineEdit
  imports Prelude
begin

text \<open>
  The line editor of \<^verbatim>\<open>modules/telnet/telnetlineedit.cc\<close> that the proxy runs for its own
  prompts: it consumes the client's bytes, edits a line buffer and returns what to echo. The
  properties relate the echo to what a terminal then shows.
\<close>

section \<open>The editor\<close>

abbreviation LINEEDIT_BACKSPACE :: byte where "LINEEDIT_BACKSPACE \<equiv> 0x7f"
abbreviation LINEEDIT_LINEDEL :: byte where "LINEEDIT_LINEDEL \<equiv> 0x15"

record TelnetLineEdit =
  le_data :: bytes
  do_echo :: bool
  eol :: bool
  echo_newline :: bool

definition telnet_lineedit_init :: TelnetLineEdit where
  "telnet_lineedit_init = \<lparr>le_data = [], do_echo = True, eol = False, echo_newline = True\<rparr>"

definition ECHO_DELETE_ONE_CHARACTER :: bytes where
  "ECHO_DELETE_ONE_CHARACTER = [8, 32, 8]"

definition ECHO_NEWLINE :: bytes where
  "ECHO_NEWLINE = [13, 10]"

definition telnet_lineedit_compose_delete_n_chars :: "nat \<Rightarrow> bytes" where
  "telnet_lineedit_compose_delete_n_chars n = concat (map (replicate n) [8, 32, 8])"

definition telnet_lineedit_clear :: "TelnetLineEdit \<Rightarrow> TelnetLineEdit" where
  "telnet_lineedit_clear self = self\<lparr>le_data := [], eol := False\<rparr>"

text \<open>One byte: the editor, the pending carriage return and the echo so far.\<close>

definition lineedit_byte :: "byte \<Rightarrow> TelnetLineEdit \<times> bool \<times> bytes \<Rightarrow> TelnetLineEdit \<times> bool \<times> bytes" where
  "lineedit_byte byte = (\<lambda>(self, cr0, out).
     let cr = (if cr0 \<and> byte \<noteq> 10 \<and> byte \<noteq> 0 then False else cr0) in
     if byte = LINEEDIT_BACKSPACE then
       (if le_data self \<noteq> [] then
          (self\<lparr>le_data := butlast (le_data self)\<rparr>, cr,
           out @ (if do_echo self then ECHO_DELETE_ONE_CHARACTER else []))
        else (self, cr, out))
     else if byte = LINEEDIT_LINEDEL then
       (if le_data self \<noteq> [] then
          (self\<lparr>le_data := []\<rparr>, cr,
           out @ (if do_echo self then concat (replicate (length (le_data self)) ECHO_DELETE_ONE_CHARACTER) else []))
        else (self, cr, out))
     else if byte = 13 then (self, True, out)
     else if byte = 10 \<or> byte = 0 then
       (if cr then (self\<lparr>eol := True\<rparr>, False, out @ (if echo_newline self then ECHO_NEWLINE else []))
        else (self, cr, out))
     else (self\<lparr>le_data := le_data self @ [byte]\<rparr>, cr, out @ (if do_echo self then [byte] else [])))"

definition telnet_lineedit_process_data :: "TelnetLineEdit \<Rightarrow> bytes \<Rightarrow> TelnetLineEdit \<times> bytes" where
  "telnet_lineedit_process_data self data =
     (case fold lineedit_byte data (if eol self then telnet_lineedit_clear self else self, False, []) of
        (self', _, out) \<Rightarrow> (self', out))"

section \<open>A terminal\<close>

text \<open>
  The cells left of the cursor (nearest first) and from the cursor on. A backspace moves the
  cursor left, any other byte overwrites the cell under it and moves on.
\<close>

record terminal =
  t_left :: bytes
  t_right :: bytes

definition tput :: "byte \<Rightarrow> terminal \<Rightarrow> terminal" where
  "tput b t =
     (if b = 8 then
        (case t_left t of [] \<Rightarrow> t | c # l \<Rightarrow> \<lparr>t_left = l, t_right = c # t_right t\<rparr>)
      else \<lparr>t_left = b # t_left t, t_right = tl (t_right t)\<rparr>)"

definition tputs :: "bytes \<Rightarrow> terminal \<Rightarrow> terminal" where
  "tputs bs t = fold tput bs t"

text \<open>Keys that edit the line without ending it.\<close>

definition line_key :: "byte \<Rightarrow> bool" where
  "line_key b \<longleftrightarrow> b \<notin> {0, 8, 10, 13}"

definition text_key :: "byte \<Rightarrow> bool" where
  "text_key b \<longleftrightarrow> line_key b \<and> b \<noteq> LINEEDIT_BACKSPACE \<and> b \<noteq> LINEEDIT_LINEDEL"

section \<open>Lemmas\<close>

lemma tputs_simps [simp]: "tputs [] t = t" "tputs (xs @ ys) t = tputs ys (tputs xs t)"
  by (simp_all add: tputs_def)

lemma rev_butlast: "rev (butlast xs) = tl (rev xs)"
  by (cases xs rule: rev_cases) auto

lemma t_left_erase: "t_left (tputs (concat (replicate n ECHO_DELETE_ONE_CHARACTER)) t) = drop n (t_left t)"
proof (induction n arbitrary: t)
  case (Suc n)
  have "t_left (tputs ECHO_DELETE_ONE_CHARACTER t) = tl (t_left t)"
    by (cases "t_left t") (simp_all add: tputs_def ECHO_DELETE_ONE_CHARACTER_def tput_def)
  with Suc show ?case by (simp add: drop_Suc)
qed simp

lemma lineedit_byte_frame:
  "lineedit_byte b (self, cr, out) = (self', cr', out') \<Longrightarrow>
   do_echo self' = do_echo self \<and> echo_newline self' = echo_newline self"
  by (auto simp: lineedit_byte_def Let_def split: if_splits)

lemma lineedit_byte_shows:
  assumes "lineedit_byte b (self, cr, out) = (self', cr', out')" and "line_key b" and "do_echo self"
    and "t_left (tputs out t) = rev (le_data self)"
  shows "t_left (tputs out' t) = rev (le_data self')"
proof -
  have one: "t_left (tputs ECHO_DELETE_ONE_CHARACTER u) = tl (t_left u)" for u
    using t_left_erase [of 1 u] by (simp add: drop_Suc)
  have put: "t_left (tputs [b] u) = b # t_left u" for u
    using assms(2) by (simp add: tputs_def tput_def line_key_def)
  show ?thesis
    using assms one put
    by (auto simp: lineedit_byte_def Let_def line_key_def t_left_erase rev_butlast split: if_splits)
qed

lemma lineedit_fold_shows:
  assumes "fold lineedit_byte data (self, cr, out) = (self', cr', out')" and "list_all line_key data"
    and "do_echo self" and "t_left (tputs out t) = rev (le_data self)"
  shows "t_left (tputs out' t) = rev (le_data self')"
  using assms
proof (induction data arbitrary: self cr out)
  case (Cons b data)
  obtain s1 cr1 out1 where 1: "lineedit_byte b (self, cr, out) = (s1, cr1, out1)"
    by (cases "lineedit_byte b (self, cr, out)")
  show ?case
  proof (rule Cons.IH)
    show "fold lineedit_byte data (s1, cr1, out1) = (self', cr', out')" using Cons.prems(1) 1 by simp
    show "t_left (tputs out1 t) = rev (le_data s1)"
      using lineedit_byte_shows [OF 1] Cons.prems by simp
    show "do_echo s1" using lineedit_byte_frame [OF 1] Cons.prems(3) by simp
  qed (use Cons.prems in simp)
qed simp

text \<open>Without echo only line ends are written.\<close>

inductive only_newlines :: "bytes \<Rightarrow> bool" where
  nothing: "only_newlines []"
| newline: "only_newlines out \<Longrightarrow> only_newlines (out @ ECHO_NEWLINE)"

lemma lineedit_fold_silent:
  assumes "fold lineedit_byte data (self, cr, out) = (self', cr', out')" and "\<not> do_echo self"
    and "only_newlines out"
  shows "only_newlines out'"
  using assms
proof (induction data arbitrary: self cr out)
  case (Cons b data)
  obtain s1 cr1 out1 where 1: "lineedit_byte b (self, cr, out) = (s1, cr1, out1)"
    by (cases "lineedit_byte b (self, cr, out)")
  show ?case
  proof (rule Cons.IH)
    show "fold lineedit_byte data (s1, cr1, out1) = (self', cr', out')" using Cons.prems(1) 1 by simp
    show "\<not> do_echo s1" using lineedit_byte_frame [OF 1] Cons.prems(2) by simp
    show "only_newlines out1"
      using 1 Cons.prems(2,3)
      by (auto simp: lineedit_byte_def Let_def split: if_splits intro: only_newlines.intros)
  qed
qed simp

lemma lineedit_silent:
  "\<not> do_echo self \<Longrightarrow> telnet_lineedit_process_data self data = (self', out) \<Longrightarrow> only_newlines out"
  by (auto simp: telnet_lineedit_process_data_def telnet_lineedit_clear_def
      intro: lineedit_fold_silent only_newlines.nothing split: prod.splits if_splits)

lemma lineedit_fold_text:
  "list_all text_key line \<Longrightarrow> \<not> cr \<Longrightarrow>
   \<exists>out'. fold lineedit_byte line (self, cr, out) = (self\<lparr>le_data := le_data self @ line\<rparr>, False, out')"
proof (induction line arbitrary: self out)
  case (Cons b line)
  then show ?case
    using Cons.IH [of "self\<lparr>le_data := le_data self @ [b]\<rparr>" "out @ (if do_echo self then [b] else [])"]
    by (simp add: lineedit_byte_def text_key_def line_key_def)
qed simp

section \<open>Properties\<close>



text \<open>A password is never echoed: with echo off the editor writes nothing but line ends.\<close>

theorem lineedit_no_echo_silent:
  assumes "\<not> do_echo self" and "telnet_lineedit_process_data self data = (self', out)"
  shows "only_newlines out"
  using assms by (rule lineedit_silent)

theorem lineedit_no_echo_silent_witness:
  "only_newlines (snd (telnet_lineedit_process_data (telnet_lineedit_init\<lparr>do_echo := False\<rparr>) [115, 51, 99, 13, 10]))"
  using lineedit_no_echo_silent [of "telnet_lineedit_init\<lparr>do_echo := False\<rparr>" "[115, 51, 99, 13, 10]", OF _ surjective_pairing]
  by (simp add: telnet_lineedit_init_def)

text \<open>A line of text ended by CR LF (or CR NUL) that arrives in one piece is recognised, with
  exactly that text in the buffer; when the CR and the LF arrive in two pieces the end of the
  line is missed.\<close>

theorem lineedit_end_of_line:
  assumes "list_all text_key line" and "\<not> eol self" and "le_data self = []" and "nl = 10 \<or> nl = 0"
  shows "eol (fst (telnet_lineedit_process_data self (line @ [13, nl]))) \<and>
    le_data (fst (telnet_lineedit_process_data self (line @ [13, nl]))) = line \<and>
    \<not> eol (fst (telnet_lineedit_process_data (fst (telnet_lineedit_process_data self (line @ [13]))) [nl]))"
proof -
  obtain out where "fold lineedit_byte line (self, False, []) = (self\<lparr>le_data := line\<rparr>, False, out)"
    using lineedit_fold_text [OF assms(1), of False self "[]"] assms(3) by auto
  then show ?thesis
    using assms(2-4) by (auto simp: telnet_lineedit_process_data_def lineedit_byte_def)
qed

theorem lineedit_end_of_line_witness:
  "eol (fst (telnet_lineedit_process_data telnet_lineedit_init ([114, 111, 111, 116] @ [13, 10])))"
  using lineedit_end_of_line [of "[114, 111, 111, 116]" telnet_lineedit_init 10]
  by (simp add: telnet_lineedit_init_def text_key_def line_key_def)

end
