(* ===== verification/Telnet_Proxy.thy ===== *)
theory Telnet_Proxy
  imports DimHash Telnet_Protocol Telnet_LineEdit
begin

text \<open>
  The state of the Telnet proxy (\<^verbatim>\<open>modules/telnet/telnet.h\<close>), its output functions
  (\<^verbatim>\<open>modules/telnet/telnet.cc\<close>) and what it calls outside itself. Everything outside is a
  parameter: the stream, the policy callbacks, the authentication, the server connection and
  the TLS handshake. Each of these may answer differently every time: it sees the history of
  all outside calls so far, which the proxy state carries as a ghost field. A policy callback
  may assign the attributes registered with \<^verbatim>\<open>Z_VAR_SET\<close>, collected in \<open>telnet_vars\<close>. A failed
  assertion or a memory error of the C code sets \<open>tn_crashed\<close>.
\<close>

section \<open>State\<close>

datatype TelnetState =
  TELNET_STATE_WAIT_OPNEG | TELNET_STATE_WAIT_ENVIRONMENT | TELNET_STATE_PROMPT_USER
| TELNET_STATE_PROMPT_PASSWORD | TELNET_STATE_PROMPT_SERVER | TELNET_STATE_RELAYING | TELNET_STATE_QUIT

datatype TelnetTlsStatus =
  TELNET_TLS_STATUS_NONE | TELNET_TLS_STATUS_CLIENT_REQUESTED_TLS | TELNET_TLS_STATUS_SERVER_REQUESTED_TLS
| TELNET_TLS_STATUS_CLIENT_STARTING_TLS | TELNET_TLS_STATUS_CLIENT_STARTING_TLS_FOLLOWS
| TELNET_TLS_STATUS_SERVER_CONFIRMED_STARTING_TLS | TELNET_TLS_STATUS_HANDSHAKE_STARTED

datatype security =
  ENCRYPTION_SEC_NONE | ENCRYPTION_SEC_FORCE_SSL | ENCRYPTION_SEC_ACCEPT_STARTTLS | ENCRYPTION_SEC_FORWARD_STARTTLS

record telnet_vars =
  policy_name :: bytes
  policy_value :: bytes
  username :: bytes
  gateway_user :: bytes
  server_hostname :: bytes
  server_port :: "32 word"
  tls_required :: "endpoint \<Rightarrow> bool"

text \<open>The outside calls and what they answered.\<close>

datatype t_event =
  EvWrite endpoint bytes giostatus
| EvCall pyval byte "(bytes \<times> bytes) option"
| EvMethod string "bytes list"
| EvAuthCheck bytes bytes bool
| EvUserAuth bytes bool
| EvConnect "bytes option" "32 word" bool
| EvHandshake endpoint bool

record TelnetProxy =
  tn_vars :: telnet_vars
  tn_policy :: "pyval dimhash"
  tn_negotiation :: "string \<rightharpoonup> pyval"
  tn_auth :: bool
  tn_transparent :: bool
  tn_gw_auth_required :: bool
  tn_server_hostname_is_from_env :: bool
  tn_gateway_user_is_from_env :: bool
  tn_gateway_password :: bytes
  tn_gateway_password_is_from_env :: bool
  tn_gw_authentication_failures :: "32 word"
  tn_banner :: bytes
  tn_server_name_prompt :: bytes
  tn_gateway_user_prompt :: bytes
  tn_gateway_password_prompt :: bytes
  tn_state :: TelnetState
  tn_server_stream_initialized :: bool
  tn_environment_is_received :: bool
  tn_protocol :: "endpoint \<Rightarrow> TelnetProtocol"
  tn_line_editor :: TelnetLineEdit
  tn_options :: options
  tn_do_dont_requested :: "byte \<Rightarrow> endpoint \<Rightarrow> byte"
  tn_will_wont_requested :: "byte \<Rightarrow> endpoint \<Rightarrow> byte"
  tn_tls_completed :: "endpoint \<Rightarrow> bool"
  tn_tls_status :: "endpoint \<Rightarrow> TelnetTlsStatus"
  tn_handshake_pending :: "endpoint \<Rightarrow> bool"
  tn_security :: "endpoint \<Rightarrow> security"
  tn_poll_quit :: bool
  tn_hist :: "t_event list"
  tn_crashed :: bool

type_synonym 'a tm = "(TelnetProxy, 'a) state"

section \<open>The outside\<close>

type_synonym history = "t_event list"

record telnet_ext =
  x_write :: "history \<Rightarrow> endpoint \<Rightarrow> bytes \<Rightarrow> giostatus"
  x_call :: "history \<Rightarrow> pyval \<Rightarrow> byte \<Rightarrow> (bytes \<times> bytes) option \<Rightarrow> telnet_vars \<Rightarrow> pyval option \<times> telnet_vars"
  x_method :: "history \<Rightarrow> string \<Rightarrow> bytes list \<Rightarrow> telnet_vars \<Rightarrow> (bool \<times> pyval option) \<times> telnet_vars"
  x_check_passwd :: "history \<Rightarrow> bytes \<Rightarrow> bytes \<Rightarrow> bool"
  x_user_authenticated :: "history \<Rightarrow> bytes \<Rightarrow> telnet_vars \<Rightarrow> bool \<times> telnet_vars"
  x_connect_server :: "history \<Rightarrow> bytes option \<Rightarrow> 32 word \<Rightarrow> telnet_vars \<Rightarrow> bool \<times> telnet_vars"
  x_handshake :: "history \<Rightarrow> endpoint \<Rightarrow> (endpoint \<Rightarrow> bool) \<Rightarrow> bool \<times> (endpoint \<Rightarrow> bool)"

definition upd_vars :: "(telnet_vars \<Rightarrow> telnet_vars) \<Rightarrow> unit tm" where
  "upd_vars f = modify (\<lambda>s. s\<lparr>tn_vars := f (tn_vars s)\<rparr>)"

definition set_vars :: "telnet_vars \<Rightarrow> unit tm" where
  "set_vars v = modify (\<lambda>s. s\<lparr>tn_vars := v\<rparr>)"

definition log_event :: "t_event \<Rightarrow> unit tm" where
  "log_event e = modify (\<lambda>s. s\<lparr>tn_hist := e # tn_hist s\<rparr>)"

definition crash :: "unit tm" where
  "crash = modify (\<lambda>s. s\<lparr>tn_crashed := True\<rparr>)"

text \<open>Calling a policy callable with an option and, for some options, a name and a value.\<close>

definition policy_call_object :: "telnet_ext \<Rightarrow> pyval \<Rightarrow> byte \<Rightarrow> (bytes \<times> bytes) option \<Rightarrow> pyval option tm" where
  "policy_call_object x f option nv = do {
     h \<leftarrow> gets tn_hist;
     v \<leftarrow> gets tn_vars;
     case x_call x h f option nv v of (r, v') \<Rightarrow> do {
       log_event (EvCall f option nv);
       set_vars v';
       return r
     }
   }"

text \<open>Calling a method of the policy's proxy instance: whether it exists, and what it returned.\<close>

definition policy_call :: "telnet_ext \<Rightarrow> string \<Rightarrow> bytes list \<Rightarrow> (bool \<times> pyval option) tm" where
  "policy_call x name args = do {
     h \<leftarrow> gets tn_hist;
     v \<leftarrow> gets tn_vars;
     case x_method x h name args v of (r, v') \<Rightarrow> do {
       log_event (EvMethod name args);
       set_vars v';
       return r
     }
   }"

definition z_proxy_report_policy_abort :: "telnet_ext \<Rightarrow> unit tm" where
  "z_proxy_report_policy_abort x = do { policy_call x ''closedByAbort'' []; return () }"

definition z_proxy_report_invalid_policy :: "telnet_ext \<Rightarrow> unit tm" where
  "z_proxy_report_invalid_policy x = do { policy_call x ''invalidPolicyCall'' []; return () }"

text \<open>The password check this source tree links, which knows no password.\<close>

definition z_auth_provider_check_passwd :: "history \<Rightarrow> bytes \<Rightarrow> bytes \<Rightarrow> bool" where
  "z_auth_provider_check_passwd h user passwd = False"

section \<open>State tests\<close>

definition telnet_state_is_lineedit :: "TelnetProxy \<Rightarrow> bool" where
  "telnet_state_is_lineedit s \<longleftrightarrow>
     tn_state s = TELNET_STATE_PROMPT_SERVER \<or> tn_state s = TELNET_STATE_PROMPT_USER \<or>
     tn_state s = TELNET_STATE_PROMPT_PASSWORD"

text \<open>The pattern-matching state of the commercial version never holds here.\<close>

definition telnet_state_is_connected :: "TelnetProxy \<Rightarrow> bool" where
  "telnet_state_is_connected s \<longleftrightarrow> tn_state s = TELNET_STATE_RELAYING"

definition telnet_proxy_is_transparent :: "TelnetProxy \<Rightarrow> bool" where
  "telnet_proxy_is_transparent s \<longleftrightarrow> tn_transparent s \<and> \<not> tn_gw_auth_required s"

definition telnet_change_state :: "TelnetState \<Rightarrow> unit tm" where
  "telnet_change_state new_state = modify (\<lambda>s. s\<lparr>tn_state := new_state\<rparr>)"

section \<open>Output\<close>

definition telnet_write_packet :: "telnet_ext \<Rightarrow> endpoint \<Rightarrow> bytes \<Rightarrow> giostatus tm" where
  "telnet_write_packet x ep pkt = do {
     pending \<leftarrow> gets tn_handshake_pending;
     if pending ep then return G_IO_STATUS_NORMAL
     else do {
       h \<leftarrow> gets tn_hist;
       log_event (EvWrite ep pkt (x_write x h ep pkt));
       return (x_write x h ep pkt)
     }
   }"

definition telnet_send_suboption :: "telnet_ext \<Rightarrow> endpoint \<Rightarrow> bytes \<Rightarrow> giostatus tm" where
  "telnet_send_suboption x ep suboption =
     telnet_write_packet x ep
       ([TELNET_IAC, TELNET_CMD_SB] @ telnet_protocol_escape_data suboption @ [TELNET_IAC, TELNET_CMD_SE])"

definition telnet_send_command :: "telnet_ext \<Rightarrow> endpoint \<Rightarrow> byte \<Rightarrow> giostatus tm" where
  "telnet_send_command x ep command = telnet_write_packet x ep [TELNET_IAC, command]"

definition option_received :: "endpoint \<Rightarrow> byte \<Rightarrow> byte \<Rightarrow> unit tm" where
  "option_received ep command option = do {
     opts \<leftarrow> gets tn_options;
     case telnet_option_command_received opts ep command option of
       None \<Rightarrow> crash
     | Some opts' \<Rightarrow> modify (\<lambda>s. s\<lparr>tn_options := opts'\<rparr>)
   }"

definition option_sent :: "endpoint \<Rightarrow> byte \<Rightarrow> byte \<Rightarrow> unit tm" where
  "option_sent ep command option = do {
     opts \<leftarrow> gets tn_options;
     case telnet_option_command_sent opts ep command option of
       None \<Rightarrow> crash
     | Some opts' \<Rightarrow> modify (\<lambda>s. s\<lparr>tn_options := opts'\<rparr>)
   }"

definition telnet_send_opneg :: "telnet_ext \<Rightarrow> endpoint \<Rightarrow> byte \<Rightarrow> byte \<Rightarrow> giostatus tm" where
  "telnet_send_opneg x ep command option = do {
     option_sent ep command option;
     telnet_write_packet x ep [TELNET_IAC, command, option]
   }"

definition telnet_send_data :: "telnet_ext \<Rightarrow> endpoint \<Rightarrow> bytes \<Rightarrow> giostatus tm" where
  "telnet_send_data x ep data = telnet_write_packet x ep (telnet_protocol_escape_data data)"

text \<open>A user string with every newline turned into CR LF.\<close>

fun telnet_user_string_to_pktbuf :: "bytes \<Rightarrow> bytes" where
  "telnet_user_string_to_pktbuf [] = []"
| "telnet_user_string_to_pktbuf (c # cs) =
     (if c = 10 then [13, c] else [c]) @ telnet_user_string_to_pktbuf cs"

section \<open>Defaults\<close>

definition telnet_vars_defaults :: telnet_vars where
  "telnet_vars_defaults = \<lparr>policy_name = [], policy_value = [], username = [], gateway_user = [],
     server_hostname = [], server_port = 23, tls_required = (\<lambda>_. False)\<rparr>"

definition telnet_set_defaults :: TelnetProxy where
  "telnet_set_defaults = \<lparr>
     tn_vars = telnet_vars_defaults,
     tn_policy = z_dim_hash_table_new 1 [DIMHASH_WILDCARD, DIMHASH_WILDCARD],
     tn_negotiation = Map.empty,
     tn_auth = False,
     tn_transparent = True,
     tn_gw_auth_required = False,
     tn_server_hostname_is_from_env = False,
     tn_gateway_user_is_from_env = False,
     tn_gateway_password = [],
     tn_gateway_password_is_from_env = False,
     tn_gw_authentication_failures = 0,
     tn_banner = [],
     tn_server_name_prompt = bytes_of ''Server: '',
     tn_gateway_user_prompt = bytes_of ''Gateway user name: '',
     tn_gateway_password_prompt = bytes_of ''Gateway password: '',
     tn_state = TELNET_STATE_WAIT_OPNEG,
     tn_server_stream_initialized = False,
     tn_environment_is_received = False,
     tn_protocol = (\<lambda>_. telnet_protocol_init),
     tn_line_editor = telnet_lineedit_init,
     tn_options = (\<lambda>_ _. 0),
     tn_do_dont_requested = (\<lambda>_ _. 0),
     tn_will_wont_requested = (\<lambda>_ _. 0),
     tn_tls_completed = (\<lambda>_. False),
     tn_tls_status = (\<lambda>_. TELNET_TLS_STATUS_NONE),
     tn_handshake_pending = (\<lambda>_. False),
     tn_security = (\<lambda>_. ENCRYPTION_SEC_NONE),
     tn_poll_quit = False,
     tn_hist = [],
     tn_crashed = False\<rparr>"

section \<open>Frame lemmas\<close>

text \<open>
  A step that leaves the part \<open>f\<close> of the state alone keeps every property of that part; the
  rules below are the cases of the functions of this theory.
\<close>

lemma keeps_upd_vars: "(\<And>s v. I s \<Longrightarrow> I (s\<lparr>tn_vars := v\<rparr>)) \<Longrightarrow> keeps I (upd_vars f)"
  by (simp add: upd_vars_def keeps_modify)

lemma keeps_policy_calls:
  assumes "\<And>s v. I s \<Longrightarrow> I (s\<lparr>tn_vars := v\<rparr>)" and "\<And>s e. I s \<Longrightarrow> I (s\<lparr>tn_hist := e # tn_hist s\<rparr>)"
  shows "keeps I (policy_call_object x f option nv)" and "keeps I (policy_call x name args)"
    and "keeps I (z_proxy_report_policy_abort x)" and "keeps I (z_proxy_report_invalid_policy x)"
  unfolding policy_call_object_def policy_call_def z_proxy_report_policy_abort_def
    z_proxy_report_invalid_policy_def log_event_def set_vars_def
  by (intro keeps_intros keeps_modify assms; assumption)+

lemma keeps_write:
  assumes "\<And>s ep p st. I s \<Longrightarrow> I (s\<lparr>tn_hist := EvWrite ep p st # tn_hist s\<rparr>)"
  shows "keeps I (telnet_write_packet x ep pkt)" and "keeps I (telnet_send_suboption x ep sub)"
    and "keeps I (telnet_send_command x ep command)" and "keeps I (telnet_send_data x ep data)"
  unfolding telnet_send_suboption_def telnet_send_command_def telnet_send_data_def telnet_write_packet_def
    log_event_def
  by (intro keeps_intros keeps_modify assms; assumption)+

end
