(* ===== verification/Telnet_Policy.thy ===== *)
theory Telnet_Policy
  imports Telnet_Proxy
begin

text \<open>
  The policy decisions of the Telnet proxy (\<^verbatim>\<open>modules/telnet/telnetpolicy.cc\<close>): an option or a
  suboption is looked up in the policy hash; the entry is a verdict or names a Python function
  whose result is the verdict. The lemmas say when such a question cannot crash and that it
  only moves the variables a policy may assign and the call history.
\<close>

section \<open>Operations\<close>

text \<open>
  The type of an entry: an int or the first item of a sequence, \<open>None\<close> when it is no int. The
  first item of an empty sequence is a null pointer that the parser reads. The verdict is
  stored as an unsigned int and only compared with small constants, so the int serves.
\<close>

definition telnet_hash_get_type :: "pyval \<Rightarrow> mem_error + int option" where
  "telnet_hash_get_type tuple =
     (if \<not> seq_check tuple then Inr (parse_i tuple)
      else case seq_getitem0 tuple of
        None \<Rightarrow> Inl InvalidRead
      | Some tmp \<Rightarrow> Inr (parse_i tmp))"

text \<open>What a policy function answered, as a verdict.\<close>

definition policy_function_verdict :: "telnet_ext \<Rightarrow> pyval option \<Rightarrow> ZVerdict tm" where
  "policy_function_verdict x pol_res =
     (case pol_res of
        None \<Rightarrow> do { z_proxy_report_policy_abort x; return ZV_ABORT }
      | Some v \<Rightarrow>
          (case parse_i v of
             None \<Rightarrow> do { z_proxy_report_policy_abort x; return ZV_ABORT }
           | Some res \<Rightarrow>
               if res = zv_code ZV_ACCEPT then return ZV_ACCEPT
               else if res = zv_code ZV_UNSPEC \<or> res = zv_code ZV_DROP then return ZV_DROP
               else if res = zv_code ZV_REJECT then return ZV_REJECT
               else do { z_proxy_report_policy_abort x; return ZV_ABORT }))"

definition telnet_policy_option :: "telnet_ext \<Rightarrow> endpoint \<Rightarrow> byte \<Rightarrow> byte \<Rightarrow> ZVerdict tm" where
  "telnet_policy_option x ep command option = do {
     policy \<leftarrow> gets tn_policy;
     case z_dim_hash_table_search policy [decimal (unat option)] of
       Inl _ \<Rightarrow> do { crash; return ZV_ABORT }
     | Inr None \<Rightarrow> return ZV_DROP
     | Inr (Some tmp) \<Rightarrow>
         (case telnet_hash_get_type tmp of
            Inl _ \<Rightarrow> do { crash; return ZV_ABORT }
          | Inr None \<Rightarrow> do { z_proxy_report_invalid_policy x; return ZV_ABORT }
          | Inr (Some command_do) \<Rightarrow>
              if command_do = zv_code ZV_DROP then return ZV_DROP
              else if command_do = zv_code ZV_ACCEPT then return ZV_ACCEPT
              else if command_do = zv_code ZV_POLICY then
                (case parse_iO tmp of
                   None \<Rightarrow> do { z_proxy_report_invalid_policy x; return ZV_ABORT }
                 | Some (_, command_where) \<Rightarrow> do {
                     pol_res \<leftarrow> policy_call_object x command_where option None;
                     policy_function_verdict x pol_res
                   })
              else if command_do = zv_code ZV_REJECT then return ZV_REJECT
              else do { z_proxy_report_policy_abort x; return ZV_ABORT })
   }"

text \<open>The options whose suboptions carry a name and a value for the policy function.\<close>

definition subopt_named :: "byte \<Rightarrow> bool" where
  "subopt_named option \<longleftrightarrow>
     option \<in> {TELNET_OPTION_TERMINAL_TYPE, TELNET_OPTION_TERMINAL_SPEED, TELNET_OPTION_X_DISPLAY_LOCATION,
       TELNET_OPTION_ENVIRONMENT, TELNET_OPTION_NAWS}"

text \<open>Name and value arrive as C strings; the policy function sees them up to the first NUL.\<close>

definition telnet_policy_suboption ::
  "telnet_ext \<Rightarrow> endpoint \<Rightarrow> byte \<Rightarrow> byte \<Rightarrow> bytes \<Rightarrow> bytes \<Rightarrow> ZVerdict tm" where
  "telnet_policy_suboption x ep option subcommand name value = do {
     policy \<leftarrow> gets tn_policy;
     case z_dim_hash_table_search policy [decimal (unat option), decimal (unat subcommand)] of
       Inl _ \<Rightarrow> do { crash; return ZV_ABORT }
     | Inr None \<Rightarrow> return ZV_DROP
     | Inr (Some tmp) \<Rightarrow>
         (case telnet_hash_get_type tmp of
            Inl _ \<Rightarrow> do { crash; return ZV_ABORT }
          | Inr None \<Rightarrow> return ZV_ABORT
          | Inr (Some command_do) \<Rightarrow>
              if command_do = zv_code ZV_DROP then return ZV_DROP
              else if command_do = zv_code ZV_REJECT then return ZV_DROP
              else if command_do = zv_code ZV_ACCEPT then return ZV_ACCEPT
              else if command_do = zv_code ZV_POLICY then
                (case parse_iO tmp of
                   None \<Rightarrow> do { z_proxy_report_invalid_policy x; return ZV_ABORT }
                 | Some (_, command_where) \<Rightarrow> do {
                     pol_res \<leftarrow> policy_call_object x command_where option
                       (if subopt_named option then Some (cstr name, cstr value) else None);
                     policy_function_verdict x pol_res
                   })
              else return ZV_ABORT)
   }"

definition telnet_policy_parse_authinfo :: "telnet_ext \<Rightarrow> string \<Rightarrow> bytes \<Rightarrow> bool tm" where
  "telnet_policy_parse_authinfo x env content = do {
     (called, result) \<leftarrow> policy_call x ''parseInbandAuth'' [bytes_of env, cstr content];
     if \<not> called then do { z_proxy_report_policy_abort x; return False }
     else do {
       let ret = (case result of None \<Rightarrow> False
                  | Some v \<Rightarrow> (case parse_i v of None \<Rightarrow> False | Some n \<Rightarrow> n \<noteq> 0));
       (if ret then return () else z_proxy_report_policy_abort x);
       return ret
     }
   }"

section \<open>Policies that cannot crash the lookup\<close>

text \<open>The shape the proxy gives its policy hash, and no entry that is an empty sequence.\<close>

definition policy_safe :: "pyval dimhash \<Rightarrow> bool" where
  "policy_safe t \<longleftrightarrow> dh_minkeynum t = 1 \<and> dh_keynum t = 2 \<and>
     dh_flags t = [DIMHASH_WILDCARD, DIMHASH_WILDCARD] \<and>
     PySeq [] \<notin> ran (dh_hash t) \<and> PyStr [] \<notin> ran (dh_hash t)"

lemma decimal_byte_fits: "length (decimal (unat (b :: byte))) < DIMHASH_MAX_KEYSIZE"
proof -
  have "unat b < 256" using unsigned_less [of b] by simp
  then have "length (decimal (unat b)) \<le> 3" by (rule length_decimal_byte)
  then show ?thesis by (simp add: dimhash_consts)
qed

lemma policy_search:
  assumes "policy_safe t"
  shows "z_dim_hash_table_search t [decimal (unat (b :: byte))] =
      Inr (first_match (dh_hash t) (search_order (zip [decimal (unat b)] (dh_flags t))))"
    and "z_dim_hash_table_search t [decimal (unat b), decimal (unat (c :: byte))] =
      Inr (first_match (dh_hash t) (search_order (zip [decimal (unat b), decimal (unat c)] (dh_flags t))))"
  using assms search_loop_first_match [of "[decimal (unat b)]" t 1]
    search_loop_first_match [of "[decimal (unat b), decimal (unat c)]" t 2]
  by (simp_all add: policy_safe_def z_dim_hash_table_search_def key_count_ok_def search_order_def
      dimhash_consts keys_fit_def decimal_byte_fits [unfolded dimhash_consts] numeral_2_eq_2)

lemma policy_search_ran:
  assumes "policy_safe t" and "z_dim_hash_table_search t ks = Inr (Some v)"
    and "ks = [decimal (unat (b :: byte))] \<or> ks = [decimal (unat b), decimal (unat (c :: byte))]"
  shows "v \<in> ran (dh_hash t)"
  using assms policy_search(1) [OF assms(1), of b] policy_search(2) [OF assms(1), of b c]
  by (auto dest!: first_match_SomeD intro: ranI)

lemma hash_get_type_safe:
  assumes "policy_safe t" and "v \<in> ran (dh_hash t)"
  shows "\<exists>r. telnet_hash_get_type v = Inr r"
  using assms
  by (cases v rule: seq_getitem0.cases) (auto simp: telnet_hash_get_type_def policy_safe_def)

lemma policy_search_no_crash:
  assumes "policy_safe t"
  shows "z_dim_hash_table_search t [decimal (unat (b :: byte))] = Inl e \<Longrightarrow> False"
    and "z_dim_hash_table_search t [decimal (unat b), decimal (unat (c :: byte))] = Inl e \<Longrightarrow> False"
  using policy_search [OF assms] by simp_all

lemma hash_get_type_no_crash:
  assumes "policy_safe t" and "telnet_hash_get_type v = Inl e"
  shows "z_dim_hash_table_search t [decimal (unat (b :: byte))] = Inr (Some v) \<Longrightarrow> False"
    and "z_dim_hash_table_search t [decimal (unat b), decimal (unat (c :: byte))] = Inr (Some v) \<Longrightarrow> False"
  using policy_search_ran [OF assms(1)] hash_get_type_safe [OF assms(1)] assms(2) by force+

section \<open>The frame of a session\<close>

text \<open>
  The part of the state that the handlers of a running session leave alone unless they say so.
\<close>

definition core where
  "core s = (tn_state s, tn_policy s, (tn_auth s, tn_transparent s, tn_gw_auth_required s),
     tn_server_stream_initialized s, tn_gw_authentication_failures s, tn_crashed s,
     do_echo (tn_line_editor s), (tn_tls_completed s, tn_tls_status s, tn_handshake_pending s), tn_protocol s,
     tn_poll_quit s, tn_hist s)"

text \<open>
  An invariant of the session: it only depends on the core, policy calls may extend the history,
  writes may when they go to a permitted endpoint, and in a relaying session both endpoints are.
\<close>

locale session_frame =
  fixes I :: "TelnetProxy \<Rightarrow> bool" and eps :: "endpoint \<Rightarrow> bool"
  assumes I_core: "I s \<Longrightarrow> core s' = core s \<Longrightarrow> I s'"
    and I_call: "I s \<Longrightarrow> I (s\<lparr>tn_hist := EvCall f option nv # tn_hist s\<rparr>)"
    and I_method: "I s \<Longrightarrow> I (s\<lparr>tn_hist := EvMethod name args # tn_hist s\<rparr>)"
    and I_write: "I s \<Longrightarrow> eps ep \<Longrightarrow> I (s\<lparr>tn_hist := EvWrite ep p st # tn_hist s\<rparr>)"
    and I_safe: "I s \<Longrightarrow> policy_safe (tn_policy s)"
    and I_connected: "I s \<Longrightarrow> tn_state s = TELNET_STATE_RELAYING \<Longrightarrow> eps ep"
    and eps_client: "eps EP_CLIENT"
begin

lemma keeps_local: "(\<And>s. core (f s) = core s) \<Longrightarrow> keeps I (modify f)"
  by (rule keeps_modify) (auto intro: I_core)

lemma keeps_vars: "keeps I (upd_vars f)" "keeps I (set_vars v)"
  unfolding upd_vars_def set_vars_def by (intro keeps_local; simp add: core_def)+

lemma keeps_log:
  "keeps I (log_event (EvCall f option nv))" "keeps I (log_event (EvMethod name args))"
  "eps ep \<Longrightarrow> keeps I (log_event (EvWrite ep p st))"
  unfolding log_event_def by (auto intro: keeps_modify I_call I_method I_write)

lemma keeps_calls:
  "keeps I (policy_call_object x f option nv)" "keeps I (policy_call x name args)"
  "keeps I (z_proxy_report_policy_abort x)" "keeps I (z_proxy_report_invalid_policy x)"
  unfolding policy_call_object_def policy_call_def z_proxy_report_policy_abort_def
    z_proxy_report_invalid_policy_def
  by (intro keeps_intros keeps_vars keeps_log)+

lemma keeps_sends:
  assumes "eps ep"
  shows "keeps I (telnet_write_packet x ep pkt)" "keeps I (telnet_send_suboption x ep sub)"
    "keeps I (telnet_send_command x ep command)" "keeps I (telnet_send_data x ep data)"
  unfolding telnet_send_suboption_def telnet_send_command_def telnet_send_data_def telnet_write_packet_def
  by (intro keeps_intros keeps_log assms)+

lemma keeps_options:
  assumes "is_opneg command"
  shows "keeps I (option_received ep command option)" "keeps I (option_sent ep command option)"
proof -
  have "keeps I (case telnet_option_command_received opts ep command option of
      None \<Rightarrow> crash | Some opts' \<Rightarrow> modify (\<lambda>s. s\<lparr>tn_options := opts'\<rparr>))" for opts
    using is_opneg_defined(1) [OF assms, of opts ep option] by (auto intro!: keeps_local simp: core_def)
  then show "keeps I (option_received ep command option)"
    unfolding option_received_def by (rule keeps_bind [OF keeps_gets])
  have "keeps I (case telnet_option_command_sent opts ep command option of
      None \<Rightarrow> crash | Some opts' \<Rightarrow> modify (\<lambda>s. s\<lparr>tn_options := opts'\<rparr>))" for opts
    using is_opneg_defined(2) [OF assms, of opts ep option] by (auto intro!: keeps_local simp: core_def)
  then show "keeps I (option_sent ep command option)"
    unfolding option_sent_def by (rule keeps_bind [OF keeps_gets])
qed

lemma keeps_send_opneg: "is_opneg command \<Longrightarrow> eps ep \<Longrightarrow> keeps I (telnet_send_opneg x ep command option)"
  unfolding telnet_send_opneg_def by (intro keeps_intros keeps_options keeps_sends)

lemma keeps_function_verdict: "keeps I (policy_function_verdict x pol_res)"
  unfolding policy_function_verdict_def by (intro keeps_intros keeps_calls)

lemma keeps_no_crash: "False \<Longrightarrow> keeps I crash"
  by simp

lemma keeps_policy_option: "keeps I (telnet_policy_option x ep command option)"
  unfolding telnet_policy_option_def
  by (rule keeps_gets_bind, drule I_safe)
    (intro keeps_intros keeps_calls keeps_function_verdict keeps_no_crash;
      auto dest: policy_search_no_crash hash_get_type_no_crash)

lemma keeps_policy_suboption: "keeps I (telnet_policy_suboption x ep option subcommand name value)"
  unfolding telnet_policy_suboption_def
  by (rule keeps_gets_bind, drule I_safe)
    (intro keeps_intros keeps_calls keeps_function_verdict keeps_no_crash;
      auto dest: policy_search_no_crash hash_get_type_no_crash)

lemma keeps_parse_authinfo: "keeps I (telnet_policy_parse_authinfo x env content)"
  unfolding telnet_policy_parse_authinfo_def by (intro keeps_intros keeps_calls)

end

section \<open>What a verdict rests on\<close>

text \<open>The keys under which the policy hash is asked, most specific first.\<close>

fun first_entry :: "(string \<rightharpoonup> 'v) \<Rightarrow> string list \<Rightarrow> 'v option" where
  "first_entry h [] = None"
| "first_entry h (k # ks) = (case h k of Some v \<Rightarrow> Some v | None \<Rightarrow> first_entry h ks)"

definition option_keys :: "byte \<Rightarrow> string list" where
  "option_keys option = [decimal (unat option), []]"

definition suboption_keys :: "byte \<Rightarrow> byte \<Rightarrow> string list" where
  "suboption_keys option subcommand =
     (let a = decimal (unat option); b = decimal (unat subcommand)
      in [a @ ''::'' @ b, a @ ''::'', ''::'' @ b, ''::'', a, []])"

lemma keypart_decimal [simp]: "keypart (decimal n) = decimal n"
proof -
  have "CHR ''*'' \<notin> set (decimal n)" by (rule decimal_no_char) simp
  then have "hd (decimal n) \<noteq> CHR ''*''" by (metis decimal_nonempty hd_in_set)
  then show ?thesis by (simp add: keypart_def)
qed

lemma search_order_wild:
  "k \<noteq> [] \<Longrightarrow> search_order [(k, DIMHASH_WILDCARD)] = [[k], [[]]]"
  "k \<noteq> [] \<Longrightarrow> l \<noteq> [] \<Longrightarrow> search_order [(k, DIMHASH_WILDCARD), (l, DIMHASH_WILDCARD)] =
     [[k, l], [k, []], [[], l], [[], []], [k], [[]]]"
  by (simp_all add: search_order_def variants_def upt_conv_Cons)

lemma keypart_empty [simp]: "keypart [] = []"
  by (simp add: keypart_def)

lemma first_match_entries: "first_match h cs = first_entry h (map composite cs)"
  by (induction cs) (auto split: option.splits)

lemma policy_search_keys:
  assumes "policy_safe t"
  shows "z_dim_hash_table_search t [decimal (unat option)] = Inr (first_entry (dh_hash t) (option_keys option))"
    and "z_dim_hash_table_search t [decimal (unat option), decimal (unat sub)] =
      Inr (first_entry (dh_hash t) (suboption_keys option sub))"
  using assms
  by (simp_all add: policy_search [OF assms] policy_safe_def search_order_wild first_match_entries
      composite_def option_keys_def suboption_keys_def Let_def)

text \<open>An entry accepts by itself, or through the function it names, by what the function answers.\<close>

definition entry_accepts :: "pyval \<Rightarrow> (pyval \<Rightarrow> pyval option) \<Rightarrow> bool" where
  "entry_accepts v answer \<longleftrightarrow>
     telnet_hash_get_type v = Inr (Some 1) \<or>
     telnet_hash_get_type v = Inr (Some 6) \<and>
       (case parse_iO v of None \<Rightarrow> False
        | Some (_, f) \<Rightarrow> (case answer f of None \<Rightarrow> False | Some r \<Rightarrow> parse_i r = Some 1))"

lemma function_verdict_accept:
  "fst (run_state (policy_function_verdict x r) s) = ZV_ACCEPT \<longleftrightarrow>
     (case r of None \<Rightarrow> False | Some v \<Rightarrow> parse_i v = Some 1)"
  by (auto simp: policy_function_verdict_def split: option.splits prod.splits)

lemma run_policy_call_object:
  "run_state (policy_call_object x f option nv) s =
     (fst (x_call x (tn_hist s) f option nv (tn_vars s)),
      s\<lparr>tn_hist := EvCall f option nv # tn_hist s, tn_vars := snd (x_call x (tn_hist s) f option nv (tn_vars s))\<rparr>)"
  by (simp add: policy_call_object_def log_event_def set_vars_def split: prod.splits)

section \<open>Properties\<close>

text \<open>C35: An option is accepted exactly when the policy says so: the entry for its number or,
  failing that, the wildcard entry is an accept, or names a function that answers accept. With
  no entry the option is dropped.\<close>

theorem policy_option_accept_iff:
  assumes "policy_safe (tn_policy s)"
  shows "(fst (run_state (telnet_policy_option x ep command option) s) = ZV_ACCEPT \<longleftrightarrow>
      (\<exists>v. first_entry (dh_hash (tn_policy s)) (option_keys option) = Some v \<and>
        entry_accepts v (\<lambda>f. fst (x_call x (tn_hist s) f option None (tn_vars s))))) \<and>
    (first_entry (dh_hash (tn_policy s)) (option_keys option) = None \<longrightarrow>
      run_state (telnet_policy_option x ep command option) s = (ZV_DROP, s))"
  using policy_search_keys(1) [OF assms, of option]
  by (auto simp: telnet_policy_option_def entry_accepts_def function_verdict_accept run_policy_call_object
      split: sum.splits option.splits prod.splits)

text \<open>An environment for concrete runs: every call succeeds, policy functions accept, one password is known.\<close>

definition quiet_ext :: telnet_ext where
  "quiet_ext = \<lparr>x_write = (\<lambda>h ep p. G_IO_STATUS_NORMAL),
     x_call = (\<lambda>h f option nv v. (Some (PyInt 1), v)),
     x_method = (\<lambda>h name args v. ((True, Some (PyInt 1)), v)),
     x_check_passwd = (\<lambda>h user passwd. passwd = bytes_of ''secret''),
     x_user_authenticated = (\<lambda>h user v. (True, v)),
     x_connect_server = (\<lambda>h host port v. (True, v)),
     x_handshake = (\<lambda>h ep pending. (True, pending))\<rparr>"

text \<open>Terminal type by a function, everything else of the options refused.\<close>

definition sample_policy :: "pyval dimhash" where
  "sample_policy = dh_ins (dh_ins (z_dim_hash_table_new 1 [DIMHASH_WILDCARD, DIMHASH_WILDCARD])
     [''24''] (PySeq [PyInt 6, PyCallable 0])) [''*''] (PyInt 3)"

lemma sample_policy_hash:
  "dh_hash sample_policy = [''24'' \<mapsto> PySeq [PyInt 6, PyCallable 0], [] \<mapsto> PyInt 3]"
  by (rule ext) code_simp

lemma sample_policy_safe: "policy_safe sample_policy"
proof -
  have "dh_minkeynum sample_policy = 1 \<and> dh_keynum sample_policy = 2 \<and>
      dh_flags sample_policy = [DIMHASH_WILDCARD, DIMHASH_WILDCARD]" by code_simp
  then show ?thesis by (simp add: policy_safe_def sample_policy_hash)
qed

theorem policy_option_accept_iff_witness:
  "policy_safe sample_policy \<and>
   fst (run_state (telnet_policy_option quiet_ext EP_CLIENT TELNET_CMD_WILL 24)
     (telnet_set_defaults\<lparr>tn_policy := sample_policy\<rparr>)) = ZV_ACCEPT"
proof -
  let ?s = "telnet_set_defaults\<lparr>tn_policy := sample_policy\<rparr>"
  have safe: "policy_safe (tn_policy ?s)" using sample_policy_safe by simp
  have "first_entry (dh_hash (tn_policy ?s)) (option_keys 24) = Some (PySeq [PyInt 6, PyCallable 0])"
    by code_simp
  moreover have "entry_accepts (PySeq [PyInt 6, PyCallable 0]) (\<lambda>f. fst (x_call quiet_ext (tn_hist ?s) f 24 None (tn_vars ?s)))"
    by code_simp
  ultimately show ?thesis
    using policy_option_accept_iff [OF safe, of quiet_ext EP_CLIENT TELNET_CMD_WILL 24] sample_policy_safe by blast
qed

text \<open>A suboption is accepted exactly when the most specific policy entry for its option and
  subcommand accepts it, by itself or by a function that is told the name and the value (as C
  strings) for the options that have them. Without an entry it is dropped.\<close>

theorem policy_suboption_accept_iff:
  assumes "policy_safe (tn_policy s)"
  shows "(fst (run_state (telnet_policy_suboption x ep option subcommand name value) s) = ZV_ACCEPT \<longleftrightarrow>
      (\<exists>v. first_entry (dh_hash (tn_policy s)) (suboption_keys option subcommand) = Some v \<and>
        entry_accepts v (\<lambda>f. fst (x_call x (tn_hist s) f option
          (if subopt_named option then Some (cstr name, cstr value) else None) (tn_vars s))))) \<and>
    (first_entry (dh_hash (tn_policy s)) (suboption_keys option subcommand) = None \<longrightarrow>
      run_state (telnet_policy_suboption x ep option subcommand name value) s = (ZV_DROP, s))"
  using policy_search_keys(2) [OF assms, of option subcommand]
  by (auto simp: telnet_policy_suboption_def entry_accepts_def function_verdict_accept run_policy_call_object
      split: sum.splits option.splits prod.splits)

theorem policy_suboption_accept_iff_witness:
  "policy_safe sample_policy \<and>
   fst (run_state (telnet_policy_suboption quiet_ext EP_CLIENT 24 0 [65] [66])
     (telnet_set_defaults\<lparr>tn_policy := sample_policy\<rparr>)) = ZV_ACCEPT"
proof -
  let ?s = "telnet_set_defaults\<lparr>tn_policy := sample_policy\<rparr>"
  have safe: "policy_safe (tn_policy ?s)" using sample_policy_safe by simp
  have "first_entry (dh_hash (tn_policy ?s)) (suboption_keys 24 0) = Some (PySeq [PyInt 6, PyCallable 0])"
    by code_simp
  moreover have "entry_accepts (PySeq [PyInt 6, PyCallable 0]) (\<lambda>f. fst (x_call quiet_ext (tn_hist ?s) f 24
      (if subopt_named 24 then Some (cstr [65], cstr [66]) else None) (tn_vars ?s)))"
    by code_simp
  ultimately show ?thesis
    using policy_suboption_accept_iff [OF safe, of quiet_ext EP_CLIENT 24 0 "[65]" "[66]"] sample_policy_safe
    by blast
qed

end
