(* ===== verification/Telnet_Suboption.thy ===== *)
theory Telnet_Suboption
  imports Telnet_Policy
begin

text \<open>
  The suboption filters of \<^verbatim>\<open>modules/telnet/telnetsuboption.cc\<close>. A filter gets the suboption
  buffer with the option byte already read; it returns the verdict and the buffer that is
  forwarded on acceptance. The loops over an environment list work on the unread bytes and
  consume at least one in every round.
\<close>

section \<open>Codes and buffer helpers\<close>

abbreviation TELNET_SB_IS :: byte where "TELNET_SB_IS \<equiv> 0"
abbreviation TELNET_SB_SEND :: byte where "TELNET_SB_SEND \<equiv> 1"
abbreviation TELNET_SB_INFO :: byte where "TELNET_SB_INFO \<equiv> 2"

abbreviation TELNET_OPTARG_ENVIRONMENT_VAR :: byte where "TELNET_OPTARG_ENVIRONMENT_VAR \<equiv> 0"
abbreviation TELNET_OPTARG_ENVIRONMENT_VALUE :: byte where "TELNET_OPTARG_ENVIRONMENT_VALUE \<equiv> 1"
abbreviation TELNET_OPTARG_ENVIRONMENT_ESC :: byte where "TELNET_OPTARG_ENVIRONMENT_ESC \<equiv> 2"
abbreviation TELNET_OPTARG_ENVIRONMENT_USERVAR :: byte where "TELNET_OPTARG_ENVIRONMENT_USERVAR \<equiv> 3"

definition TELNET_POLICY_TERMTYPE_NAME :: bytes where "TELNET_POLICY_TERMTYPE_NAME = bytes_of ''TERMINAL_TYPE''"
definition TELNET_POLICY_TERMSPEED_NAME :: bytes where "TELNET_POLICY_TERMSPEED_NAME = bytes_of ''TERMINAL_SPEED''"
definition TELNET_POLICY_XDISPLAY_NAME :: bytes where "TELNET_POLICY_XDISPLAY_NAME = bytes_of ''X_DISPLAY_LOCATION''"
definition TELNET_POLICY_NAWS_NAME :: bytes where "TELNET_POLICY_NAWS_NAME = bytes_of ''WINDOW_SIZE''"

definition TELNET_TERMINAL_TYPE_MAX_LENGTH :: nat where "TELNET_TERMINAL_TYPE_MAX_LENGTH = 128"
definition TELNET_X_DISPLAY_LOCATION_MAX_LENGTH :: nat where "TELNET_X_DISPLAY_LOCATION_MAX_LENGTH = 128"
definition TELNET_TERMINAL_SPEED_MAX_LENGTH :: nat where "TELNET_TERMINAL_SPEED_MAX_LENGTH = 64"
definition TELNET_NEW_ENVIRONMENT_MAX_LENGTH :: nat where "TELNET_NEW_ENVIRONMENT_MAX_LENGTH = 512"

lemmas subopt_limits =
  TELNET_TERMINAL_TYPE_MAX_LENGTH_def TELNET_X_DISPLAY_LOCATION_MAX_LENGTH_def
  TELNET_TERMINAL_SPEED_MAX_LENGTH_def TELNET_NEW_ENVIRONMENT_MAX_LENGTH_def

text \<open>The option and the subcommand byte stay, the rest is replaced.\<close>

definition update_suboption_value_in_buffer :: "pktbuf \<Rightarrow> bytes \<Rightarrow> pktbuf" where
  "update_suboption_value_in_buffer buf value = buf\<lparr>pb_data := take 2 (pb_data buf) @ value\<rparr>"

definition update_suboption_value_in_buffer_from_str :: "pktbuf \<Rightarrow> bytes \<Rightarrow> pktbuf" where
  "update_suboption_value_in_buffer_from_str buf value = buf\<lparr>pb_data := take 2 (pb_data buf) @ value\<rparr>"

text \<open>Truncating the string to the number of unread bytes and overwriting it leaves just these bytes.\<close>

definition set_string_from_buffer_contents :: "pktbuf \<Rightarrow> bytes" where
  "set_string_from_buffer_contents buf = pb_rest buf"

section \<open>Terminal type, terminal speed, X display location\<close>

definition g_ascii_isdigit :: "byte \<Rightarrow> bool" where
  "g_ascii_isdigit c \<longleftrightarrow> 48 \<le> c \<and> c \<le> 57"

definition g_ascii_isalnum :: "byte \<Rightarrow> bool" where
  "g_ascii_isalnum c \<longleftrightarrow> g_ascii_isdigit c \<or> (65 \<le> c \<and> c \<le> 90) \<or> (97 \<le> c \<and> c \<le> 122)"

definition terminal_type_value_validate :: "bytes \<Rightarrow> bool" where
  "terminal_type_value_validate v = list_all (\<lambda>c. g_ascii_isalnum c \<or> c = of_char CHR ''-'') v"

definition terminal_speed_value_validate :: "bytes \<Rightarrow> bool" where
  "terminal_speed_value_validate v = list_all (\<lambda>c. g_ascii_isdigit c \<or> c = of_char CHR '','') v"

definition x_display_value_validate :: "bytes \<Rightarrow> bool" where
  "x_display_value_validate v =
     list_all (\<lambda>c. g_ascii_isalnum c \<or> c = of_char CHR ''.'' \<or> c = of_char CHR '':'' \<or>
       c = of_char CHR ''_'' \<or> c = of_char CHR ''-'') v"

definition telnet_subopt_terminal_type ::
  "telnet_ext \<Rightarrow> endpoint \<Rightarrow> byte \<Rightarrow> pktbuf \<Rightarrow> (ZVerdict \<times> pktbuf) tm" where
  "telnet_subopt_terminal_type x ep option suboption_buffer =
     (case pb_get_u8 suboption_buffer of
        None \<Rightarrow> return (ZV_DROP, suboption_buffer)
      | Some (subcommand, buf) \<Rightarrow>
          if subcommand = TELNET_SB_SEND then
            (if pb_available buf \<noteq> 0 then return (ZV_DROP, buf)
             else do {
               opts \<leftarrow> gets tn_options;
               if \<not> telnet_option_will opts ep option then return (ZV_DROP, buf)
               else do {
                 upd_vars (\<lambda>v. v\<lparr>policy_name := TELNET_POLICY_TERMTYPE_NAME, policy_value := []\<rparr>);
                 res \<leftarrow> telnet_policy_suboption x ep option subcommand TELNET_POLICY_TERMTYPE_NAME [];
                 return (res, buf)
               }
             })
          else if subcommand = TELNET_SB_IS then do {
            opts \<leftarrow> gets tn_options;
            if \<not> telnet_option_do opts ep option then return (ZV_DROP, buf)
            else if pb_available buf > TELNET_TERMINAL_TYPE_MAX_LENGTH then return (ZV_DROP, buf)
            else do {
              upd_vars (\<lambda>v. v\<lparr>policy_value := set_string_from_buffer_contents buf\<rparr>);
              value \<leftarrow> gets (\<lambda>s. policy_value (tn_vars s));
              if \<not> terminal_type_value_validate value then return (ZV_DROP, buf)
              else do {
                upd_vars (\<lambda>v. v\<lparr>policy_name := TELNET_POLICY_TERMTYPE_NAME\<rparr>);
                res \<leftarrow> telnet_policy_suboption x ep option subcommand TELNET_POLICY_TERMTYPE_NAME value;
                value' \<leftarrow> gets (\<lambda>s. policy_value (tn_vars s));
                return (res, if res = ZV_ACCEPT then update_suboption_value_in_buffer_from_str buf value' else buf)
              }
            }
          }
          else return (ZV_DROP, buf))"

definition telnet_subopt_terminal_speed ::
  "telnet_ext \<Rightarrow> endpoint \<Rightarrow> byte \<Rightarrow> pktbuf \<Rightarrow> (ZVerdict \<times> pktbuf) tm" where
  "telnet_subopt_terminal_speed x ep option suboption_buffer =
     (case pb_get_u8 suboption_buffer of
        None \<Rightarrow> return (ZV_DROP, suboption_buffer)
      | Some (subcommand, buf) \<Rightarrow>
          if subcommand = TELNET_SB_SEND then
            (if pb_available buf \<noteq> 0 then return (ZV_DROP, buf)
             else do {
               opts \<leftarrow> gets tn_options;
               if \<not> telnet_option_will opts ep option then return (ZV_DROP, buf)
               else do {
                 upd_vars (\<lambda>v. v\<lparr>policy_name := TELNET_POLICY_TERMSPEED_NAME, policy_value := []\<rparr>);
                 res \<leftarrow> telnet_policy_suboption x ep option subcommand TELNET_POLICY_TERMSPEED_NAME [];
                 return (res, buf)
               }
             })
          else if subcommand = TELNET_SB_IS then do {
            opts \<leftarrow> gets tn_options;
            if \<not> telnet_option_do opts ep option then return (ZV_DROP, buf)
            else if pb_available buf > TELNET_TERMINAL_SPEED_MAX_LENGTH then return (ZV_DROP, buf)
            else do {
              upd_vars (\<lambda>v. v\<lparr>policy_value := set_string_from_buffer_contents buf\<rparr>);
              value \<leftarrow> gets (\<lambda>s. policy_value (tn_vars s));
              if \<not> terminal_speed_value_validate value then return (ZV_DROP, buf)
              else do {
                upd_vars (\<lambda>v. v\<lparr>policy_name := TELNET_POLICY_TERMSPEED_NAME\<rparr>);
                res \<leftarrow> telnet_policy_suboption x ep option subcommand TELNET_POLICY_TERMSPEED_NAME value;
                value' \<leftarrow> gets (\<lambda>s. policy_value (tn_vars s));
                return (res, if res = ZV_ACCEPT then update_suboption_value_in_buffer_from_str buf value' else buf)
              }
            }
          }
          else return (ZV_DROP, buf))"

definition telnet_subopt_x_display ::
  "telnet_ext \<Rightarrow> endpoint \<Rightarrow> byte \<Rightarrow> pktbuf \<Rightarrow> (ZVerdict \<times> pktbuf) tm" where
  "telnet_subopt_x_display x ep option suboption_buffer =
     (case pb_get_u8 suboption_buffer of
        None \<Rightarrow> return (ZV_DROP, suboption_buffer)
      | Some (subcommand, buf) \<Rightarrow>
          if subcommand = TELNET_SB_SEND then
            (if pb_available buf \<noteq> 0 then return (ZV_DROP, buf)
             else do {
               opts \<leftarrow> gets tn_options;
               if \<not> telnet_option_will opts ep option then return (ZV_DROP, buf)
               else do {
                 upd_vars (\<lambda>v. v\<lparr>policy_name := TELNET_POLICY_XDISPLAY_NAME, policy_value := []\<rparr>);
                 res \<leftarrow> telnet_policy_suboption x ep option subcommand TELNET_POLICY_XDISPLAY_NAME [];
                 return (res, buf)
               }
             })
          else if subcommand = TELNET_SB_IS then do {
            opts \<leftarrow> gets tn_options;
            if \<not> telnet_option_do opts ep option then return (ZV_DROP, buf)
            else if pb_available buf \<ge> TELNET_X_DISPLAY_LOCATION_MAX_LENGTH then return (ZV_DROP, buf)
            else do {
              upd_vars (\<lambda>v. v\<lparr>policy_value := set_string_from_buffer_contents buf\<rparr>);
              value \<leftarrow> gets (\<lambda>s. policy_value (tn_vars s));
              if \<not> x_display_value_validate value then return (ZV_DROP, buf)
              else do {
                upd_vars (\<lambda>v. v\<lparr>policy_name := TELNET_POLICY_XDISPLAY_NAME\<rparr>);
                res \<leftarrow> telnet_policy_suboption x ep option subcommand TELNET_POLICY_XDISPLAY_NAME value;
                value' \<leftarrow> gets (\<lambda>s. policy_value (tn_vars s));
                return (res, if res = ZV_ACCEPT then update_suboption_value_in_buffer_from_str buf value' else buf)
              }
            }
          }
          else return (ZV_DROP, buf))"

section \<open>Environment variables\<close>

text \<open>
  A name or a value, with the escapes removed, and the bytes after it. An escape at the very
  end is dropped.
\<close>

fun parse_environment_name_or_value :: "bytes \<Rightarrow> bytes \<times> bytes" where
  "parse_environment_name_or_value [] = ([], [])"
| "parse_environment_name_or_value (byte # buf) =
     (if byte = TELNET_OPTARG_ENVIRONMENT_VAR \<or> byte = TELNET_OPTARG_ENVIRONMENT_USERVAR \<or>
         byte = TELNET_OPTARG_ENVIRONMENT_VALUE
      then ([], byte # buf)
      else if byte = TELNET_OPTARG_ENVIRONMENT_ESC \<or> byte = TELNET_IAC then
        (case buf of
           [] \<Rightarrow> ([], [])
         | byte' # buf' \<Rightarrow>
             (case parse_environment_name_or_value buf' of (string, rest) \<Rightarrow> (byte' # string, rest)))
      else (case parse_environment_name_or_value buf of (string, rest) \<Rightarrow> (byte # string, rest)))"

lemma parse_environment_shrinks:
  "length (snd (parse_environment_name_or_value bs)) \<le> length bs"
proof (induction bs rule: length_induct)
  case (1 bs)
  show ?case
  proof (cases bs)
    case (Cons b bs1)
    have "length (snd (parse_environment_name_or_value bs1)) \<le> length bs1"
      using "1" Cons by simp
    moreover have "length (snd (parse_environment_name_or_value (tl bs1))) \<le> length (tl bs1)"
      using "1" Cons by (metis (no_types, lifting) length_Cons length_tl diff_le_self le_imp_less_Suc)
    ultimately show ?thesis
      using Cons by (cases bs1) (simp_all add: case_prod_unfold)
  qed simp
qed

lemma parse_environment_consumes:
  "parse_environment_name_or_value bs = (s, rest) \<Longrightarrow> length rest \<le> length bs"
  using parse_environment_shrinks [of bs] by simp

definition filter_user_variable :: "telnet_ext \<Rightarrow> ZVerdict tm" where
  "filter_user_variable x = do {
     s \<leftarrow> gets (\<lambda>s. s);
     if \<not> telnet_state_is_connected s then do {
       ok \<leftarrow> telnet_policy_parse_authinfo x ''USER'' (policy_value (tn_vars s));
       return (if ok then ZV_ACCEPT else ZV_ABORT)
     }
     else do {
       (if tn_server_hostname_is_from_env s \<or> tn_gateway_user_is_from_env s
        then upd_vars (\<lambda>v. v\<lparr>policy_value := username v\<rparr>) else return ());
       return ZV_ACCEPT
     }
   }"

definition filter_special_variable :: "telnet_ext \<Rightarrow> ZVerdict tm" where
  "filter_special_variable x = do {
     s \<leftarrow> gets (\<lambda>s. s);
     let name = cstr (policy_name (tn_vars s));
     let value = policy_value (tn_vars s);
     if name = bytes_of ''SERVER'' then
       (if \<not> telnet_state_is_connected s then do {
          ok \<leftarrow> telnet_policy_parse_authinfo x ''SERVER'' value;
          return (if ok then ZV_DROP else ZV_ABORT)
        }
        else return ZV_DROP)
     else if name = bytes_of ''USER'' then filter_user_variable x
     else if name = bytes_of ''GW_USER'' \<and> tn_gw_auth_required s then do {
       (if \<not> telnet_state_is_connected s \<and> gateway_user (tn_vars s) = [] then do {
          upd_vars (\<lambda>v. v\<lparr>gateway_user := cstr value\<rparr>);
          modify (\<lambda>s. s\<lparr>tn_gateway_user_is_from_env := True\<rparr>)
        }
        else return ());
       return ZV_DROP
     }
     else if name = bytes_of ''GW_PASSWD'' \<and> tn_gw_auth_required s then do {
       (if \<not> telnet_state_is_connected s \<and> tn_gateway_password s = []
        then modify (\<lambda>s. s\<lparr>tn_gateway_password := cstr value, tn_gateway_password_is_from_env := True\<rparr>)
        else return ());
       return ZV_DROP
     }
     else return ZV_ACCEPT
   }"

text \<open>The verdict and the bytes that go into the filtered list: name and value without any escape.\<close>

definition check_and_copy_environment_name_value_pair ::
  "telnet_ext \<Rightarrow> endpoint \<Rightarrow> byte \<Rightarrow> byte \<Rightarrow> byte \<Rightarrow> bool \<Rightarrow> (ZVerdict \<times> bytes) tm" where
  "check_and_copy_environment_name_value_pair x ep option subcommand type value_present = do {
     s \<leftarrow> gets (\<lambda>s. s);
     res \<leftarrow> (if subcommand = TELNET_SB_IS \<and>
                (type = TELNET_OPTARG_ENVIRONMENT_VAR \<or> type = TELNET_OPTARG_ENVIRONMENT_USERVAR) \<and>
                \<not> telnet_proxy_is_transparent s
             then filter_special_variable x else return ZV_ACCEPT);
     v \<leftarrow> gets tn_vars;
     res' \<leftarrow> (if res = ZV_ACCEPT
              then telnet_policy_suboption x ep option subcommand (policy_name v) (policy_value v)
              else return res);
     v' \<leftarrow> gets tn_vars;
     return (res',
       if res' = ZV_ACCEPT then
         type # policy_name v' @
           (if value_present \<or> length (policy_value v') > 0
            then TELNET_OPTARG_ENVIRONMENT_VALUE # policy_value v' else [])
       else if res' = ZV_REJECT then type # policy_name v'
       else [])
   }"

text \<open>The loop of a SEND request: the unread bytes, the last verdict and the filtered list so far.\<close>

function process_environment_send_loop ::
  "telnet_ext \<Rightarrow> endpoint \<Rightarrow> byte \<Rightarrow> byte \<Rightarrow> bytes \<Rightarrow> ZVerdict \<Rightarrow> bytes \<Rightarrow> (ZVerdict \<times> bytes) tm" where
  "process_environment_send_loop x ep option subcommand [] res filtered = return (res, filtered)"
| "process_environment_send_loop x ep option subcommand (type # buf) res filtered =
     (if res = ZV_ABORT then return (res, filtered)
      else if type = TELNET_OPTARG_ENVIRONMENT_VAR \<or> type = TELNET_OPTARG_ENVIRONMENT_USERVAR then
        (case parse_environment_name_or_value buf of (name, buf') \<Rightarrow> do {
           upd_vars (\<lambda>v. v\<lparr>policy_name := name, policy_value := []\<rparr>);
           (res', out) \<leftarrow> check_and_copy_environment_name_value_pair x ep option subcommand type False;
           process_environment_send_loop x ep option subcommand buf' res' (filtered @ out)
         })
      else return (ZV_DROP, filtered))"
  by pat_completeness auto
termination
  by (relation "measure (\<lambda>(x, ep, option, subcommand, buf, res, filtered). length buf)")
    (auto dest: parse_environment_consumes [OF sym])

definition process_environment_send ::
  "telnet_ext \<Rightarrow> endpoint \<Rightarrow> byte \<Rightarrow> byte \<Rightarrow> pktbuf \<Rightarrow> (ZVerdict \<times> pktbuf) tm" where
  "process_environment_send x ep option subcommand suboption_buffer = do {
     opts \<leftarrow> gets tn_options;
     if \<not> telnet_option_will opts ep option then return (ZV_DROP, suboption_buffer)
     else if pb_available suboption_buffer > TELNET_NEW_ENVIRONMENT_MAX_LENGTH then
       return (ZV_DROP, suboption_buffer)
     else if pb_available suboption_buffer > 0 then do {
       (res, filtered) \<leftarrow> process_environment_send_loop x ep option subcommand (pb_rest suboption_buffer) ZV_DROP [];
       return (if res \<noteq> ZV_ABORT then ZV_ACCEPT else res,
         update_suboption_value_in_buffer suboption_buffer filtered)
     }
     else do {
       upd_vars (\<lambda>v. v\<lparr>policy_name := [], policy_value := []\<rparr>);
       res \<leftarrow> telnet_policy_suboption x ep option subcommand [] [];
       return (res, suboption_buffer)
     }
   }"

text \<open>
  The loop of an IS or INFO reply: also whether a variable name is waiting for its value, and
  the type it was given with.
\<close>

function process_environment_is_loop ::
  "telnet_ext \<Rightarrow> endpoint \<Rightarrow> byte \<Rightarrow> byte \<Rightarrow> bytes \<Rightarrow> ZVerdict \<Rightarrow> bool \<Rightarrow> byte \<Rightarrow> bytes \<Rightarrow>
   (ZVerdict \<times> bool \<times> byte \<times> bytes) tm" where
  "process_environment_is_loop x ep option subcommand [] res name_set vtype filtered =
     return (res, name_set, vtype, filtered)"
| "process_environment_is_loop x ep option subcommand (type # buf) res name_set vtype filtered =
     (if res = ZV_ABORT then return (res, name_set, vtype, filtered)
      else if type = TELNET_OPTARG_ENVIRONMENT_VAR \<or> type = TELNET_OPTARG_ENVIRONMENT_USERVAR then do {
        (res', out) \<leftarrow> (if name_set then do {
             upd_vars (\<lambda>v. v\<lparr>policy_value := []\<rparr>);
             check_and_copy_environment_name_value_pair x ep option subcommand vtype False
           } else return (res, []));
        case parse_environment_name_or_value buf of (name, buf') \<Rightarrow> do {
          upd_vars (\<lambda>v. v\<lparr>policy_name := name\<rparr>);
          process_environment_is_loop x ep option subcommand buf' res' True type (filtered @ out)
        }
      }
      else if type = TELNET_OPTARG_ENVIRONMENT_VALUE then
        (case parse_environment_name_or_value buf of (value, buf') \<Rightarrow> do {
           upd_vars (\<lambda>v. v\<lparr>policy_value := value\<rparr>);
           if name_set then do {
             (res', out) \<leftarrow> check_and_copy_environment_name_value_pair x ep option subcommand vtype True;
             process_environment_is_loop x ep option subcommand buf' res' False vtype (filtered @ out)
           }
           else process_environment_is_loop x ep option subcommand buf' ZV_DROP name_set vtype filtered
         })
      else return (ZV_DROP, name_set, vtype, filtered))"
  by pat_completeness auto
termination
  by (relation "measure (\<lambda>(x, ep, option, subcommand, buf, res, name_set, vtype, filtered). length buf)")
    (auto dest: parse_environment_consumes [OF sym])

definition process_environment_is ::
  "telnet_ext \<Rightarrow> endpoint \<Rightarrow> byte \<Rightarrow> byte \<Rightarrow> pktbuf \<Rightarrow> (ZVerdict \<times> pktbuf) tm" where
  "process_environment_is x ep option subcommand suboption_buffer = do {
     s \<leftarrow> gets (\<lambda>s. s);
     if \<not> telnet_option_do (tn_options s) ep option then return (ZV_DROP, suboption_buffer)
     else do {
       (if \<not> telnet_state_is_connected s
        then modify (\<lambda>s. s\<lparr>tn_environment_is_received := True\<rparr>) else return ());
       if pb_available suboption_buffer > 0 then do {
         (res, name_set, vtype, filtered) \<leftarrow>
           process_environment_is_loop x ep option subcommand (pb_rest suboption_buffer) ZV_DROP
             False TELNET_OPTARG_ENVIRONMENT_VAR [];
         (res', out) \<leftarrow> (if res \<noteq> ZV_ABORT \<and> name_set then do {
              upd_vars (\<lambda>v. v\<lparr>policy_value := []\<rparr>);
              check_and_copy_environment_name_value_pair x ep option subcommand vtype False
            } else return (res, []));
         return (if res' \<noteq> ZV_ABORT then ZV_ACCEPT else res',
           update_suboption_value_in_buffer suboption_buffer (filtered @ out))
       }
       else do {
         upd_vars (\<lambda>v. v\<lparr>policy_name := [], policy_value := []\<rparr>);
         res \<leftarrow> telnet_policy_suboption x ep option subcommand [] [];
         return (res, suboption_buffer)
       }
     }
   }"

definition telnet_subopt_new_env ::
  "telnet_ext \<Rightarrow> endpoint \<Rightarrow> byte \<Rightarrow> pktbuf \<Rightarrow> (ZVerdict \<times> pktbuf) tm" where
  "telnet_subopt_new_env x ep option suboption_buffer =
     (case pb_get_u8 suboption_buffer of
        None \<Rightarrow> return (ZV_DROP, suboption_buffer)
      | Some (subcommand, buf) \<Rightarrow>
          if subcommand = TELNET_SB_SEND then process_environment_send x ep option subcommand buf
          else if subcommand = TELNET_SB_IS \<or> subcommand = TELNET_SB_INFO then
            process_environment_is x ep option subcommand buf
          else return (ZV_DROP, buf))"

section \<open>Window size and unknown suboptions\<close>

definition u16_be :: "byte \<Rightarrow> byte \<Rightarrow> nat" where
  "u16_be hi lo = 256 * unat hi + unat lo"

definition telnet_subopt_naws ::
  "telnet_ext \<Rightarrow> endpoint \<Rightarrow> byte \<Rightarrow> pktbuf \<Rightarrow> (ZVerdict \<times> pktbuf) tm" where
  "telnet_subopt_naws x ep option suboption_buffer =
     (case pb_rest suboption_buffer of
        [a, b, c, d] \<Rightarrow> do {
          opts \<leftarrow> gets tn_options;
          if \<not> telnet_option_do opts ep option then return (ZV_DROP, suboption_buffer)
          else do {
            let value = bytes_of (decimal (u16_be a b) @ '','' @ decimal (u16_be c d));
            upd_vars (\<lambda>v. v\<lparr>policy_name := TELNET_POLICY_NAWS_NAME, policy_value := value\<rparr>);
            res \<leftarrow> telnet_policy_suboption x ep option 0 TELNET_POLICY_NAWS_NAME value;
            return (res, suboption_buffer\<lparr>pb_pos := pb_pos suboption_buffer + 4\<rparr>)
          }
        }
      | _ \<Rightarrow> return (ZV_DROP, suboption_buffer))"

definition telnet_subopt_unknown ::
  "telnet_ext \<Rightarrow> endpoint \<Rightarrow> byte \<Rightarrow> pktbuf \<Rightarrow> (ZVerdict \<times> pktbuf) tm" where
  "telnet_subopt_unknown x ep option suboption_buffer =
     (case pb_get_u8 suboption_buffer of
        None \<Rightarrow> return (ZV_DROP, suboption_buffer)
      | Some (subcommand, buf) \<Rightarrow> do {
          upd_vars (\<lambda>v. v\<lparr>policy_name := [], policy_value := set_string_from_buffer_contents buf\<rparr>);
          res \<leftarrow> telnet_policy_suboption x ep option subcommand [] (set_string_from_buffer_contents buf);
          return (res, buf)
        })"

section \<open>Frame\<close>

context session_frame
begin

lemmas suboption_intros = keeps_intros keeps_vars keeps_policy_suboption keeps_parse_authinfo

lemma keeps_flat_subopts:
  "keeps I (telnet_subopt_terminal_type x ep option buf)"
  "keeps I (telnet_subopt_terminal_speed x ep option buf)"
  "keeps I (telnet_subopt_x_display x ep option buf)"
  "keeps I (telnet_subopt_unknown x ep option buf)"
  unfolding telnet_subopt_terminal_type_def telnet_subopt_terminal_speed_def telnet_subopt_x_display_def
    telnet_subopt_unknown_def
  by (intro suboption_intros)+

lemma keeps_subopt_naws: "keeps I (telnet_subopt_naws x ep option buf)"
  unfolding telnet_subopt_naws_def by (intro suboption_intros)

lemma keeps_filter_special: "keeps I (filter_user_variable x)" "keeps I (filter_special_variable x)"
proof -
  show user: "keeps I (filter_user_variable x)"
    unfolding filter_user_variable_def by (intro suboption_intros)
  show "keeps I (filter_special_variable x)"
    unfolding filter_special_variable_def
    by (intro suboption_intros user keeps_local; simp add: core_def)
qed

lemma keeps_check_and_copy:
  "keeps I (check_and_copy_environment_name_value_pair x ep option subcommand type value_present)"
  unfolding check_and_copy_environment_name_value_pair_def
  by (intro suboption_intros keeps_filter_special)

lemma keeps_environment_send_loop:
  "keeps I (process_environment_send_loop x ep option subcommand buf res filtered)"
  by (induction x ep option subcommand buf res filtered rule: process_environment_send_loop.induct)
    (simp_all only: process_environment_send_loop.simps,
      intro suboption_intros keeps_check_and_copy, simp_all add: suboption_intros keeps_check_and_copy)

lemma keeps_environment_is_loop:
  "keeps I (process_environment_is_loop x ep option subcommand buf res name_set vtype filtered)"
  by (induction x ep option subcommand buf res name_set vtype filtered rule: process_environment_is_loop.induct)
    (simp_all only: process_environment_is_loop.simps,
      intro suboption_intros keeps_check_and_copy, simp_all add: suboption_intros keeps_check_and_copy)

lemma keeps_subopt_new_env: "keeps I (telnet_subopt_new_env x ep option buf)"
  unfolding telnet_subopt_new_env_def process_environment_send_def process_environment_is_def
  by (intro suboption_intros keeps_environment_send_loop keeps_environment_is_loop keeps_check_and_copy
      keeps_local; simp add: core_def)

end

section \<open>Lemmas\<close>

lemma run_upd_vars [simp]: "run_state (upd_vars f) s = ((), s\<lparr>tn_vars := f (tn_vars s)\<rparr>)"
  by (simp add: upd_vars_def)

lemmas flat_subopt_defs =
  telnet_subopt_terminal_type_def telnet_subopt_terminal_speed_def telnet_subopt_x_display_def

text \<open>The filters that check a value: the option's handler, its limit and the characters it allows.\<close>

definition value_filters ::
  "((telnet_ext \<Rightarrow> endpoint \<Rightarrow> byte \<Rightarrow> pktbuf \<Rightarrow> (ZVerdict \<times> pktbuf) tm) \<times> nat \<times> (bytes \<Rightarrow> bool)) list" where
  "value_filters =
     [(telnet_subopt_terminal_type, 128, terminal_type_value_validate),
      (telnet_subopt_terminal_speed, 64, terminal_speed_value_validate),
      (telnet_subopt_x_display, 127, x_display_value_validate)]"

text \<open>Environment lists without escapes: the type of a variable, its name and an optional value.\<close>

type_synonym env_item = "byte \<times> bytes \<times> bytes option"

fun env_item_bytes :: "env_item \<Rightarrow> bytes" where
  "env_item_bytes (type, name, None) = type # name"
| "env_item_bytes (type, name, Some value) = type # name @ TELNET_OPTARG_ENVIRONMENT_VALUE # value"

definition env_bytes :: "env_item list \<Rightarrow> bytes" where
  "env_bytes items = concat (map env_item_bytes items)"

definition env_plain :: "bytes \<Rightarrow> bool" where
  "env_plain bs = list_all (\<lambda>b. b \<notin> {0, 1, 2, 3, 255}) bs"

fun env_item_ok :: "env_item \<Rightarrow> bool" where
  "env_item_ok (type, name, value) \<longleftrightarrow>
     (type = TELNET_OPTARG_ENVIRONMENT_VAR \<or> type = TELNET_OPTARG_ENVIRONMENT_USERVAR) \<and> env_plain name \<and>
     (case value of None \<Rightarrow> True | Some v \<Rightarrow> env_plain v)"

text \<open>The session lets every environment variable through: transparent, and accepted by its policy entry.\<close>

definition env_open :: "byte \<Rightarrow> byte \<Rightarrow> TelnetProxy \<Rightarrow> bool" where
  "env_open option subcommand s \<longleftrightarrow>
     telnet_proxy_is_transparent s \<and> policy_safe (tn_policy s) \<and>
     (case first_entry (dh_hash (tn_policy s)) (suboption_keys option subcommand) of
        None \<Rightarrow> False | Some v \<Rightarrow> telnet_hash_get_type v = Inr (Some 1))"

lemma env_bytes_simps [simp]:
  "env_bytes [] = []" "env_bytes (i # items) = env_item_bytes i @ env_bytes items"
  by (simp_all add: env_bytes_def)

lemma env_item_bytes_nonempty: "env_item_bytes i \<noteq> []"
  by (cases i rule: env_item_bytes.cases) auto

lemma parse_plain:
  assumes "env_plain name" and "rest = [] \<or> hd rest \<in> {0, 1, 3}"
  shows "parse_environment_name_or_value (name @ rest) = (name, rest)"
  using assms(1)
proof (induction name)
  case Nil
  show ?case using assms(2) by (cases rest) auto
next
  case (Cons b name)
  then show ?case by (simp add: env_plain_def)
qed

lemma hd_env_bytes:
  assumes "list_all env_item_ok items" shows "env_bytes items = [] \<or> hd (env_bytes items) \<in> {0, 1, 3}"
proof (cases items)
  case (Cons i rest)
  then show ?thesis using assms by (cases i rule: env_item_bytes.cases) auto
qed simp

lemma env_open_local [simp]:
  "env_open option subcommand (s\<lparr>tn_vars := v\<rparr>) = env_open option subcommand s"
  "env_open option subcommand (s\<lparr>tn_environment_is_received := b\<rparr>) = env_open option subcommand s"
  by (simp_all add: env_open_def telnet_proxy_is_transparent_def)

lemma env_open_accepts:
  assumes "env_open option subcommand s"
  shows "run_state (telnet_policy_suboption x ep option subcommand name value) s = (ZV_ACCEPT, s)"
  using assms policy_search_keys(2) [of "tn_policy s" option subcommand]
  by (auto simp: env_open_def telnet_policy_suboption_def split: option.splits)

lemma env_open_copies:
  assumes "env_open option subcommand s"
  shows "run_state (check_and_copy_environment_name_value_pair x ep option subcommand type value_present) s =
    ((ZV_ACCEPT, type # policy_name (tn_vars s) @
       (if value_present \<or> policy_value (tn_vars s) \<noteq> [] then TELNET_OPTARG_ENVIRONMENT_VALUE # policy_value (tn_vars s)
        else [])), s)"
  using assms env_open_accepts [OF assms, of x ep]
  by (auto simp: check_and_copy_environment_name_value_pair_def env_open_def)

text \<open>What the loop has copied together with the name still waiting for a value.\<close>

abbreviation env_pending :: "bool \<Rightarrow> byte \<Rightarrow> TelnetProxy \<Rightarrow> bytes" where
  "env_pending name_set vtype s \<equiv> (if name_set then vtype # policy_name (tn_vars s) else [])"

lemma env_is_loop_copies:
  assumes "list_all env_item_ok items" and "env_open option subcommand s" and "res \<noteq> ZV_ABORT"
  shows "\<exists>res' name_set' vtype' filtered' s'.
    run_state (process_environment_is_loop x ep option subcommand (env_bytes items) res name_set vtype filtered) s =
      ((res', name_set', vtype', filtered'), s') \<and> env_open option subcommand s' \<and> res' \<noteq> ZV_ABORT \<and>
    filtered' @ env_pending name_set' vtype' s' = filtered @ env_pending name_set vtype s @ env_bytes items"
  using assms
proof (induction items arbitrary: s res name_set vtype filtered)
  case (Cons i items)
  obtain type name val where i: "i = (type, name, val)" by (cases i)
  have hd: "env_bytes items = [] \<or> hd (env_bytes items) \<in> {0, 1, 3}"
    using Cons.prems hd_env_bytes by simp
  have ok: "type = TELNET_OPTARG_ENVIRONMENT_VAR \<or> type = TELNET_OPTARG_ENVIRONMENT_USERVAR" "env_plain name"
    using Cons.prems i by auto
  show ?case
  proof (cases val)
    case None
    then show ?thesis
      using Cons.prems i ok hd
        Cons.IH [of "s\<lparr>tn_vars := tn_vars s\<lparr>policy_value := [], policy_name := name\<rparr>\<rparr>" ZV_ACCEPT True type
          "filtered @ vtype # policy_name (tn_vars s)"]
        Cons.IH [of "s\<lparr>tn_vars := tn_vars s\<lparr>policy_name := name\<rparr>\<rparr>" res True type filtered]
      by (cases name_set) (auto simp: parse_plain env_open_copies)
  next
    case (Some w)
    then have w: "env_plain w" using Cons.prems i by simp
    have 1: "parse_environment_name_or_value (name @ 1 # w @ env_bytes items) = (name, 1 # w @ env_bytes items)"
      using ok by (simp add: parse_plain)
    have 2: "parse_environment_name_or_value (w @ env_bytes items) = (w, env_bytes items)"
      using w hd by (rule parse_plain)
    show ?thesis
      using Cons.prems i ok Some 1 2
        Cons.IH [of "s\<lparr>tn_vars := tn_vars s\<lparr>policy_name := name, policy_value := w\<rparr>\<rparr>" ZV_ACCEPT False type
          "filtered @ env_pending name_set vtype s @ env_item_bytes i"]
      by (cases name_set) (auto simp: env_open_copies)
  qed
qed auto

text \<open>A session in which every option is in use on both sides, for concrete runs.\<close>

definition sample_session :: TelnetProxy where
  "sample_session = telnet_set_defaults\<lparr>tn_policy := dh_ins sample_policy [''39''] (PyInt 1),
     tn_options := (\<lambda>_ _. 15)\<rparr>"

section \<open>Properties\<close>

text \<open>C32: A terminal type, terminal speed or X display value only passes its filter when the
  sender may announce the option, the value is within the limit and has only the allowed
  characters; a request for it only when the option runs the other way and nothing follows it.
  On acceptance the two leading bytes stay and the value forwarded is the one the policy left.\<close>

theorem value_suboption_filtered:
  assumes "(f, limit, valid) \<in> set value_filters"
    and "run_state (f x ep option buf) s = ((ZV_ACCEPT, buf'), s')"
  shows "\<exists>subcommand value. pb_rest buf = subcommand # value \<and>
    (subcommand = TELNET_SB_IS \<and> telnet_option_do (tn_options s) ep option \<and> length value \<le> limit \<and>
       valid value \<and> pb_data buf' = take 2 (pb_data buf) @ policy_value (tn_vars s') \<or>
     subcommand = TELNET_SB_SEND \<and> telnet_option_will (tn_options s) ep option \<and> value = [] \<and>
       pb_data buf' = pb_data buf)"
proof -
  obtain subcommand buf1 where get: "pb_get_u8 buf = Some (subcommand, buf1)"
    using assms by (cases "pb_get_u8 buf") (auto simp: value_filters_def flat_subopt_defs)
  then have rest: "pb_rest buf = subcommand # pb_rest buf1" "pb_data buf1 = pb_data buf"
    using pb_get_u8_Some by auto
  show ?thesis
    using assms get rest
    by (auto simp: value_filters_def flat_subopt_defs subopt_limits pb_available_def
        set_string_from_buffer_contents_def update_suboption_value_in_buffer_from_str_def
        split: if_splits prod.splits)
qed

theorem value_suboption_filtered_witness:
  "\<exists>buf' s'. run_state (telnet_subopt_terminal_type quiet_ext EP_CLIENT 24
      \<lparr>pb_data = [24, 0, 118, 116], pb_pos = 1\<rparr>) sample_session = ((ZV_ACCEPT, buf'), s') \<and>
    terminal_type_value_validate [118, 116] \<and> pb_data buf' = [24, 0] @ policy_value (tn_vars s')"
proof -
  let ?r = "run_state (telnet_subopt_terminal_type quiet_ext EP_CLIENT 24
      \<lparr>pb_data = [24, 0, 118, 116], pb_pos = 1\<rparr>) sample_session"
  have "fst (fst ?r) = ZV_ACCEPT" by code_simp
  then have run: "?r = ((ZV_ACCEPT, snd (fst ?r)), snd ?r)" by (metis prod.collapse)
  have mem: "(telnet_subopt_terminal_type, 128, terminal_type_value_validate) \<in> set value_filters"
    by (simp add: value_filters_def)
  show ?thesis
    using value_suboption_filtered [OF mem run] run by (auto simp: pb_rest_def)
qed



text \<open>C33: In a transparent session whose policy accepts environment variables, a reply that needs
  no escapes is forwarded byte for byte, names without a value included.\<close>

theorem env_reply_forwarded:
  assumes "items \<noteq> []" and "list_all env_item_ok items" and "env_open option subcommand s"
    and "telnet_option_do (tn_options s) ep option" and "length header = 2"
  shows "\<exists>buf' s'. run_state (process_environment_is x ep option subcommand
      \<lparr>pb_data = header @ env_bytes items, pb_pos = 2\<rparr>) s = ((ZV_ACCEPT, buf'), s') \<and>
    pb_data buf' = header @ env_bytes items"
proof -
  let ?s = "if telnet_state_is_connected s then s else s\<lparr>tn_environment_is_received := True\<rparr>"
  have "env_bytes items \<noteq> []"
    using assms(1) by (cases items) (auto simp: env_item_bytes_nonempty)
  moreover have opens: "env_open option subcommand ?s" using assms(3) by simp
  moreover obtain res' name_set' vtype' filtered' s' where loop:
    "run_state (process_environment_is_loop x ep option subcommand (env_bytes items) ZV_DROP False 0 []) ?s =
      ((res', name_set', vtype', filtered'), s')" "env_open option subcommand s'" "res' \<noteq> ZV_ABORT"
    "filtered' @ env_pending name_set' vtype' s' = env_bytes items"
    using env_is_loop_copies [OF assms(2) opens, of ZV_DROP x ep False 0 "[]"] by auto
  ultimately show ?thesis
    using assms(4,5) loop(1)
    by (cases name_set'; cases "telnet_state_is_connected s")
      (auto simp: process_environment_is_def pb_rest_def pb_available_def env_open_copies
        update_suboption_value_in_buffer_def)
qed

theorem env_reply_forwarded_witness:
  "\<exists>buf' s'. run_state (process_environment_is quiet_ext EP_CLIENT 39 0
      \<lparr>pb_data = [39, 0] @ env_bytes [(0, [65], Some [66, 67]), (3, [68], None)], pb_pos = 2\<rparr>) sample_session =
      ((ZV_ACCEPT, buf'), s') \<and> pb_data buf' = [39, 0, 0, 65, 1, 66, 67, 3, 68]"
proof -
  have safe: "policy_safe (tn_policy sample_session)"
  proof -
    have "dh_minkeynum (tn_policy sample_session) = 1 \<and> dh_keynum (tn_policy sample_session) = 2 \<and>
      dh_flags (tn_policy sample_session) = [DIMHASH_WILDCARD, DIMHASH_WILDCARD]" by code_simp
    moreover have "dh_hash (tn_policy sample_session) =
        [''24'' \<mapsto> PySeq [PyInt 6, PyCallable 0], [] \<mapsto> PyInt 3, ''39'' \<mapsto> PyInt 1]"
      by (rule ext) code_simp
    ultimately show ?thesis by (simp add: policy_safe_def)
  qed
  have "telnet_proxy_is_transparent sample_session \<and>
    (case first_entry (dh_hash (tn_policy sample_session)) (suboption_keys 39 0) of
        None \<Rightarrow> False | Some v \<Rightarrow> telnet_hash_get_type v = Inr (Some 1))" by code_simp
  with safe have opens: "env_open 39 0 sample_session" by (simp add: env_open_def)
  have "telnet_option_do (tn_options sample_session) EP_CLIENT 39" by code_simp
  with env_reply_forwarded [OF _ _ opens, of "[(0, [65], Some [66, 67]), (3, [68], None)]" EP_CLIENT "[39, 0]"]
  show ?thesis by (simp add: env_plain_def)
qed

text \<open>C34: Escapes are removed when a variable name is read and never put back when it is copied: a
  name with an escaped separator in it becomes two variables for the receiver, of which the
  policy was only told the first.\<close>

theorem env_escape_smuggles:
  assumes "env_plain first" and "env_plain second" and "env_plain name_value"
    and "policy_safe (tn_policy s)"
    and "first_entry (dh_hash (tn_policy s)) (suboption_keys 39 0) = Some (PySeq [PyInt 6, PyCallable f])"
    and "telnet_proxy_is_transparent s"
    and "x_call x (tn_hist s) (PyCallable f) 39 (Some (first, name_value)) = (\<lambda>v. (Some (PyInt 1), v))"
  shows "\<exists>s'. run_state (process_environment_is_loop x ep 39 TELNET_SB_IS
      (0 # first @ TELNET_OPTARG_ENVIRONMENT_ESC # 0 # second @ 1 # name_value) ZV_DROP False 0 []) s =
      ((ZV_ACCEPT, False, 0, 0 # first @ 0 # second @ 1 # name_value), s') \<and>
    tn_hist s' = EvCall (PyCallable f) 39 (Some (first, name_value)) # tn_hist s \<and>
    parse_environment_name_or_value (first @ 0 # second @ 1 # name_value) = (first, 0 # second @ 1 # name_value)"
proof -
  have parse1: "parse_environment_name_or_value (first @ 2 # 0 # second @ 1 # name_value) =
      (first @ 0 # second, 1 # name_value)"
    using assms(1)
  proof (induction first)
    case Nil
    show ?case using parse_plain [OF assms(2), of "1 # name_value"] by simp
  next
    case (Cons b bs)
    then show ?case by (simp add: env_plain_def)
  qed
  have parse2: "parse_environment_name_or_value name_value = (name_value, [])"
    using parse_plain [OF assms(3), of "[]"] by simp
  have cstr: "cstr (first @ 0 # second) = first" "cstr name_value = name_value"
    using assms(1,3) by (induction first; simp add: cstr_def env_plain_def)
      (use assms(3) in \<open>auto simp: cstr_def env_plain_def list_all_iff takeWhile_eq_all_conv\<close>)
  show ?thesis
    using assms parse1 parse2 cstr policy_search_keys(2) [OF assms(4), of 39 0]
      parse_plain [OF assms(1), of "0 # second @ 1 # name_value"]
    by (simp add: check_and_copy_environment_name_value_pair_def telnet_policy_suboption_def
      telnet_hash_get_type_def run_policy_call_object subopt_named_def policy_function_verdict_def
      telnet_proxy_is_transparent_def)
qed

theorem env_escape_smuggles_witness:
  "\<exists>s'. run_state (process_environment_is_loop quiet_ext EP_CLIENT 39 TELNET_SB_IS
      (0 # [65] @ TELNET_OPTARG_ENVIRONMENT_ESC # 0 # [66] @ 1 # [67]) ZV_DROP False 0 [])
      (telnet_set_defaults\<lparr>tn_policy := sample_policy\<lparr>dh_hash := [''39'' \<mapsto> PySeq [PyInt 6, PyCallable 1]]\<rparr>\<rparr>) =
      ((ZV_ACCEPT, False, 0, [0, 65, 0, 66, 1, 67]), s') \<and>
    tn_hist s' = [EvCall (PyCallable 1) 39 (Some ([65], [67]))]"
proof -
  let ?s = "telnet_set_defaults\<lparr>tn_policy := sample_policy\<lparr>dh_hash := [''39'' \<mapsto> PySeq [PyInt 6, PyCallable 1]]\<rparr>\<rparr>"
  have safe: "policy_safe (tn_policy ?s)" using sample_policy_safe by (simp add: policy_safe_def)
  have "first_entry (dh_hash (tn_policy ?s)) (suboption_keys 39 0) = Some (PySeq [PyInt 6, PyCallable 1])"
    "telnet_proxy_is_transparent ?s" "tn_hist ?s = []" by code_simp+
  then show ?thesis
    using env_escape_smuggles [of "[65]" "[66]" "[67]" ?s 1 quiet_ext EP_CLIENT, OF _ _ _ safe]
    by (simp add: env_plain_def quiet_ext_def)
qed

end
