(* ===== verification/Telnet_Tls.thy ===== *)
theory Telnet_Tls
  imports Telnet_Policy
begin

text \<open>
  STARTTLS negotiation (\<^verbatim>\<open>modules/telnet/telnettls.cc\<close>): a state machine per side, entered from
  the option, the suboption and the enforcement of a required TLS. The functions return C ints
  where the code lets an I/O status stand for a gboolean, so that what the callers make of the
  values is kept. The handshake itself is a parameter; it also decides whether the handshake
  stays pending on an endpoint. The contract locale at the end says what the negotiation does
  to the rest of the session.
\<close>

section \<open>State machines\<close>

datatype TlsStateMachineEntryPointType =
  SM_ENTRY_FROM_OPTION_ENFORCEMENT | SM_ENTRY_FROM_OPTION_NEG | SM_ENTRY_FROM_SUBOPTION_NEG

abbreviation TELNET_TLS_FOLLOWS_SUBOPTION :: byte where "TELNET_TLS_FOLLOWS_SUBOPTION \<equiv> 1"

type_synonym gboolean = int

abbreviation FALSE :: gboolean where "FALSE \<equiv> 0"
abbreviation TRUE :: gboolean where "TRUE \<equiv> 1"

definition telnet_tls_is_negotiation_complete_on_side :: "TelnetProxy \<Rightarrow> endpoint \<Rightarrow> bool" where
  "telnet_tls_is_negotiation_complete_on_side s ep \<longleftrightarrow>
     \<not> tls_required (tn_vars s) ep \<or> (tls_required (tn_vars s) ep \<and> tn_tls_completed s ep)"

definition telnet_tls_is_negotiation_complete :: "TelnetProxy \<Rightarrow> bool" where
  "telnet_tls_is_negotiation_complete s \<longleftrightarrow>
     telnet_tls_is_negotiation_complete_on_side s EP_CLIENT \<and> telnet_tls_is_negotiation_complete_on_side s EP_SERVER"

definition set_tls_status :: "endpoint \<Rightarrow> TelnetTlsStatus \<Rightarrow> unit tm" where
  "set_tls_status ep st = modify (\<lambda>s. s\<lparr>tn_tls_status := (tn_tls_status s)(ep := st)\<rparr>)"

definition telnet_tls_send_follows_suboption :: "telnet_ext \<Rightarrow> endpoint \<Rightarrow> gboolean tm" where
  "telnet_tls_send_follows_suboption x ep = do {
     status \<leftarrow> telnet_send_suboption x ep [TELNET_OPTION_STARTTLS, TELNET_TLS_FOLLOWS_SUBOPTION];
     return (if status = G_IO_STATUS_NORMAL then TRUE else FALSE)
   }"

definition telnet_tls_send_error :: "telnet_ext \<Rightarrow> bytes \<Rightarrow> unit tm" where
  "telnet_tls_send_error x message = do { telnet_send_data x EP_CLIENT message; return () }"

definition telnet_tls_client_negotiation_start :: "telnet_ext \<Rightarrow> gboolean tm" where
  "telnet_tls_client_negotiation_start x = do {
     option_received EP_CLIENT TELNET_CMD_WILL TELNET_OPTION_STARTTLS;
     res \<leftarrow> telnet_send_opneg x EP_CLIENT TELNET_CMD_DO TELNET_OPTION_STARTTLS;
     set_tls_status EP_CLIENT TELNET_TLS_STATUS_SERVER_REQUESTED_TLS;
     return (giostatus_code res)
   }"

definition telnet_tls_complete_negotiation :: "endpoint \<Rightarrow> unit tm" where
  "telnet_tls_complete_negotiation ep = modify (\<lambda>s. s\<lparr>tn_tls_completed := (tn_tls_completed s)(ep := True)\<rparr>)"

definition z_proxy_ssl_request_handshake :: "telnet_ext \<Rightarrow> endpoint \<Rightarrow> bool tm" where
  "z_proxy_ssl_request_handshake x ep = do {
     h \<leftarrow> gets tn_hist;
     pending \<leftarrow> gets tn_handshake_pending;
     case x_handshake x h ep pending of (res, pending') \<Rightarrow> do {
       log_event (EvHandshake ep res);
       modify (\<lambda>s. s\<lparr>tn_handshake_pending := pending'\<rparr>);
       return res
     }
   }"

definition telnet_tls_switch_stream_to_ssl :: "telnet_ext \<Rightarrow> endpoint \<Rightarrow> gboolean tm" where
  "telnet_tls_switch_stream_to_ssl x ep = do {
     set_tls_status ep TELNET_TLS_STATUS_HANDSHAKE_STARTED;
     res \<leftarrow> z_proxy_ssl_request_handshake x ep;
     s \<leftarrow> gets (\<lambda>s. s);
     (if res \<and> \<not> tn_handshake_pending s ep then do {
        telnet_tls_complete_negotiation ep;
        if \<not> tn_tls_completed s (EP_OTHER ep) \<and> tn_tls_status s (EP_OTHER ep) = TELNET_TLS_STATUS_HANDSHAKE_STARTED
        then telnet_tls_complete_negotiation (EP_OTHER ep) else return ()
      } else return ());
     return (if res then TRUE else FALSE)
   }"

definition telnet_tls_client_sm_handle_client_starting_tls ::
  "telnet_ext \<Rightarrow> byte \<Rightarrow> TlsStateMachineEntryPointType \<Rightarrow> gboolean tm" where
  "telnet_tls_client_sm_handle_client_starting_tls x command entry =
     (case entry of
        SM_ENTRY_FROM_OPTION_NEG \<Rightarrow> return TRUE
      | SM_ENTRY_FROM_SUBOPTION_NEG \<Rightarrow> do {
          sent \<leftarrow> telnet_tls_send_follows_suboption x EP_CLIENT;
          if sent \<noteq> FALSE then telnet_tls_switch_stream_to_ssl x EP_CLIENT else return FALSE
        }
      | SM_ENTRY_FROM_OPTION_ENFORCEMENT \<Rightarrow> return FALSE)"

definition starttls_client_message :: bytes where
  "starttls_client_message =
     [13, 10] @ bytes_of ''This connection requires a STARTTLS capable telnet client.'' @ [13, 10, 13, 10]"

definition telnet_tls_client_sm_handle_server_requested_tls ::
  "telnet_ext \<Rightarrow> byte \<Rightarrow> TlsStateMachineEntryPointType \<Rightarrow> gboolean tm" where
  "telnet_tls_client_sm_handle_server_requested_tls x command entry =
     (if entry = SM_ENTRY_FROM_OPTION_NEG then
        (if command = TELNET_CMD_WILL then do {
           set_tls_status EP_CLIENT TELNET_TLS_STATUS_CLIENT_STARTING_TLS;
           return TRUE
         }
         else do { telnet_tls_send_error x starttls_client_message; return FALSE })
      else return FALSE)"

definition telnet_tls_client_sm_handle_none_status ::
  "telnet_ext \<Rightarrow> byte \<Rightarrow> TlsStateMachineEntryPointType \<Rightarrow> gboolean tm" where
  "telnet_tls_client_sm_handle_none_status x command entry =
     (if entry = SM_ENTRY_FROM_OPTION_ENFORCEMENT then telnet_tls_client_negotiation_start x
      else if entry = SM_ENTRY_FROM_OPTION_NEG then
        (if command = TELNET_CMD_WILL then do {
           security \<leftarrow> gets tn_security;
           if security EP_CLIENT \<noteq> ENCRYPTION_SEC_ACCEPT_STARTTLS then do {
             res \<leftarrow> telnet_send_opneg x EP_CLIENT TELNET_CMD_DONT TELNET_OPTION_STARTTLS;
             return (giostatus_code res)
           }
           else telnet_tls_client_negotiation_start x
         }
         else return FALSE)
      else return FALSE)"

definition telnet_tls_client_sm ::
  "telnet_ext \<Rightarrow> byte \<Rightarrow> TlsStateMachineEntryPointType \<Rightarrow> gboolean tm" where
  "telnet_tls_client_sm x command entry = do {
     status \<leftarrow> gets (\<lambda>s. tn_tls_status s EP_CLIENT);
     if status = TELNET_TLS_STATUS_NONE then telnet_tls_client_sm_handle_none_status x command entry
     else if status = TELNET_TLS_STATUS_SERVER_REQUESTED_TLS then
       telnet_tls_client_sm_handle_server_requested_tls x command entry
     else if status = TELNET_TLS_STATUS_CLIENT_STARTING_TLS then
       telnet_tls_client_sm_handle_client_starting_tls x command entry
     else return FALSE
   }"

definition telnet_tls_server_sm_handle_client_starting_tls_follows ::
  "telnet_ext \<Rightarrow> TlsStateMachineEntryPointType \<Rightarrow> gboolean tm" where
  "telnet_tls_server_sm_handle_client_starting_tls_follows x entry =
     (if entry = SM_ENTRY_FROM_SUBOPTION_NEG then telnet_tls_switch_stream_to_ssl x EP_SERVER else return FALSE)"

definition starttls_server_message :: bytes where
  "starttls_server_message =
     [13, 10] @ bytes_of ''The required STARTTLS option is not supported by the server.'' @ [13, 10, 13, 10]"

definition telnet_tls_server_sm_handle_server_not_tls_capable :: "telnet_ext \<Rightarrow> bool \<Rightarrow> gboolean tm" where
  "telnet_tls_server_sm_handle_server_not_tls_capable x tls_was_requested = do {
     v \<leftarrow> gets tn_vars;
     if tls_required v EP_SERVER \<or> tls_was_requested then do {
       telnet_tls_send_error x starttls_server_message;
       return FALSE
     }
     else return TRUE
   }"

definition telnet_tls_server_sm_negotiate_continue :: "telnet_ext \<Rightarrow> gboolean tm" where
  "telnet_tls_server_sm_negotiate_continue x = do {
     option_received EP_SERVER TELNET_CMD_DO TELNET_OPTION_STARTTLS;
     sent \<leftarrow> telnet_send_opneg x EP_SERVER TELNET_CMD_WILL TELNET_OPTION_STARTTLS;
     res \<leftarrow> (if giostatus_code sent \<noteq> FALSE then telnet_tls_send_follows_suboption x EP_SERVER else return FALSE);
     set_tls_status EP_SERVER TELNET_TLS_STATUS_CLIENT_STARTING_TLS_FOLLOWS;
     return res
   }"

definition telnet_tls_server_sm_negotiate_continue_if_possible :: "telnet_ext \<Rightarrow> gboolean tm" where
  "telnet_tls_server_sm_negotiate_continue_if_possible x = do {
     security \<leftarrow> gets tn_security;
     if security EP_SERVER \<noteq> ENCRYPTION_SEC_FORWARD_STARTTLS then do {
       res \<leftarrow> telnet_send_opneg x EP_SERVER TELNET_CMD_WONT TELNET_OPTION_STARTTLS;
       return (giostatus_code res)
     }
     else telnet_tls_server_sm_negotiate_continue x
   }"

definition telnet_tls_server_sm_handle_client_requested_tls ::
  "telnet_ext \<Rightarrow> byte \<Rightarrow> TlsStateMachineEntryPointType \<Rightarrow> gboolean tm" where
  "telnet_tls_server_sm_handle_client_requested_tls x command entry =
     (if entry = SM_ENTRY_FROM_OPTION_NEG then
        (if command = TELNET_CMD_DO then telnet_tls_server_sm_negotiate_continue x
         else telnet_tls_server_sm_handle_server_not_tls_capable x True)
      else return FALSE)"

definition telnet_tls_server_sm_handle_none_status ::
  "telnet_ext \<Rightarrow> byte \<Rightarrow> TlsStateMachineEntryPointType \<Rightarrow> gboolean tm" where
  "telnet_tls_server_sm_handle_none_status x command entry =
     (case entry of
        SM_ENTRY_FROM_OPTION_ENFORCEMENT \<Rightarrow> do {
          option_received EP_SERVER TELNET_CMD_DO TELNET_OPTION_STARTTLS;
          res \<leftarrow> telnet_send_opneg x EP_SERVER TELNET_CMD_WILL TELNET_OPTION_STARTTLS;
          set_tls_status EP_SERVER TELNET_TLS_STATUS_CLIENT_REQUESTED_TLS;
          return (giostatus_code res)
        }
      | SM_ENTRY_FROM_OPTION_NEG \<Rightarrow>
          (if command = TELNET_CMD_DO then telnet_tls_server_sm_negotiate_continue_if_possible x
           else telnet_tls_server_sm_handle_server_not_tls_capable x False)
      | SM_ENTRY_FROM_SUBOPTION_NEG \<Rightarrow> return FALSE)"

definition telnet_tls_server_sm ::
  "telnet_ext \<Rightarrow> byte \<Rightarrow> TlsStateMachineEntryPointType \<Rightarrow> gboolean tm" where
  "telnet_tls_server_sm x command entry = do {
     status \<leftarrow> gets (\<lambda>s. tn_tls_status s EP_SERVER);
     if status = TELNET_TLS_STATUS_NONE then telnet_tls_server_sm_handle_none_status x command entry
     else if status = TELNET_TLS_STATUS_CLIENT_REQUESTED_TLS then
       telnet_tls_server_sm_handle_client_requested_tls x command entry
     else if status = TELNET_TLS_STATUS_CLIENT_STARTING_TLS_FOLLOWS then
       telnet_tls_server_sm_handle_client_starting_tls_follows x entry
     else return FALSE
   }"

definition telnet_tls_handle_option_or_suboption ::
  "telnet_ext \<Rightarrow> endpoint \<Rightarrow> byte \<Rightarrow> TlsStateMachineEntryPointType \<Rightarrow> ZVerdict tm" where
  "telnet_tls_handle_option_or_suboption x ep command entry = do {
     res \<leftarrow> (if ep = EP_CLIENT then telnet_tls_client_sm x command entry else telnet_tls_server_sm x command entry);
     return (if res \<noteq> FALSE then ZV_DROP else ZV_ABORT)
   }"

definition telnet_tls_handle_suboption ::
  "telnet_ext \<Rightarrow> endpoint \<Rightarrow> byte \<Rightarrow> pktbuf \<Rightarrow> (ZVerdict \<times> pktbuf) tm" where
  "telnet_tls_handle_suboption x ep option suboption_buffer = do {
     res \<leftarrow> telnet_tls_handle_option_or_suboption x ep 0 SM_ENTRY_FROM_SUBOPTION_NEG;
     return (res, suboption_buffer)
   }"

definition telnet_tls_handle_option :: "telnet_ext \<Rightarrow> endpoint \<Rightarrow> byte \<Rightarrow> byte \<Rightarrow> ZVerdict tm" where
  "telnet_tls_handle_option x ep command option =
     telnet_tls_handle_option_or_suboption x ep command SM_ENTRY_FROM_OPTION_NEG"

text \<open>\<^verbatim>\<open>res &= ...\<close> on the ints: an end-of-file status counts as failure, a retry status as success.\<close>

definition telnet_tls_start_negotiate_on_side :: "telnet_ext \<Rightarrow> endpoint \<Rightarrow> bool tm" where
  "telnet_tls_start_negotiate_on_side x ep = do {
     s \<leftarrow> gets (\<lambda>s. s);
     res \<leftarrow> (if tn_tls_status s ep = TELNET_TLS_STATUS_NONE \<and> tls_required (tn_vars s) ep
             then (if ep = EP_CLIENT then telnet_tls_client_sm x 0 SM_ENTRY_FROM_OPTION_ENFORCEMENT
                   else telnet_tls_server_sm x 0 SM_ENTRY_FROM_OPTION_ENFORCEMENT)
             else return TRUE);
     return (TRUE AND res \<noteq> FALSE)
   }"

definition telnet_tls_start_negotiate :: "telnet_ext \<Rightarrow> bool tm" where
  "telnet_tls_start_negotiate x = do {
     client \<leftarrow> telnet_tls_start_negotiate_on_side x EP_CLIENT;
     if client then telnet_tls_start_negotiate_on_side x EP_SERVER else return False
   }"

section \<open>Frame\<close>

lemma keeps_entry [keeps_intros]:
  "keeps I a \<Longrightarrow> keeps I b \<Longrightarrow> keeps I c \<Longrightarrow>
   keeps I (case entry of SM_ENTRY_FROM_OPTION_ENFORCEMENT \<Rightarrow> a | SM_ENTRY_FROM_OPTION_NEG \<Rightarrow> b
     | SM_ENTRY_FROM_SUBOPTION_NEG \<Rightarrow> c)"
  by (cases entry) auto

text \<open>
  What an invariant must tolerate of the negotiation: status changes short of the handshake, and
  the handshake as a whole.
\<close>

locale tls_frame = session_frame +
  assumes I_status: "I s \<Longrightarrow> st \<noteq> TELNET_TLS_STATUS_HANDSHAKE_STARTED \<Longrightarrow>
      I (s\<lparr>tn_tls_status := (tn_tls_status s)(ep := st)\<rparr>)"
    and I_switch: "eps ep \<Longrightarrow> keeps I (telnet_tls_switch_stream_to_ssl x ep)"
begin

lemma keeps_tls_status: "st \<noteq> TELNET_TLS_STATUS_HANDSHAKE_STARTED \<Longrightarrow> keeps I (set_tls_status ep st)"
  unfolding set_tls_status_def by (rule keeps_modify) (rule I_status)

lemmas tls_intros = keeps_intros keeps_options keeps_send_opneg keeps_sends I_switch keeps_tls_status

lemma is_opneg_codes: "is_opneg TELNET_CMD_WILL" "is_opneg TELNET_CMD_WONT" "is_opneg TELNET_CMD_DO" "is_opneg TELNET_CMD_DONT"
  by (simp_all add: is_opneg_def)

lemma keeps_tls_sends:
  "eps ep \<Longrightarrow> keeps I (telnet_tls_send_follows_suboption x ep)" "keeps I (telnet_tls_send_error x msg)"
  unfolding telnet_tls_send_follows_suboption_def telnet_tls_send_error_def
  by (intro tls_intros eps_client; assumption)+

lemma keeps_client_sm: "keeps I (telnet_tls_client_sm x command entry)"
  unfolding telnet_tls_client_sm_def telnet_tls_client_sm_handle_none_status_def
    telnet_tls_client_negotiation_start_def telnet_tls_client_sm_handle_server_requested_tls_def
    telnet_tls_client_sm_handle_client_starting_tls_def
  by (intro tls_intros keeps_tls_sends eps_client is_opneg_codes; simp)

lemma keeps_server_sm: "eps EP_SERVER \<Longrightarrow> keeps I (telnet_tls_server_sm x command entry)"
  unfolding telnet_tls_server_sm_def telnet_tls_server_sm_handle_none_status_def
    telnet_tls_server_sm_negotiate_continue_if_possible_def telnet_tls_server_sm_negotiate_continue_def
    telnet_tls_server_sm_handle_client_requested_tls_def telnet_tls_server_sm_handle_server_not_tls_capable_def
    telnet_tls_server_sm_handle_client_starting_tls_follows_def
  by (intro tls_intros keeps_tls_sends is_opneg_codes; simp)

lemma keeps_tls_handlers:
  assumes "eps ep"
  shows "keeps I (telnet_tls_handle_suboption x ep option buf)" "keeps I (telnet_tls_handle_option x ep command option)"
    "keeps I (telnet_tls_start_negotiate_on_side x ep)"
  unfolding telnet_tls_handle_suboption_def telnet_tls_handle_option_def telnet_tls_handle_option_or_suboption_def
    telnet_tls_start_negotiate_on_side_def
  by (cases ep; use assms in \<open>auto intro!: tls_intros keeps_client_sm keeps_server_sm\<close>)+

lemma keeps_start_negotiate: "eps EP_SERVER \<Longrightarrow> keeps I (telnet_tls_start_negotiate x)"
  unfolding telnet_tls_start_negotiate_def by (intro keeps_intros keeps_tls_handlers eps_client)

end

section \<open>Progress and completion\<close>

fun tls_rank :: "TelnetTlsStatus \<Rightarrow> nat" where
  "tls_rank TELNET_TLS_STATUS_NONE = 0"
| "tls_rank TELNET_TLS_STATUS_CLIENT_REQUESTED_TLS = 1"
| "tls_rank TELNET_TLS_STATUS_SERVER_REQUESTED_TLS = 1"
| "tls_rank TELNET_TLS_STATUS_CLIENT_STARTING_TLS = 2"
| "tls_rank TELNET_TLS_STATUS_CLIENT_STARTING_TLS_FOLLOWS = 2"
| "tls_rank TELNET_TLS_STATUS_SERVER_CONFIRMED_STARTING_TLS = 2"
| "tls_rank TELNET_TLS_STATUS_HANDSHAKE_STARTED = 3"

text \<open>A side counts as switched to TLS only after a handshake on it was asked for, and one succeeded.\<close>

definition handshake_asked :: "t_event list \<Rightarrow> endpoint \<Rightarrow> bool" where
  "handshake_asked h ep \<longleftrightarrow> EvHandshake ep True \<in> set h \<or> EvHandshake ep False \<in> set h"

definition tls_inv :: "TelnetProxy \<Rightarrow> bool" where
  "tls_inv s \<longleftrightarrow>
     (\<forall>ep. tn_tls_status s ep = TELNET_TLS_STATUS_HANDSHAKE_STARTED \<longrightarrow> handshake_asked (tn_hist s) ep) \<and>
     (\<forall>ep. tn_tls_completed s ep \<longrightarrow>
        handshake_asked (tn_hist s) ep \<and> (\<exists>ep'. EvHandshake ep' True \<in> set (tn_hist s)))"

lemma tls_inv_event: "tls_inv s \<Longrightarrow> tls_inv (s\<lparr>tn_hist := e # tn_hist s\<rparr>)"
  by (auto simp: tls_inv_def handshake_asked_def)

lemma tls_inv_status:
  "tls_inv s \<Longrightarrow> st \<noteq> TELNET_TLS_STATUS_HANDSHAKE_STARTED \<Longrightarrow>
   tls_inv (s\<lparr>tn_tls_status := (tn_tls_status s)(ep := st)\<rparr>)"
  by (auto simp: tls_inv_def)

lemmas switch_defs =
  telnet_tls_switch_stream_to_ssl_def z_proxy_ssl_request_handshake_def telnet_tls_complete_negotiation_def
  set_tls_status_def log_event_def

lemma tls_inv_switch: "keeps tls_inv (telnet_tls_switch_stream_to_ssl x ep)"
proof (rule keepsI)
  fix s r s' assume "tls_inv s" and "run_state (telnet_tls_switch_stream_to_ssl x ep) s = (r, s')"
  then show "tls_inv s'"
    by (cases ep) (auto simp: switch_defs tls_inv_def handshake_asked_def split: prod.splits if_splits)
qed

text \<open>Any invariant that tolerates the four updates of the handshake tolerates it as a whole.\<close>

lemma keeps_switch:
  assumes "\<And>s c. I s \<Longrightarrow> I (s\<lparr>tn_tls_completed := c\<rparr>)" and "\<And>s st. I s \<Longrightarrow> I (s\<lparr>tn_tls_status := st\<rparr>)"
    and "\<And>s p. I s \<Longrightarrow> I (s\<lparr>tn_handshake_pending := p\<rparr>)"
    and "\<And>s r. I s \<Longrightarrow> I (s\<lparr>tn_hist := EvHandshake ep r # tn_hist s\<rparr>)"
  shows "keeps I (telnet_tls_switch_stream_to_ssl x ep)"
  unfolding switch_defs by (intro keeps_intros keeps_modify assms; assumption)

lemma tls_status_sends:
  "keeps (\<lambda>s. tn_tls_status s = st) (telnet_send_opneg x ep command option)"
  "keeps (\<lambda>s. tn_tls_status s = st) (telnet_send_suboption x ep sub)"
  "keeps (\<lambda>s. tn_tls_status s = st) (telnet_send_data x ep data)"
  "keeps (\<lambda>s. tn_tls_status s = st) (option_received ep command option)"
proof -
  show "keeps (\<lambda>s. tn_tls_status s = st) (telnet_send_suboption x ep sub)"
    "keeps (\<lambda>s. tn_tls_status s = st) (telnet_send_data x ep data)"
    by (rule keeps_write, simp)+
  show "keeps (\<lambda>s. tn_tls_status s = st) (telnet_send_opneg x ep command option)"
    "keeps (\<lambda>s. tn_tls_status s = st) (option_received ep command option)"
    unfolding telnet_send_opneg_def option_sent_def option_received_def crash_def
    by (intro keeps_intros keeps_modify keeps_write; simp)+
qed

lemmas tls_status_kept = tls_status_sends [THEN keepsD, OF refl]

lemmas tls_sm_defs =
  telnet_tls_handle_option_or_suboption_def telnet_tls_client_sm_def telnet_tls_server_sm_def
  telnet_tls_client_sm_handle_none_status_def telnet_tls_client_negotiation_start_def
  telnet_tls_client_sm_handle_server_requested_tls_def telnet_tls_client_sm_handle_client_starting_tls_def
  telnet_tls_server_sm_handle_none_status_def telnet_tls_server_sm_negotiate_continue_if_possible_def
  telnet_tls_server_sm_negotiate_continue_def telnet_tls_server_sm_handle_client_requested_tls_def
  telnet_tls_server_sm_handle_server_not_tls_capable_def telnet_tls_server_sm_handle_client_starting_tls_follows_def
  telnet_tls_send_follows_suboption_def telnet_tls_send_error_def

section \<open>Properties\<close>

text \<open>C36: A STARTTLS option or suboption only moves the status of its own side, and only forward;
  once a side has started its handshake every further one aborts the session and changes nothing.\<close>

theorem tls_status_progress:
  assumes "run_state (telnet_tls_handle_option_or_suboption x ep command entry) s = (res, s')"
  shows "tls_rank (tn_tls_status s ep) \<le> tls_rank (tn_tls_status s' ep) \<and>
    tn_tls_status s' (EP_OTHER ep) = tn_tls_status s (EP_OTHER ep) \<and>
    (tn_tls_status s ep = TELNET_TLS_STATUS_HANDSHAKE_STARTED \<longrightarrow> res = ZV_ABORT \<and> s' = s) \<and>
    (res = ZV_DROP \<or> res = ZV_ABORT)"
  using assms
  by (cases ep; cases entry)
    (auto simp: tls_sm_defs switch_defs split: if_splits prod.splits dest!: tls_status_kept)

theorem tls_status_progress_witness:
  "\<exists>res s'. run_state (telnet_tls_handle_option_or_suboption quiet_ext EP_CLIENT TELNET_CMD_WILL SM_ENTRY_FROM_OPTION_NEG)
      (telnet_set_defaults\<lparr>tn_tls_status := (\<lambda>_. TELNET_TLS_STATUS_SERVER_REQUESTED_TLS)\<rparr>) = (res, s') \<and>
    1 \<le> tls_rank (tn_tls_status s' EP_CLIENT)"
proof -
  obtain res s' where run: "run_state (telnet_tls_handle_option_or_suboption quiet_ext EP_CLIENT TELNET_CMD_WILL
      SM_ENTRY_FROM_OPTION_NEG) (telnet_set_defaults\<lparr>tn_tls_status := (\<lambda>_. TELNET_TLS_STATUS_SERVER_REQUESTED_TLS)\<rparr>) = (res, s')"
    by fastforce
  show ?thesis using tls_status_progress [OF run] run by auto
qed

end
