(* ===== verification/Telnet_State.thy ===== *)
theory Telnet_State
  imports Telnet_Suboption Telnet_Tls
begin

text \<open>
  The session logic of \<^verbatim>\<open>modules/telnet/telnetstate.cc\<close>: what the proxy does with the data,
  commands, option negotiations and suboptions its two decoders deliver, and the states a
  session passes before it relays (waiting for the client's options and environment, prompting
  for a user, a password and a server). The handler tables and the server connection come from
  \<^verbatim>\<open>modules/telnet/telnet.cc\<close>.
\<close>

section \<open>Handler tables\<close>

definition telnet_suboptions_table ::
  "(byte \<times> (telnet_ext \<Rightarrow> endpoint \<Rightarrow> byte \<Rightarrow> pktbuf \<Rightarrow> (ZVerdict \<times> pktbuf) tm)) list" where
  "telnet_suboptions_table =
     [(TELNET_OPTION_TERMINAL_TYPE, telnet_subopt_terminal_type),
      (TELNET_OPTION_TERMINAL_SPEED, telnet_subopt_terminal_speed),
      (TELNET_OPTION_X_DISPLAY_LOCATION, telnet_subopt_x_display),
      (TELNET_OPTION_ENVIRONMENT, telnet_subopt_new_env),
      (TELNET_OPTION_NAWS, telnet_subopt_naws),
      (TELNET_OPTION_STARTTLS, telnet_tls_handle_suboption)]"

definition telnet_option_negotiation_table ::
  "(byte \<times> (telnet_ext \<Rightarrow> endpoint \<Rightarrow> byte \<Rightarrow> byte \<Rightarrow> ZVerdict tm)) list" where
  "telnet_option_negotiation_table = [(TELNET_OPTION_STARTTLS, telnet_tls_handle_option)]"

section \<open>Events of a decoder\<close>

definition process_suboption :: "telnet_ext \<Rightarrow> endpoint \<Rightarrow> bytes \<Rightarrow> ZVerdict tm" where
  "process_suboption x ep suboption =
     (case pb_get_u8 (pb_of suboption) of
        None \<Rightarrow> return ZV_DROP
      | Some (option, buf) \<Rightarrow> do {
          opts \<leftarrow> gets tn_options;
          if \<not> telnet_option_do opts ep option \<and> \<not> telnet_option_will opts ep option then return ZV_DROP
          else do {
            (res, buf') \<leftarrow> (case map_of telnet_suboptions_table option of
                 None \<Rightarrow> telnet_subopt_unknown x ep option buf
               | Some check_func \<Rightarrow> check_func x ep option buf);
            s \<leftarrow> gets (\<lambda>s. s);
            if res = ZV_ACCEPT \<and> telnet_state_is_connected s then do {
              status \<leftarrow> telnet_send_suboption x (EP_OTHER ep) (pb_data buf');
              return (if status \<noteq> G_IO_STATUS_NORMAL then ZV_ABORT else res)
            }
            else return res
          }
        })"

definition process_opneg_ok :: "telnet_ext \<Rightarrow> endpoint \<Rightarrow> byte \<Rightarrow> byte \<Rightarrow> ZVerdict tm" where
  "process_opneg_ok x ep command option = do {
     option_received ep command option;
     status \<leftarrow> telnet_send_opneg x (EP_OTHER ep) command option;
     return (if status \<noteq> G_IO_STATUS_NORMAL then ZV_ABORT else ZV_ACCEPT)
   }"

definition process_opneg_reject :: "telnet_ext \<Rightarrow> endpoint \<Rightarrow> byte \<Rightarrow> byte \<Rightarrow> ZVerdict tm" where
  "process_opneg_reject x ep command option = do {
     (if command = TELNET_CMD_WILL \<or> command = TELNET_CMD_WONT then option_received ep TELNET_CMD_WONT option
      else if command = TELNET_CMD_DO \<or> command = TELNET_CMD_DONT then option_received ep TELNET_CMD_DONT option
      else return ());
     let reject = (if command = TELNET_CMD_WILL \<or> command = TELNET_CMD_WONT then TELNET_CMD_DONT
                   else if command = TELNET_CMD_DO \<or> command = TELNET_CMD_DONT then TELNET_CMD_WONT
                   else 0);
     status \<leftarrow> telnet_send_opneg x ep reject option;
     return (if status \<noteq> G_IO_STATUS_NORMAL then ZV_ABORT else ZV_REJECT)
   }"

definition telnet_nt_accepted_options :: bytes where
  "telnet_nt_accepted_options =
     [TELNET_OPTION_SUPPRESS_GO_AHEAD, TELNET_OPTION_NAWS, TELNET_OPTION_TERMINAL_SPEED,
      TELNET_OPTION_TERMINAL_TYPE, TELNET_OPTION_X_DISPLAY_LOCATION, 0]"

text \<open>\<^verbatim>\<open>strchr\<close> also finds the terminating NUL, so it finds option 0.\<close>

definition option_is_whitelisted :: "byte \<Rightarrow> bool" where
  "option_is_whitelisted option \<longleftrightarrow> option \<in> set (cstr telnet_nt_accepted_options) \<or> option = 0"

definition opneg_is_enable :: "byte \<Rightarrow> bool" where
  "opneg_is_enable command \<longleftrightarrow> command = TELNET_CMD_DO \<or> command = TELNET_CMD_WILL"

definition opneg_accept_response :: "byte \<Rightarrow> byte" where
  "opneg_accept_response request = (if request = TELNET_CMD_DO then TELNET_CMD_WILL else TELNET_CMD_DO)"

definition opneg_deny_response :: "byte \<Rightarrow> byte" where
  "opneg_deny_response request =
     (if request = TELNET_CMD_DO \<or> request = TELNET_CMD_DONT then TELNET_CMD_WONT else TELNET_CMD_DONT)"

definition process_opneg_non_transparent :: "telnet_ext \<Rightarrow> endpoint \<Rightarrow> byte \<Rightarrow> byte \<Rightarrow> ZVerdict tm" where
  "process_opneg_non_transparent x ep command option = do {
     s \<leftarrow> gets (\<lambda>s. s);
     is_reply \<leftarrow> (if command = TELNET_CMD_WILL \<or> command = TELNET_CMD_WONT then do {
          let is_reply = tn_do_dont_requested s option ep > 0;
          (if is_reply
           then modify (\<lambda>s. s\<lparr>tn_do_dont_requested := (tn_do_dont_requested s)(option :=
             (tn_do_dont_requested s option)(ep := tn_do_dont_requested s option ep - 1))\<rparr>)
           else return ());
          return is_reply
        }
        else do {
          let is_reply = tn_will_wont_requested s option ep > 0;
          (if is_reply
           then modify (\<lambda>s. s\<lparr>tn_will_wont_requested := (tn_will_wont_requested s)(option :=
             (tn_will_wont_requested s option)(ep := tn_will_wont_requested s option ep - 1))\<rparr>)
           else return ());
          return is_reply
        });
     option_received ep command option;
     if is_reply then return ZV_ACCEPT
     else do {
       let response = (if opneg_is_enable command
                       then (if option_is_whitelisted option then opneg_accept_response command
                             else opneg_deny_response command)
                       else opneg_deny_response command);
       status \<leftarrow> telnet_send_opneg x ep response option;
       return (if status \<noteq> G_IO_STATUS_NORMAL then ZV_ABORT else ZV_ACCEPT)
     }
   }"

text \<open>The answer the proxy gives the server for the client, 0 for none.\<close>

definition replay_response :: "options \<Rightarrow> byte \<Rightarrow> byte \<Rightarrow> byte" where
  "replay_response opts command option =
     (if command = TELNET_CMD_DO then
        (if telnet_option_do opts EP_CLIENT option \<and> \<not> telnet_option_will opts EP_SERVER option
         then opneg_accept_response command else 0)
      else if command = TELNET_CMD_WILL then
        (if telnet_option_will opts EP_CLIENT option \<and> \<not> telnet_option_do opts EP_SERVER option
         then opneg_accept_response command else 0)
      else if command = TELNET_CMD_DONT then
        (if \<not> telnet_option_do_in_progress opts EP_CLIENT option \<and> \<not> telnet_option_do opts EP_CLIENT option
         then opneg_deny_response command else 0)
      else if command = TELNET_CMD_WONT then
        (if \<not> telnet_option_will_in_progress opts EP_CLIENT option \<and> \<not> telnet_option_will opts EP_CLIENT option
         then opneg_deny_response command else 0)
      else 0)"

definition replay_opneg_to_server :: "telnet_ext \<Rightarrow> byte \<Rightarrow> byte \<Rightarrow> ZVerdict tm" where
  "replay_opneg_to_server x command option = do {
     option_received EP_SERVER command option;
     opts \<leftarrow> gets tn_options;
     if command = TELNET_CMD_DO \<and> option = TELNET_OPTION_NAWS \<and>
        telnet_option_do opts EP_CLIENT option \<and> \<not> telnet_option_will opts EP_SERVER option
     then do {
       status \<leftarrow> telnet_send_opneg x EP_SERVER TELNET_CMD_WILL option;
       return (if status \<noteq> G_IO_STATUS_NORMAL then ZV_ABORT else ZV_UNSPEC)
     }
     else do {
       let response = replay_response opts command option;
       if response \<noteq> 0 then do {
         status \<leftarrow> telnet_send_opneg x EP_SERVER response option;
         return (if status \<noteq> G_IO_STATUS_NORMAL then ZV_ABORT else ZV_ACCEPT)
       }
       else return ZV_UNSPEC
     }
   }"

definition process_opneg_transparent :: "telnet_ext \<Rightarrow> endpoint \<Rightarrow> byte \<Rightarrow> byte \<Rightarrow> ZVerdict tm" where
  "process_opneg_transparent x ep command option = do {
     s \<leftarrow> gets (\<lambda>s. s);
     replayed \<leftarrow> (if ep = EP_SERVER \<and> \<not> telnet_proxy_is_transparent s
                  then replay_opneg_to_server x command option else return ZV_UNSPEC);
     if replayed \<noteq> ZV_UNSPEC then return replayed
     else do {
       res \<leftarrow> (case map_of telnet_option_negotiation_table option of
            None \<Rightarrow> telnet_policy_option x ep command option
          | Some check_func \<Rightarrow> check_func x ep command option);
       s' \<leftarrow> gets (\<lambda>s. s);
       tls_ok \<leftarrow> (if telnet_tls_is_negotiation_complete s' then return True else telnet_tls_start_negotiate x);
       if \<not> tls_ok then return ZV_UNSPEC
       else if res = ZV_ACCEPT then process_opneg_ok x ep command option
       else if res = ZV_REJECT then process_opneg_reject x ep command option
       else return res
     }
   }"

definition process_opneg :: "telnet_ext \<Rightarrow> endpoint \<Rightarrow> byte \<Rightarrow> byte \<Rightarrow> ZVerdict tm" where
  "process_opneg x ep command option = do {
     s \<leftarrow> gets (\<lambda>s. s);
     if telnet_state_is_connected s then process_opneg_transparent x ep command option
     else process_opneg_non_transparent x ep command option
   }"

definition process_command_transparent :: "telnet_ext \<Rightarrow> endpoint \<Rightarrow> byte \<Rightarrow> ZVerdict tm" where
  "process_command_transparent x ep command =
     (if command \<ge> 240 then return ZV_ACCEPT
      else do {
        s \<leftarrow> gets (\<lambda>s. s);
        let needed = (case tn_negotiation s (decimal (unat command)) of
                        None \<Rightarrow> Some (unat command)
                      | Some res \<Rightarrow> parse_I res);
        case needed of
          None \<Rightarrow> return ZV_REJECT
        | Some option_needed \<Rightarrow> do {
            let ret_status = (if option_needed = 255 then ZV_ACCEPT
                              else if option_needed > 255 then ZV_REJECT
                              else if telnet_option_do (tn_options s) ep (of_nat option_needed) then ZV_ACCEPT
                              else ZV_REJECT);
            if ret_status = ZV_ACCEPT then do {
              status \<leftarrow> telnet_send_command x (EP_OTHER ep) command;
              return (if status \<noteq> G_IO_STATUS_NORMAL then ZV_ABORT else ret_status)
            }
            else return ret_status
          }
      })"

definition process_command :: "telnet_ext \<Rightarrow> endpoint \<Rightarrow> byte \<Rightarrow> ZVerdict tm" where
  "process_command x ep command = do {
     s \<leftarrow> gets (\<lambda>s. s);
     if telnet_state_is_connected s then process_command_transparent x ep command else return ZV_ACCEPT
   }"

definition edit_line :: "bytes \<Rightarrow> bytes tm" where
  "edit_line data = State (\<lambda>s. case telnet_lineedit_process_data (tn_line_editor s) data of
     (editor, out) \<Rightarrow> (out, s\<lparr>tn_line_editor := editor\<rparr>))"

definition process_data :: "telnet_ext \<Rightarrow> endpoint \<Rightarrow> bytes \<Rightarrow> ZVerdict tm" where
  "process_data x ep data = do {
     s \<leftarrow> gets (\<lambda>s. s);
     if tn_state s = TELNET_STATE_RELAYING then do {
       status \<leftarrow> telnet_send_data x (EP_OTHER ep) data;
       return (if status \<noteq> G_IO_STATUS_NORMAL then ZV_ABORT else ZV_ACCEPT)
     }
     else if telnet_state_is_lineedit s \<and> ep = EP_CLIENT then do {
       out \<leftarrow> edit_line data;
       status \<leftarrow> telnet_send_data x ep out;
       return (if status \<noteq> G_IO_STATUS_NORMAL then ZV_ABORT else ZV_ACCEPT)
     }
     else return ZV_ACCEPT
   }"

text \<open>The callbacks stop their decoder on an abort.\<close>

definition run_cb :: "ZVerdict tm \<Rightarrow> TelnetProxy \<Rightarrow> bool \<times> TelnetProxy" where
  "run_cb m s = (case run_state m s of (res, s') \<Rightarrow> (res \<noteq> ZV_ABORT, s'))"

definition process_suboption_cb :: "telnet_ext \<Rightarrow> endpoint \<Rightarrow> bytes \<Rightarrow> TelnetProxy \<Rightarrow> bool \<times> TelnetProxy" where
  "process_suboption_cb x ep suboption = run_cb (process_suboption x ep suboption)"

definition process_opneg_cb :: "telnet_ext \<Rightarrow> endpoint \<Rightarrow> byte \<Rightarrow> byte \<Rightarrow> TelnetProxy \<Rightarrow> bool \<times> TelnetProxy" where
  "process_opneg_cb x ep command option = run_cb (process_opneg x ep command option)"

definition process_command_cb :: "telnet_ext \<Rightarrow> endpoint \<Rightarrow> byte \<Rightarrow> TelnetProxy \<Rightarrow> bool \<times> TelnetProxy" where
  "process_command_cb x ep command = run_cb (process_command x ep command)"

definition process_data_cb :: "telnet_ext \<Rightarrow> endpoint \<Rightarrow> bytes \<Rightarrow> TelnetProxy \<Rightarrow> bool \<times> TelnetProxy" where
  "process_data_cb x ep data = run_cb (process_data x ep data)"

definition telnet_state_callbacks :: "telnet_ext \<Rightarrow> endpoint \<Rightarrow> TelnetProxy telnet_callbacks" where
  "telnet_state_callbacks x ep =
     telnet_protocol_set_data_received (process_data_cb x ep)
       (telnet_protocol_set_subneg_received (process_suboption_cb x ep)
         (telnet_protocol_set_opneg_received (process_opneg_cb x ep)
           (telnet_protocol_set_command_received (process_command_cb x ep) no_callbacks)))"

text \<open>Registering also resets the decoder of the side and, for the client, the line editor.\<close>

definition telnet_state_register_callbacks :: "endpoint \<Rightarrow> TelnetProxy \<Rightarrow> TelnetProxy" where
  "telnet_state_register_callbacks ep s =
     (case ep of
        EP_CLIENT \<Rightarrow> s\<lparr>tn_protocol := (tn_protocol s)(EP_CLIENT := telnet_protocol_init),
                       tn_line_editor := telnet_lineedit_init\<rparr>
      | EP_SERVER \<Rightarrow> s\<lparr>tn_protocol := (tn_protocol s)(EP_SERVER := telnet_protocol_init)\<rparr>)"

section \<open>Frame\<close>

lemma response_is_opneg [simp]:
  "is_opneg (opneg_accept_response command)" "is_opneg (opneg_deny_response command)"
  by (auto simp: opneg_accept_response_def opneg_deny_response_def is_opneg_def)

lemma replay_response_is_opneg:
  "replay_response opts command option \<noteq> 0 \<Longrightarrow> is_opneg (replay_response opts command option)"
  by (simp add: replay_response_def split: if_splits)

context tls_frame
begin

lemma keeps_suboption_table:
  "map_of telnet_suboptions_table option = Some f \<Longrightarrow> eps ep \<Longrightarrow> keeps I (f x ep option' buf)"
  by (auto simp: telnet_suboptions_table_def keeps_flat_subopts keeps_subopt_naws keeps_subopt_new_env
      keeps_tls_handlers split: if_splits)

lemma keeps_option_table:
  "map_of telnet_option_negotiation_table option = Some f \<Longrightarrow> eps ep \<Longrightarrow> keeps I (f x ep command option')"
  by (auto simp: telnet_option_negotiation_table_def keeps_tls_handlers split: if_splits)

lemma keeps_process_suboption: "eps ep \<Longrightarrow> keeps I (process_suboption x ep suboption)"
  unfolding process_suboption_def
  by (intro keeps_gets_bind keeps_intros keeps_flat_subopts keeps_suboption_table keeps_sends)
    (auto simp: telnet_state_is_connected_def intro: I_connected)

lemma keeps_opneg_answers:
  assumes "is_opneg command" and "\<And>ep. eps ep"
  shows "keeps I (process_opneg_ok x ep command option)" "keeps I (process_opneg_reject x ep command option)"
    "keeps I (replay_opneg_to_server x command option)"
  unfolding process_opneg_ok_def process_opneg_reject_def replay_opneg_to_server_def
  by (intro tls_intros is_opneg_codes replay_response_is_opneg; use assms in \<open>auto simp: is_opneg_def\<close>)+

lemma keeps_opneg_non_transparent:
  "is_opneg command \<Longrightarrow> eps ep \<Longrightarrow> keeps I (process_opneg_non_transparent x ep command option)"
  unfolding process_opneg_non_transparent_def
  by (intro tls_intros keeps_local; simp add: core_def)

lemma keeps_process_opneg:
  assumes "is_opneg command" and "eps ep" shows "keeps I (process_opneg x ep command option)"
  unfolding process_opneg_def
proof (intro keeps_gets_bind keeps_if keeps_opneg_non_transparent assms)
  fix s assume "I s" and "telnet_state_is_connected s"
  then have all: "eps e" for e by (auto simp: telnet_state_is_connected_def intro: I_connected)
  show "keeps I (process_opneg_transparent x ep command option)"
    unfolding process_opneg_transparent_def
    by (intro keeps_intros keeps_opneg_answers keeps_policy_option keeps_option_table keeps_start_negotiate all
        assms(1); assumption)
qed

lemma keeps_process_command: "keeps I (process_command x ep command)"
  unfolding process_command_def process_command_transparent_def
  by (intro keeps_gets_bind keeps_intros keeps_sends)
    (auto simp: telnet_state_is_connected_def intro: I_connected)

lemma lineedit_keeps_echo:
  "telnet_lineedit_process_data e data = (e', out) \<Longrightarrow> do_echo e' = do_echo e"
proof -
  have "do_echo (fst (lineedit_byte b y)) = do_echo (fst y)" for b y
    using lineedit_byte_frame [of b "fst y" "fst (snd y)" "snd (snd y)"] by (metis prod.collapse)
  then have "do_echo (fst (fold lineedit_byte bs y)) = do_echo (fst y)" for bs y
    by (induction bs arbitrary: y) auto
  from this [of data "(if eol e then telnet_lineedit_clear e else e, False, [])"]
  show "telnet_lineedit_process_data e data = (e', out) \<Longrightarrow> do_echo e' = do_echo e"
    by (auto simp: telnet_lineedit_process_data_def telnet_lineedit_clear_def split: prod.splits if_splits)
qed

lemma keeps_edit_line: "keeps I (edit_line data)"
proof (rule keepsI)
  fix s r s' assume "I s" and "run_state (edit_line data) s = (r, s')"
  moreover from this have "core s' = core s"
    by (auto simp: edit_line_def core_def lineedit_keeps_echo split: prod.splits)
  ultimately show "I s'" using I_core by blast
qed

lemma keeps_process_data: "eps ep \<Longrightarrow> keeps I (process_data x ep data)"
  unfolding process_data_def
  by (intro keeps_gets_bind keeps_intros keeps_sends keeps_edit_line) (auto intro: I_connected)

end

section \<open>Runs\<close>

lemma run_write:
  "\<not> tn_handshake_pending s ep \<Longrightarrow>
   run_state (telnet_write_packet x ep pkt) s =
     (x_write x (tn_hist s) ep pkt, s\<lparr>tn_hist := EvWrite ep pkt (x_write x (tn_hist s) ep pkt) # tn_hist s\<rparr>)"
  by (simp add: telnet_write_packet_def log_event_def)

definition sent_options :: "options \<Rightarrow> endpoint \<Rightarrow> byte \<Rightarrow> byte \<Rightarrow> options" where
  "sent_options opts ep command option = the (telnet_option_command_sent opts ep command option)"

definition received_options :: "options \<Rightarrow> endpoint \<Rightarrow> byte \<Rightarrow> byte \<Rightarrow> options" where
  "received_options opts ep command option = the (telnet_option_command_received opts ep command option)"

lemma run_option_received:
  assumes "is_opneg command"
  shows "run_state (option_received ep command option) s =
    ((), s\<lparr>tn_options := received_options (tn_options s) ep command option\<rparr>)"
  using is_opneg_defined(1) [OF assms, of "tn_options s" ep option]
  by (auto simp: option_received_def received_options_def)

lemma run_send_opneg:
  assumes "is_opneg command" and "\<not> tn_handshake_pending s ep"
  shows "run_state (telnet_send_opneg x ep command option) s =
    (let st = x_write x (tn_hist s) ep [TELNET_IAC, command, option]
     in (st, s\<lparr>tn_options := sent_options (tn_options s) ep command option,
          tn_hist := EvWrite ep [TELNET_IAC, command, option] st # tn_hist s\<rparr>))"
  using is_opneg_defined(2) [OF assms(1), of "tn_options s" ep option] assms(2)
  by (auto simp: telnet_send_opneg_def option_sent_def sent_options_def run_write Let_def)

lemma whitelist: "option_is_whitelisted option \<longleftrightarrow> option \<in> {0, 3, 24, 31, 32, 35}"
  by (auto simp: option_is_whitelisted_def telnet_nt_accepted_options_def cstr_def)

section \<open>Properties\<close>

text \<open>A suboption for an option that neither side has agreed to use is dropped: no policy is
  asked, nothing is sent and nothing changes.\<close>

theorem suboption_unnegotiated_dropped:
  assumes "\<not> telnet_option_do (tn_options s) ep option" and "\<not> telnet_option_will (tn_options s) ep option"
  shows "run_state (process_suboption x ep (option # rest)) s = (ZV_DROP, s)"
  using assms by (simp add: process_suboption_def pb_get_u8_def)

theorem suboption_unnegotiated_dropped_witness:
  "run_state (process_suboption quiet_ext EP_CLIENT (39 # [0, 0, 65])) telnet_set_defaults = (ZV_DROP, telnet_set_defaults)"
proof (rule suboption_unnegotiated_dropped)
  show "\<not> telnet_option_do (tn_options telnet_set_defaults) EP_CLIENT 39" by code_simp
  show "\<not> telnet_option_will (tn_options telnet_set_defaults) EP_CLIENT 39" by code_simp
qed

text \<open>C27: Before the server is connected the proxy negotiates itself. A reply to one of its own
  requests is counted off and never answered. Anything else is answered by exactly one message:
  a request to enable one of six options (0, 3, 24, 31, 32, 35) is granted, everything else
  refused.\<close>

theorem opneg_answered_once:
  assumes "\<not> telnet_state_is_connected s" and "is_opneg command" and "\<not> tn_handshake_pending s ep"
    and "run_state (process_opneg x ep command option) s = (res, s')"
  defines "requested \<equiv> if command \<in> {TELNET_CMD_WILL, TELNET_CMD_WONT} then tn_do_dont_requested else tn_will_wont_requested"
  shows "(requested s option ep > 0 \<longrightarrow>
      res = ZV_ACCEPT \<and> tn_hist s' = tn_hist s \<and> requested s' option ep = requested s option ep - 1) \<and>
    (requested s option ep = 0 \<longrightarrow> (\<exists>status.
      tn_hist s' = EvWrite ep [TELNET_IAC,
        if command \<in> {TELNET_CMD_DO, TELNET_CMD_WILL} \<and> option \<in> {0, 3, 24, 31, 32, 35}
        then opneg_accept_response command else opneg_deny_response command, option] status # tn_hist s \<and>
      requested s' option ep = 0 \<and>
      res = (if status = G_IO_STATUS_NORMAL then ZV_ACCEPT else ZV_ABORT)))"
proof -
  define response where "response = (if opneg_is_enable command
      then (if option_is_whitelisted option then opneg_accept_response command else opneg_deny_response command)
      else opneg_deny_response command)"
  have response: "response = (if command \<in> {TELNET_CMD_DO, TELNET_CMD_WILL} \<and> option \<in> {0, 3, 24, 31, 32, 35}
      then opneg_accept_response command else opneg_deny_response command)"
    by (simp add: response_def opneg_is_enable_def whitelist)
  have op: "is_opneg response" by (simp add: response_def)
  note run = assms(1-4) run_option_received [OF assms(2)] run_send_opneg [OF op]
  show ?thesis
  proof (cases "command \<in> {TELNET_CMD_WILL, TELNET_CMD_WONT}")
    case True
    then have "requested = tn_do_dont_requested" by (simp add: requested_def)
    then show ?thesis
      using True run unfolding response [symmetric]
      by (cases "tn_do_dont_requested s option ep = 0")
        (auto simp: process_opneg_def process_opneg_non_transparent_def response_def [symmetric] Let_def)
  next
    case False
    then have "requested = tn_will_wont_requested" by (simp add: requested_def)
    then show ?thesis
      using False run unfolding response [symmetric]
      by (cases "tn_will_wont_requested s option ep = 0")
        (auto simp: process_opneg_def process_opneg_non_transparent_def response_def [symmetric] Let_def)
  qed
qed

theorem opneg_answered_once_witness:
  "\<exists>res s'. run_state (process_opneg quiet_ext EP_CLIENT TELNET_CMD_WILL 39) telnet_set_defaults = (res, s') \<and>
    (\<exists>status. tn_hist s' = [EvWrite EP_CLIENT [255, 254, 39] status])"
proof -
  obtain res s' where run: "run_state (process_opneg quiet_ext EP_CLIENT TELNET_CMD_WILL 39) telnet_set_defaults = (res, s')"
    by fastforce
  have nc: "\<not> telnet_state_is_connected telnet_set_defaults" by code_simp
  have np: "\<not> tn_handshake_pending telnet_set_defaults EP_CLIENT" by code_simp
  have "tn_do_dont_requested telnet_set_defaults 39 EP_CLIENT = 0" "tn_hist telnet_set_defaults = []" by code_simp+
  with opneg_answered_once [OF nc _ np run] run show ?thesis
    by (auto simp: is_opneg_def opneg_deny_response_def)
qed

text \<open>C26: While relaying, an option negotiation follows the policy's verdict: accepted, it is passed
  on unchanged to the other side; rejected, the sender gets the refusal; otherwise nothing is
  sent. (TLS settled, and not a server's message in a session that began non-transparently.)\<close>

theorem opneg_relay:
  assumes "tn_state s = TELNET_STATE_RELAYING" and "ep = EP_CLIENT \<or> telnet_proxy_is_transparent s"
    and "is_opneg command" and "option \<noteq> TELNET_OPTION_STARTTLS"
    and "run_state (telnet_policy_option x ep command option) s = (verdict, s1)"
    and "telnet_tls_is_negotiation_complete s1" and "\<not> tn_handshake_pending s1 EP_CLIENT \<and> \<not> tn_handshake_pending s1 EP_SERVER"
    and "run_state (process_opneg x ep command option) s = (res, s')"
  shows "(verdict = ZV_ACCEPT \<longrightarrow> (\<exists>status.
      tn_hist s' = EvWrite (EP_OTHER ep) [TELNET_IAC, command, option] status # tn_hist s1 \<and>
      res = (if status = G_IO_STATUS_NORMAL then ZV_ACCEPT else ZV_ABORT))) \<and>
    (verdict = ZV_REJECT \<longrightarrow> (\<exists>status.
      tn_hist s' = EvWrite ep [TELNET_IAC, opneg_deny_response command, option] status # tn_hist s1 \<and>
      res = (if status = G_IO_STATUS_NORMAL then ZV_REJECT else ZV_ABORT))) \<and>
    (verdict \<noteq> ZV_ACCEPT \<and> verdict \<noteq> ZV_REJECT \<longrightarrow> s' = s1 \<and> res = verdict)"
proof -
  have np: "\<not> tn_handshake_pending s1 e" for e using assms(7) by (cases e) auto
  have ops: "is_opneg TELNET_CMD_WONT" "is_opneg TELNET_CMD_DONT" by (simp_all add: is_opneg_def)
  have run: "run_state (process_opneg x ep command option) s =
      (if verdict = ZV_ACCEPT then run_state (process_opneg_ok x ep command option) s1
       else if verdict = ZV_REJECT then run_state (process_opneg_reject x ep command option) s1
       else (verdict, s1))"
    using assms(1,2,4,5,6)
    by (auto simp: process_opneg_def process_opneg_transparent_def telnet_state_is_connected_def
        telnet_option_negotiation_table_def)
  have ok: "run_state (process_opneg_ok x ep command option) s1 =
      (let st = x_write x (tn_hist s1) (EP_OTHER ep) [TELNET_IAC, command, option] in
       (if st \<noteq> G_IO_STATUS_NORMAL then ZV_ABORT else ZV_ACCEPT,
        s1\<lparr>tn_options := sent_options (received_options (tn_options s1) ep command option) (EP_OTHER ep) command option,
          tn_hist := EvWrite (EP_OTHER ep) [TELNET_IAC, command, option] st # tn_hist s1\<rparr>))"
    using assms(3) np by (simp add: process_opneg_ok_def run_option_received run_send_opneg Let_def)
  define refused where "refused = (if command \<in> {TELNET_CMD_WILL, TELNET_CMD_WONT} then TELNET_CMD_WONT else TELNET_CMD_DONT)"
  define deny where "deny = opneg_deny_response command"
  have rej: "run_state (process_opneg_reject x ep command option) s1 =
      (let st = x_write x (tn_hist s1) ep [TELNET_IAC, deny, option] in
       (if st \<noteq> G_IO_STATUS_NORMAL then ZV_ABORT else ZV_REJECT,
        s1\<lparr>tn_options := sent_options (received_options (tn_options s1) ep refused option) ep deny option,
          tn_hist := EvWrite ep [TELNET_IAC, deny, option] st # tn_hist s1\<rparr>))"
  proof (cases "command \<in> {TELNET_CMD_WILL, TELNET_CMD_WONT}")
    case True
    then have "deny = TELNET_CMD_DONT" "refused = TELNET_CMD_WONT"
      by (auto simp: deny_def refused_def opneg_deny_response_def)
    then show ?thesis
      using True np ops by (simp add: process_opneg_reject_def run_option_received run_send_opneg Let_def)
  next
    case False
    then have "deny = TELNET_CMD_WONT" "refused = TELNET_CMD_DONT" "command = TELNET_CMD_DO \<or> command = TELNET_CMD_DONT"
      using assms(3) by (auto simp: deny_def refused_def opneg_deny_response_def is_opneg_def)
    then show ?thesis
      using False np ops by (simp add: process_opneg_reject_def run_option_received run_send_opneg Let_def)
  qed
  consider (accept) "verdict = ZV_ACCEPT" | (reject) "verdict = ZV_REJECT" | (other) "verdict \<noteq> ZV_ACCEPT" "verdict \<noteq> ZV_REJECT"
    by blast
  then show ?thesis
  proof cases
    case accept
    let ?st = "x_write x (tn_hist s1) (EP_OTHER ep) [TELNET_IAC, command, option]"
    have "tn_hist s' = EvWrite (EP_OTHER ep) [TELNET_IAC, command, option] ?st # tn_hist s1"
      "res = (if ?st = G_IO_STATUS_NORMAL then ZV_ACCEPT else ZV_ABORT)"
      using assms(8) accept run ok by (auto simp: Let_def)
    with accept show ?thesis by simp
  next
    case reject
    let ?st = "x_write x (tn_hist s1) ep [TELNET_IAC, deny, option]"
    have "tn_hist s' = EvWrite ep [TELNET_IAC, deny, option] ?st # tn_hist s1"
      "res = (if ?st = G_IO_STATUS_NORMAL then ZV_REJECT else ZV_ABORT)"
      using assms(8) reject run rej by (auto simp: Let_def)
    with reject show ?thesis by (simp add: deny_def)
  next
    case other
    with assms(8) run show ?thesis by simp
  qed
qed

theorem opneg_relay_witness:
  "\<exists>res s'. run_state (process_opneg quiet_ext EP_CLIENT TELNET_CMD_WILL 24)
      (sample_session\<lparr>tn_state := TELNET_STATE_RELAYING\<rparr>) = (res, s') \<and>
    (\<exists>status h. tn_hist s' = EvWrite EP_SERVER [255, 251, 24] status # h)"
proof -
  let ?s = "sample_session\<lparr>tn_state := TELNET_STATE_RELAYING\<rparr>"
  obtain res s' where run: "run_state (process_opneg quiet_ext EP_CLIENT TELNET_CMD_WILL 24) ?s = (res, s')" by fastforce
  let ?p = "run_state (telnet_policy_option quiet_ext EP_CLIENT TELNET_CMD_WILL 24) ?s"
  have "fst ?p = ZV_ACCEPT" by code_simp
  then have p: "?p = (ZV_ACCEPT, snd ?p)" by (metis prod.collapse)
  have tls: "telnet_tls_is_negotiation_complete (snd ?p)" by code_simp
  have np: "\<not> tn_handshake_pending (snd ?p) EP_CLIENT \<and> \<not> tn_handshake_pending (snd ?p) EP_SERVER" by code_simp
  show ?thesis
    using opneg_relay [OF _ _ _ _ p tls np run] run by (auto simp: is_opneg_def)
qed

text \<open>C37: A relayed command below 240 reaches the other side exactly when its option (its own number,
  or the one the negotiation table names; 255 for always) is in use by the sender; a built-in
  command from 240 on is accepted but never passed on.\<close>

theorem command_relay:
  assumes "tn_state s = TELNET_STATE_RELAYING" and "\<not> tn_handshake_pending s (EP_OTHER ep)"
    and "run_state (process_command x ep command) s = (res, s')"
  defines "needed \<equiv> case tn_negotiation s (decimal (unat command)) of None \<Rightarrow> Some (unat command) | Some v \<Rightarrow> parse_I v"
  shows "(command \<ge> 240 \<longrightarrow> res = ZV_ACCEPT \<and> s' = s) \<and>
    (command < 240 \<longrightarrow>
      (if (case needed of None \<Rightarrow> False
           | Some n \<Rightarrow> n = 255 \<or> n < 255 \<and> telnet_option_do (tn_options s) ep (of_nat n))
       then \<exists>status. tn_hist s' = EvWrite (EP_OTHER ep) [TELNET_IAC, command] status # tn_hist s \<and>
              res = (if status = G_IO_STATUS_NORMAL then ZV_ACCEPT else ZV_ABORT)
       else res = ZV_REJECT \<and> s' = s))"
proof (cases "command \<ge> 240")
  case True
  then show ?thesis
    using assms(1,3) by (simp add: process_command_def process_command_transparent_def telnet_state_is_connected_def)
next
  case False
  then have "run_state (process_command x ep command) s = (case needed of
        None \<Rightarrow> (ZV_REJECT, s)
      | Some n \<Rightarrow>
          if n = 255 \<or> n < 255 \<and> telnet_option_do (tn_options s) ep (of_nat n) then
            (if x_write x (tn_hist s) (EP_OTHER ep) [TELNET_IAC, command] \<noteq> G_IO_STATUS_NORMAL then ZV_ABORT else ZV_ACCEPT,
             s\<lparr>tn_hist := EvWrite (EP_OTHER ep) [TELNET_IAC, command]
                 (x_write x (tn_hist s) (EP_OTHER ep) [TELNET_IAC, command]) # tn_hist s\<rparr>)
          else (ZV_REJECT, s))"
    using assms(1,2)
    by (auto simp: process_command_def process_command_transparent_def telnet_state_is_connected_def Let_def
        telnet_send_command_def run_write needed_def [symmetric] split: option.split)
  note run = this [unfolded assms(3), symmetric]
  show ?thesis
  proof (cases "case needed of None \<Rightarrow> False
      | Some n \<Rightarrow> n = 255 \<or> n < 255 \<and> telnet_option_do (tn_options s) ep (of_nat n)")
    case True
    then obtain n where n: "needed = Some n" "n = 255 \<or> n < 255 \<and> telnet_option_do (tn_options s) ep (of_nat n)"
      by (cases needed) auto
    let ?st = "x_write x (tn_hist s) (EP_OTHER ep) [TELNET_IAC, command]"
    have "tn_hist s' = EvWrite (EP_OTHER ep) [TELNET_IAC, command] ?st # tn_hist s"
      "res = (if ?st = G_IO_STATUS_NORMAL then ZV_ACCEPT else ZV_ABORT)"
      using run n by auto
    with True \<open>\<not> 240 \<le> command\<close> show ?thesis by simp
  next
    case no: False
    then have "res = ZV_REJECT" "s' = s" using run by (cases needed; auto)+
    with no False show ?thesis by simp
  qed
qed

theorem command_relay_witness:
  "run_state (process_command quiet_ext EP_CLIENT 246) (sample_session\<lparr>tn_state := TELNET_STATE_RELAYING\<rparr>) =
    (ZV_ACCEPT, sample_session\<lparr>tn_state := TELNET_STATE_RELAYING\<rparr>)"
proof -
  let ?s = "sample_session\<lparr>tn_state := TELNET_STATE_RELAYING\<rparr>"
  obtain res s' where run: "run_state (process_command quiet_ext EP_CLIENT 246) ?s = (res, s')" by fastforce
  have np: "\<not> tn_handshake_pending ?s (EP_OTHER EP_CLIENT)" by code_simp
  show ?thesis using command_relay [OF _ np run] run by simp
qed

text \<open>Before the server is connected a required client-side STARTTLS cannot happen: the client's
  agreement to the request the proxy sent (\<open>WILL STARTTLS\<close>) is answered by a refusal and moves no
  TLS state, so the session goes on in clear text.\<close>

theorem starttls_refused_before_connect:
  assumes "\<not> telnet_state_is_connected s" and "\<not> tn_handshake_pending s EP_CLIENT"
    and "tn_do_dont_requested s TELNET_OPTION_STARTTLS EP_CLIENT = 0"
    and "run_state (process_opneg x EP_CLIENT TELNET_CMD_WILL TELNET_OPTION_STARTTLS) s = (res, s')"
  shows "(\<exists>status. tn_hist s' = EvWrite EP_CLIENT [TELNET_IAC, TELNET_CMD_DONT, TELNET_OPTION_STARTTLS] status # tn_hist s) \<and>
    tn_tls_status s' = tn_tls_status s \<and> tn_tls_completed s' = tn_tls_completed s \<and> tn_state s' = tn_state s"
proof -
  have ops: "is_opneg TELNET_CMD_WILL" "is_opneg TELNET_CMD_DONT" by (simp_all add: is_opneg_def)
  have "(if opneg_is_enable TELNET_CMD_WILL
         then (if option_is_whitelisted TELNET_OPTION_STARTTLS then opneg_accept_response TELNET_CMD_WILL
               else opneg_deny_response TELNET_CMD_WILL)
         else opneg_deny_response TELNET_CMD_WILL) = TELNET_CMD_DONT"
    by (simp add: whitelist opneg_deny_response_def)
  then show ?thesis
    using assms ops
    by (auto simp: process_opneg_def process_opneg_non_transparent_def run_option_received run_send_opneg Let_def)
qed

theorem starttls_refused_before_connect_witness:
  "\<exists>res s'. run_state (process_opneg quiet_ext EP_CLIENT TELNET_CMD_WILL TELNET_OPTION_STARTTLS)
      (telnet_set_defaults\<lparr>tn_vars := telnet_vars_defaults\<lparr>tls_required := (\<lambda>_. True)\<rparr>,
        tn_tls_status := (\<lambda>_. TELNET_TLS_STATUS_NONE)(EP_CLIENT := TELNET_TLS_STATUS_SERVER_REQUESTED_TLS)\<rparr>) = (res, s') \<and>
    tn_tls_status s' EP_CLIENT = TELNET_TLS_STATUS_SERVER_REQUESTED_TLS"
proof -
  let ?s = "telnet_set_defaults\<lparr>tn_vars := telnet_vars_defaults\<lparr>tls_required := (\<lambda>_. True)\<rparr>,
        tn_tls_status := (\<lambda>_. TELNET_TLS_STATUS_NONE)(EP_CLIENT := TELNET_TLS_STATUS_SERVER_REQUESTED_TLS)\<rparr>"
  obtain res s' where run:
    "run_state (process_opneg quiet_ext EP_CLIENT TELNET_CMD_WILL TELNET_OPTION_STARTTLS) ?s = (res, s')" by fastforce
  have "\<not> telnet_state_is_connected ?s" "\<not> tn_handshake_pending ?s EP_CLIENT"
    "tn_do_dont_requested ?s TELNET_OPTION_STARTTLS EP_CLIENT = 0" by code_simp+
  then show ?thesis using starttls_refused_before_connect [OF _ _ _ run] run by simp
qed

end
