(* ===== verification/Telnet_Session.thy ===== *)
theory Telnet_Session
  imports Telnet_State
begin

text \<open>
  The states of a session before it relays (second half of \<^verbatim>\<open>modules/telnet/telnetstate.cc\<close>)
  and the connection to the server (\<^verbatim>\<open>telnet_event_connect_server\<close> of \<^verbatim>\<open>telnet.cc\<close>): the option
  negotiation with the client, gateway authentication with its prompts, in-band server
  selection. Authentication and the connection itself are outside calls.
\<close>

section \<open>Server connection\<close>

definition z_proxy_connect_server :: "telnet_ext \<Rightarrow> bytes option \<Rightarrow> 32 word \<Rightarrow> bool tm" where
  "z_proxy_connect_server x host port = do {
     h \<leftarrow> gets tn_hist;
     v \<leftarrow> gets tn_vars;
     case x_connect_server x h host port v of (res, v') \<Rightarrow> do {
       log_event (EvConnect host port res);
       set_vars v';
       return res
     }
   }"

text \<open>The messages to the client; the port is printed into a buffer of five digits.\<close>

definition numbuf :: "32 word \<Rightarrow> bytes" where
  "numbuf port = bytes_of (take 5 (decimal (unat port)))"

definition connect_failed_message :: "bytes option \<Rightarrow> 32 word \<Rightarrow> bytes" where
  "connect_failed_message host port =
     (case host of
        Some h \<Rightarrow> [13, 10] @ bytes_of ''Connection to server '' @ [39] @ h @ bytes_of '':'' @ numbuf port @
          [39] @ bytes_of '' failed.'' @ [13, 10, 13, 10]
      | None \<Rightarrow> [13, 10] @ bytes_of ''Connection to server failed.'' @ [13, 10, 13, 10])"

definition connected_message :: "bytes option \<Rightarrow> bytes \<Rightarrow> 32 word \<Rightarrow> bytes" where
  "connected_message host name port =
     (case host of
        Some h \<Rightarrow> [13, 10] @ bytes_of ''Connected to server '' @ [39] @ cstr name @ bytes_of '':'' @ numbuf port @
          [39] @ [13, 10, 13, 10]
      | None \<Rightarrow> [13, 10] @ bytes_of ''Connected to server.'' @ [13, 10, 13, 10])"

definition telnet_init_server_stream :: "unit tm" where
  "telnet_init_server_stream = modify (\<lambda>s. s\<lparr>tn_server_stream_initialized := True\<rparr>)"

definition telnet_change_state_to_connected :: "unit tm" where
  "telnet_change_state_to_connected = telnet_change_state TELNET_STATE_RELAYING"

text \<open>Initialising the server stream always succeeds. The host name is the one read before the call.\<close>

definition telnet_event_connect_server :: "telnet_ext \<Rightarrow> unit tm" where
  "telnet_event_connect_server x = do {
     s \<leftarrow> gets (\<lambda>s. s);
     let host = (if tn_transparent s then None else Some (cstr (server_hostname (tn_vars s))));
     let port = (if tn_transparent s then 0 else server_port (tn_vars s));
     ok \<leftarrow> z_proxy_connect_server x host port;
     if \<not> ok then do {
       telnet_send_data x EP_CLIENT (connect_failed_message host port);
       telnet_change_state TELNET_STATE_QUIT
     }
     else do {
       telnet_init_server_stream;
       v \<leftarrow> gets tn_vars;
       status \<leftarrow> telnet_send_data x EP_CLIENT (connected_message host (server_hostname v) (server_port v));
       (if status \<noteq> G_IO_STATUS_NORMAL then telnet_change_state TELNET_STATE_QUIT
        else telnet_change_state_to_connected);
       s' \<leftarrow> gets (\<lambda>s. s);
       if telnet_tls_is_negotiation_complete_on_side s' EP_SERVER then return ()
       else do {
         started \<leftarrow> telnet_tls_start_negotiate_on_side x EP_SERVER;
         if started then return () else telnet_change_state TELNET_STATE_QUIT
       }
     }
   }"

section \<open>Option negotiation with the client\<close>

definition send_will_option :: "telnet_ext \<Rightarrow> endpoint \<Rightarrow> byte \<Rightarrow> bool tm" where
  "send_will_option x ep option = do {
     status \<leftarrow> telnet_send_opneg x ep TELNET_CMD_WILL option;
     if status \<noteq> G_IO_STATUS_NORMAL then return False
     else do {
       modify (\<lambda>s. s\<lparr>tn_will_wont_requested := (tn_will_wont_requested s)(option :=
         (tn_will_wont_requested s option)(ep := tn_will_wont_requested s option ep + 1))\<rparr>);
       return True
     }
   }"

definition send_do_option :: "telnet_ext \<Rightarrow> endpoint \<Rightarrow> byte \<Rightarrow> bool tm" where
  "send_do_option x ep option = do {
     status \<leftarrow> telnet_send_opneg x ep TELNET_CMD_DO option;
     if status \<noteq> G_IO_STATUS_NORMAL then return False
     else do {
       modify (\<lambda>s. s\<lparr>tn_do_dont_requested := (tn_do_dont_requested s)(option :=
         (tn_do_dont_requested s option)(ep := tn_do_dont_requested s option ep + 1))\<rparr>);
       return True
     }
   }"

definition telnet_event_start_opneg :: "telnet_ext \<Rightarrow> unit tm" where
  "telnet_event_start_opneg x = do {
     echo \<leftarrow> send_will_option x EP_CLIENT TELNET_OPTION_ECHO;
     sga \<leftarrow> (if echo then send_will_option x EP_CLIENT TELNET_OPTION_SUPPRESS_GO_AHEAD else return False);
     env \<leftarrow> (if sga then send_do_option x EP_CLIENT TELNET_OPTION_ENVIRONMENT else return False);
     if env then telnet_change_state TELNET_STATE_WAIT_OPNEG else telnet_change_state TELNET_STATE_QUIT
   }"

definition opneg_finished :: "TelnetProxy \<Rightarrow> endpoint \<Rightarrow> byte \<Rightarrow> bool" where
  "opneg_finished s ep option \<longleftrightarrow>
     tn_will_wont_requested s option ep = 0 \<and>
     \<not> telnet_option_will_in_progress (tn_options s) ep option \<and>
     \<not> telnet_option_do_in_progress (tn_options s) ep option"

definition telnet_event_request_environment :: "telnet_ext \<Rightarrow> unit tm" where
  "telnet_event_request_environment x = do {
     telnet_send_suboption x EP_CLIENT [TELNET_OPTION_ENVIRONMENT, TELNET_SB_SEND];
     telnet_change_state TELNET_STATE_WAIT_ENVIRONMENT
   }"

section \<open>Gateway authentication and server selection\<close>

definition telnet_do_gateway_auth :: "telnet_ext \<Rightarrow> bool tm" where
  "telnet_do_gateway_auth x = do {
     s \<leftarrow> gets (\<lambda>s. s);
     let user = cstr (gateway_user (tn_vars s));
     let passwd = cstr (tn_gateway_password s);
     let res = x_check_passwd x (tn_hist s) user passwd;
     log_event (EvAuthCheck user passwd res);
     if \<not> res then return False
     else do {
       h \<leftarrow> gets tn_hist;
       v \<leftarrow> gets tn_vars;
       case x_user_authenticated x h (cstr (gateway_user v)) v of (rc, v') \<Rightarrow> do {
         log_event (EvUserAuth (cstr (gateway_user v)) rc);
         set_vars v';
         return rc
       }
     }
   }"

definition set_echo :: "bool \<Rightarrow> unit tm" where
  "set_echo b = modify (\<lambda>s. s\<lparr>tn_line_editor := (tn_line_editor s)\<lparr>do_echo := b\<rparr>\<rparr>)"

definition telnet_event_prompt_user :: "telnet_ext \<Rightarrow> unit tm" where
  "telnet_event_prompt_user x = do {
     pkt \<leftarrow> gets tn_gateway_user_prompt;
     set_echo True;
     status \<leftarrow> telnet_send_data x EP_CLIENT pkt;
     if status \<noteq> G_IO_STATUS_NORMAL then telnet_change_state TELNET_STATE_QUIT
     else telnet_change_state TELNET_STATE_PROMPT_USER
   }"

definition telnet_event_prompt_password :: "telnet_ext \<Rightarrow> unit tm" where
  "telnet_event_prompt_password x = do {
     pkt \<leftarrow> gets tn_gateway_password_prompt;
     set_echo False;
     status \<leftarrow> telnet_send_data x EP_CLIENT pkt;
     if status \<noteq> G_IO_STATUS_NORMAL then telnet_change_state TELNET_STATE_QUIT
     else telnet_change_state TELNET_STATE_PROMPT_PASSWORD
   }"

definition telnet_event_prompt_server :: "telnet_ext \<Rightarrow> unit tm" where
  "telnet_event_prompt_server x = do {
     pkt \<leftarrow> gets tn_server_name_prompt;
     set_echo True;
     status \<leftarrow> telnet_send_data x EP_CLIENT pkt;
     if status \<noteq> G_IO_STATUS_NORMAL then telnet_change_state TELNET_STATE_QUIT
     else telnet_change_state TELNET_STATE_PROMPT_SERVER
   }"

definition telnet_event_print_banner :: "telnet_ext \<Rightarrow> unit tm" where
  "telnet_event_print_banner x = do {
     banner \<leftarrow> gets tn_banner;
     status \<leftarrow> telnet_send_data x EP_CLIENT (telnet_user_string_to_pktbuf banner);
     if status \<noteq> G_IO_STATUS_NORMAL then telnet_change_state TELNET_STATE_QUIT else return ()
   }"

definition start_inband_server_selection :: "telnet_ext \<Rightarrow> unit tm" where
  "start_inband_server_selection x = do {
     v \<leftarrow> gets tn_vars;
     (if length (server_hostname v) > 0
      then modify (\<lambda>s. s\<lparr>tn_server_hostname_is_from_env := True\<rparr>) else return ());
     s \<leftarrow> gets (\<lambda>s. s);
     if tn_transparent s \<or> tn_server_hostname_is_from_env s then telnet_event_connect_server x
     else telnet_event_prompt_server x
   }"

definition auth_failed_message :: bytes where
  "auth_failed_message = [13, 10] @ bytes_of ''Gateway authentication failed.'' @ [13, 10]"

definition gateway_authentication_failed :: "telnet_ext \<Rightarrow> unit tm" where
  "gateway_authentication_failed x = do {
     status \<leftarrow> telnet_send_data x EP_CLIENT auth_failed_message;
     if status \<noteq> G_IO_STATUS_NORMAL then telnet_change_state TELNET_STATE_QUIT
     else do {
       from_env \<leftarrow> gets tn_gateway_password_is_from_env;
       if from_env then telnet_change_state TELNET_STATE_QUIT
       else do {
         modify (\<lambda>s. s\<lparr>tn_gw_authentication_failures := tn_gw_authentication_failures s + 1\<rparr>);
         failures \<leftarrow> gets tn_gw_authentication_failures;
         if failures \<ge> 3 then telnet_change_state TELNET_STATE_QUIT else telnet_event_prompt_password x
       }
     }
   }"

definition start_inband_authentication :: "telnet_ext \<Rightarrow> unit tm" where
  "start_inband_authentication x = do {
     s \<leftarrow> gets (\<lambda>s. s);
     if length (gateway_user (tn_vars s)) > 0 then
       (if length (tn_gateway_password s) > 0 then do {
          ok \<leftarrow> telnet_do_gateway_auth x;
          if ok then start_inband_server_selection x else gateway_authentication_failed x
        }
        else telnet_event_prompt_password x)
     else telnet_event_prompt_user x
   }"

definition start_non_transparent_session :: "telnet_ext \<Rightarrow> unit tm" where
  "start_non_transparent_session x = do {
     telnet_event_print_banner x;
     s \<leftarrow> gets (\<lambda>s. s);
     if tn_auth s \<and> tn_gw_auth_required s then start_inband_authentication x
     else start_inband_server_selection x
   }"

section \<open>The states\<close>

definition telnet_state_nt_wait_opneg :: "telnet_ext \<Rightarrow> unit tm" where
  "telnet_state_nt_wait_opneg x = do {
     s \<leftarrow> gets (\<lambda>s. s);
     if opneg_finished s EP_CLIENT TELNET_OPTION_ECHO \<and>
        opneg_finished s EP_CLIENT TELNET_OPTION_SUPPRESS_GO_AHEAD \<and>
        opneg_finished s EP_CLIENT TELNET_OPTION_ENVIRONMENT
     then
       (if \<not> telnet_option_will (tn_options s) EP_CLIENT TELNET_OPTION_ECHO
        then telnet_change_state TELNET_STATE_QUIT
        else do {
          tls_ok \<leftarrow> (if telnet_tls_is_negotiation_complete_on_side s EP_CLIENT then return True
                     else telnet_tls_start_negotiate_on_side x EP_CLIENT);
          if \<not> tls_ok then telnet_change_state TELNET_STATE_QUIT
          else do {
            opts \<leftarrow> gets tn_options;
            if telnet_option_do opts EP_CLIENT TELNET_OPTION_ENVIRONMENT
            then telnet_event_request_environment x
            else start_non_transparent_session x
          }
        })
     else return ()
   }"

definition telnet_state_nt_wait_environment :: "telnet_ext \<Rightarrow> unit tm" where
  "telnet_state_nt_wait_environment x = do {
     received \<leftarrow> gets tn_environment_is_received;
     if received then start_non_transparent_session x else return ()
   }"

definition take_line :: "bytes tm" where
  "take_line = do {
     line \<leftarrow> gets (\<lambda>s. le_data (tn_line_editor s));
     modify (\<lambda>s. s\<lparr>tn_line_editor := telnet_lineedit_clear (tn_line_editor s)\<rparr>);
     return line
   }"

definition telnet_state_nt_prompt_server :: "telnet_ext \<Rightarrow> unit tm" where
  "telnet_state_nt_prompt_server x = do {
     ended \<leftarrow> gets (\<lambda>s. eol (tn_line_editor s));
     if ended then do {
       server \<leftarrow> take_line;
       ok \<leftarrow> telnet_policy_parse_authinfo x ''SERVER'' server;
       if ok then telnet_event_connect_server x else telnet_event_prompt_server x
     }
     else return ()
   }"

definition telnet_state_nt_prompt_user :: "telnet_ext \<Rightarrow> unit tm" where
  "telnet_state_nt_prompt_user x = do {
     ended \<leftarrow> gets (\<lambda>s. eol (tn_line_editor s));
     if ended then do {
       line \<leftarrow> take_line;
       upd_vars (\<lambda>v. v\<lparr>gateway_user := line\<rparr>);
       start_inband_authentication x
     }
     else return ()
   }"

definition telnet_state_nt_prompt_password :: "telnet_ext \<Rightarrow> unit tm" where
  "telnet_state_nt_prompt_password x = do {
     ended \<leftarrow> gets (\<lambda>s. eol (tn_line_editor s));
     if ended then do {
       line \<leftarrow> take_line;
       modify (\<lambda>s. s\<lparr>tn_gateway_password := line\<rparr>);
       res \<leftarrow> telnet_do_gateway_auth x;
       if res then start_inband_server_selection x else start_inband_authentication x
     }
     else return ()
   }"

section \<open>Frame\<close>

text \<open>
  Invariants that do not care which state the session is in: they tolerate every write, every
  outside call and every change of state, so every state handler keeps them.
\<close>

locale state_frame = tls_frame I "\<lambda>_. True" for I +
  assumes I_state: "I s \<Longrightarrow> I (s\<lparr>tn_state := st\<rparr>)"
    and I_init: "I s \<Longrightarrow> I (s\<lparr>tn_server_stream_initialized := b\<rparr>)"
    and I_echo: "I s \<Longrightarrow> I (s\<lparr>tn_line_editor := e\<rparr>)"
    and I_failures: "I s \<Longrightarrow> I (s\<lparr>tn_gw_authentication_failures := n\<rparr>)"
    and I_connect: "I s \<Longrightarrow> I (s\<lparr>tn_hist := EvConnect host port r # tn_hist s\<rparr>)"
    and I_check: "I s \<Longrightarrow> I (s\<lparr>tn_hist := EvAuthCheck user passwd r # tn_hist s\<rparr>)"
    and I_user: "I s \<Longrightarrow> I (s\<lparr>tn_hist := EvUserAuth user r # tn_hist s\<rparr>)"
begin

lemma keeps_state [keeps_intros]: "keeps I (telnet_change_state st)"
  unfolding telnet_change_state_def by (rule keeps_modify) (rule I_state)

lemma keeps_session_log:
  "keeps I (log_event (EvConnect host port r))" "keeps I (log_event (EvAuthCheck user passwd r))"
  "keeps I (log_event (EvUserAuth user r))"
  unfolding log_event_def by (auto intro: keeps_modify I_connect I_check I_user)

lemma keeps_connect_server: "keeps I (telnet_event_connect_server x)"
  unfolding telnet_event_connect_server_def z_proxy_connect_server_def telnet_init_server_stream_def
    telnet_change_state_to_connected_def
  by (intro keeps_intros keeps_sends keeps_session_log keeps_vars keeps_state keeps_tls_handlers keeps_modify
      I_init; simp)

lemma keeps_prompts:
  "keeps I (telnet_event_prompt_user x)" "keeps I (telnet_event_prompt_password x)"
  "keeps I (telnet_event_prompt_server x)" "keeps I (telnet_event_print_banner x)"
  unfolding telnet_event_prompt_user_def telnet_event_prompt_password_def telnet_event_prompt_server_def
    telnet_event_print_banner_def set_echo_def
  by (intro keeps_intros keeps_sends keeps_state keeps_modify I_echo; simp)+

lemma keeps_gateway_auth: "keeps I (telnet_do_gateway_auth x)"
  unfolding telnet_do_gateway_auth_def by (intro keeps_intros keeps_session_log keeps_vars)

lemma keeps_server_selection: "keeps I (start_inband_server_selection x)"
  unfolding start_inband_server_selection_def
  by (intro keeps_intros keeps_connect_server keeps_prompts keeps_local; simp add: core_def)

lemma keeps_authentication: "keeps I (start_inband_authentication x)"
  unfolding start_inband_authentication_def gateway_authentication_failed_def
  by (intro keeps_intros keeps_gateway_auth keeps_server_selection keeps_prompts keeps_sends keeps_state
      keeps_modify I_failures; simp)

lemma keeps_non_transparent: "keeps I (start_non_transparent_session x)"
  unfolding start_non_transparent_session_def
  by (intro keeps_intros keeps_authentication keeps_server_selection keeps_prompts)

lemma keeps_take_line: "keeps I take_line"
  unfolding take_line_def by (intro keeps_intros keeps_modify I_echo)

lemma keeps_handlers:
  "keeps I (telnet_state_nt_wait_opneg x)" "keeps I (telnet_state_nt_wait_environment x)"
  "keeps I (telnet_state_nt_prompt_server x)" "keeps I (telnet_state_nt_prompt_user x)"
  "keeps I (telnet_state_nt_prompt_password x)"
  unfolding telnet_state_nt_wait_opneg_def telnet_state_nt_wait_environment_def telnet_state_nt_prompt_server_def
    telnet_state_nt_prompt_user_def telnet_state_nt_prompt_password_def telnet_event_request_environment_def
  by (intro keeps_intros keeps_state keeps_non_transparent keeps_authentication keeps_server_selection
      keeps_gateway_auth keeps_prompts keeps_connect_server keeps_parse_authinfo keeps_take_line keeps_vars
      keeps_tls_handlers keeps_sends keeps_local; simp add: core_def)+

lemma keeps_start_opneg: "keeps I (telnet_event_start_opneg x)"
  unfolding telnet_event_start_opneg_def send_will_option_def send_do_option_def
  by (intro keeps_intros keeps_state keeps_send_opneg keeps_local; simp add: core_def is_opneg_def)

end

end
