(* ===== verification/Telnet_Main.thy ===== *)
theory Telnet_Main
  imports Telnet_Session
begin

text \<open>
  The life of a Telnet proxy (\<^verbatim>\<open>modules/telnet/telnet.cc\<close>): configuration, reading from a
  stream, the start of \<^verbatim>\<open>telnet_main\<close> and its loop. What the poll loop delivers in one round is
  an input of the model: the reads it dispatched, and its own return value as a function of the
  quit flag. Flow control only chooses which stream is read next, so any order of reads is
  allowed here. The theorems are about every state the loop can reach.
\<close>

section \<open>Configuration\<close>

text \<open>The attributes a policy may set before the proxy starts.\<close>

record telnet_cfg =
  cfg_option :: "(string list \<times> pyval) list"
  cfg_negotiation :: "string \<rightharpoonup> pyval"
  cfg_auth :: bool
  cfg_transparent_mode :: bool
  cfg_gw_auth :: bool
  cfg_banner :: bytes
  cfg_server_name_prompt :: bytes
  cfg_gateway_user_prompt :: bytes
  cfg_gateway_password_prompt :: bytes
  cfg_tls_required :: "endpoint \<Rightarrow> bool"
  cfg_security :: "endpoint \<Rightarrow> security"

fun insert_all :: "'v dimhash \<Rightarrow> (string list \<times> 'v) list \<Rightarrow> mem_error + 'v dimhash" where
  "insert_all t [] = Inr t"
| "insert_all t ((keys, v) # entries) =
     (case z_dim_hash_table_insert t v keys of Inl e \<Rightarrow> Inl e | Inr t' \<Rightarrow> insert_all t' entries)"

definition telnet_config_init :: "TelnetProxy \<Rightarrow> TelnetProxy" where
  "telnet_config_init s = s\<lparr>tn_options := (\<lambda>_ _. 0)\<rparr>"

definition telnet_config :: "telnet_cfg \<Rightarrow> mem_error + TelnetProxy" where
  "telnet_config cfg =
     (let s = telnet_state_register_callbacks EP_SERVER (telnet_state_register_callbacks EP_CLIENT telnet_set_defaults)
      in case insert_all (tn_policy s) (cfg_option cfg) of
           Inl e \<Rightarrow> Inl e
         | Inr policy \<Rightarrow> Inr (telnet_config_init (s\<lparr>
             tn_policy := policy,
             tn_negotiation := cfg_negotiation cfg,
             tn_auth := cfg_auth cfg,
             tn_transparent := cfg_transparent_mode cfg,
             tn_gw_auth_required := cfg_gw_auth cfg,
             tn_banner := cfg_banner cfg,
             tn_server_name_prompt := cfg_server_name_prompt cfg,
             tn_gateway_user_prompt := cfg_gateway_user_prompt cfg,
             tn_gateway_password_prompt := cfg_gateway_password_prompt cfg,
             tn_vars := (tn_vars s)\<lparr>tls_required := cfg_tls_required cfg\<rparr>,
             tn_security := cfg_security cfg\<rparr>)))"

definition telnet_check_valid_config :: "TelnetProxy \<Rightarrow> bool" where
  "telnet_check_valid_config s \<longleftrightarrow> \<not> (tn_gw_auth_required s \<and> \<not> tn_auth s)"

section \<open>Reading\<close>

definition z_poll_quit :: "TelnetProxy \<Rightarrow> TelnetProxy" where
  "z_poll_quit s = s\<lparr>tn_poll_quit := True\<rparr>"

lemma z_poll_quit_simps:
  "tn_state (z_poll_quit s) = tn_state s" "tn_line_editor (z_poll_quit s) = tn_line_editor s"
  "tn_gw_authentication_failures (z_poll_quit s) = tn_gw_authentication_failures s"
  by (simp_all add: z_poll_quit_def)

text \<open>The status and the bytes are what the stream returned.\<close>

definition telnet_read :: "telnet_ext \<Rightarrow> endpoint \<Rightarrow> giostatus \<Rightarrow> bytes \<Rightarrow> TelnetProxy \<Rightarrow> bool \<times> TelnetProxy" where
  "telnet_read x ep status data s =
     (if status = G_IO_STATUS_ERROR \<or> status = G_IO_STATUS_EOF then (False, z_poll_quit s)
      else if status = G_IO_STATUS_AGAIN then (True, s)
      else case telnet_protocol_process_data (telnet_state_callbacks x ep) data (tn_protocol s ep, s) of
        (p, s1) \<Rightarrow>
          (let s2 = s1\<lparr>tn_protocol := (tn_protocol s1)(ep := p)\<rparr>;
               res = telnet_protocol_is_running p
           in (res, if res then s2 else z_poll_quit s2)))"

text \<open>One round of the poll: only a stream that was initialised can be read.\<close>

record poll_in =
  pi_loop :: bool
  pi_reads :: "(endpoint \<times> giostatus \<times> bytes) list"
  pi_poll :: "bool \<Rightarrow> bool"

definition poll_read :: "telnet_ext \<Rightarrow> endpoint \<times> giostatus \<times> bytes \<Rightarrow> TelnetProxy \<Rightarrow> TelnetProxy" where
  "poll_read x = (\<lambda>(ep, status, data) s.
     if ep = EP_CLIENT \<or> tn_server_stream_initialized s then snd (telnet_read x ep status data s) else s)"

section \<open>The main function\<close>

definition proxy_is_running :: "TelnetProxy \<Rightarrow> bool" where
  "proxy_is_running s \<longleftrightarrow> tn_state s \<noteq> TELNET_STATE_QUIT"

text \<open>What precedes the loop; no result when the configuration is refused.\<close>

definition telnet_main_enter :: "telnet_ext \<Rightarrow> unit tm" where
  "telnet_main_enter x = do {
     s \<leftarrow> gets (\<lambda>s. s);
     if telnet_proxy_is_transparent s then do {
       ok \<leftarrow> z_proxy_connect_server x None 0;
       if \<not> ok then telnet_change_state TELNET_STATE_QUIT
       else do {
         telnet_init_server_stream;
         telnet_change_state_to_connected;
         s' \<leftarrow> gets (\<lambda>s. s);
         tls_ok \<leftarrow> (if telnet_tls_is_negotiation_complete s' then return True else telnet_tls_start_negotiate x);
         (if tls_ok then return () else telnet_change_state TELNET_STATE_QUIT);
         telnet_event_print_banner x
       }
     }
     else telnet_event_start_opneg x
   }"

definition telnet_main_start :: "telnet_ext \<Rightarrow> TelnetProxy \<Rightarrow> TelnetProxy option" where
  "telnet_main_start x s =
     (if \<not> telnet_check_valid_config s then None else Some (snd (run_state (telnet_main_enter x) s)))"

definition telnet_state_handler :: "telnet_ext \<Rightarrow> TelnetState \<Rightarrow> unit tm" where
  "telnet_state_handler x st =
     (case st of
        TELNET_STATE_WAIT_OPNEG \<Rightarrow> telnet_state_nt_wait_opneg x
      | TELNET_STATE_WAIT_ENVIRONMENT \<Rightarrow> telnet_state_nt_wait_environment x
      | TELNET_STATE_PROMPT_USER \<Rightarrow> telnet_state_nt_prompt_user x
      | TELNET_STATE_PROMPT_PASSWORD \<Rightarrow> telnet_state_nt_prompt_password x
      | TELNET_STATE_PROMPT_SERVER \<Rightarrow> telnet_state_nt_prompt_server x
      | TELNET_STATE_RELAYING \<Rightarrow> return ()
      | TELNET_STATE_QUIT \<Rightarrow> return ())"

definition telnet_main_iteration :: "telnet_ext \<Rightarrow> poll_in \<Rightarrow> TelnetProxy \<Rightarrow> TelnetProxy" where
  "telnet_main_iteration x inp s =
     (if \<not> pi_loop inp then s\<lparr>tn_state := TELNET_STATE_QUIT\<rparr>
      else let s1 = fold (poll_read x) (pi_reads inp) s in
        if \<not> pi_poll inp (tn_poll_quit s1) \<or>
           \<not> telnet_protocol_is_running (tn_protocol s1 EP_CLIENT) \<or>
           \<not> telnet_protocol_is_running (tn_protocol s1 EP_SERVER)
        then s1\<lparr>tn_state := TELNET_STATE_QUIT\<rparr>
        else snd (run_state (telnet_state_handler x (tn_state s1)) s1))"

text \<open>The loop on a given sequence of rounds.\<close>

fun telnet_main_loop :: "telnet_ext \<Rightarrow> poll_in list \<Rightarrow> TelnetProxy \<Rightarrow> TelnetProxy" where
  "telnet_main_loop x [] s = s"
| "telnet_main_loop x (inp # inps) s =
     (if proxy_is_running s then telnet_main_loop x inps (telnet_main_iteration x inp s) else s)"

text \<open>A whole session: configured, started and run.\<close>

definition telnet_main :: "telnet_ext \<Rightarrow> telnet_cfg \<Rightarrow> poll_in list \<Rightarrow> TelnetProxy option" where
  "telnet_main x cfg inps =
     (case telnet_config cfg of
        Inl _ \<Rightarrow> None
      | Inr s0 \<Rightarrow> map_option (telnet_main_loop x inps) (telnet_main_start x s0))"

section \<open>The transition system\<close>

definition telnet_starts :: "telnet_ext \<Rightarrow> telnet_cfg \<Rightarrow> TelnetProxy \<Rightarrow> bool" where
  "telnet_starts x cfg s \<longleftrightarrow> (\<exists>s0. telnet_config cfg = Inr s0 \<and> telnet_main_start x s0 = Some s)"

inductive telnet_step :: "telnet_ext \<Rightarrow> TelnetProxy \<Rightarrow> TelnetProxy \<Rightarrow> bool" for x where
  iterate: "proxy_is_running s \<Longrightarrow> telnet_step x s (telnet_main_iteration x inp s)"

inductive_cases telnet_stepE: "telnet_step x s t"

lemma telnet_main_loop_reach:
  "reach (telnet_starts x cfg) (telnet_step x) s \<Longrightarrow> reach (telnet_starts x cfg) (telnet_step x) (telnet_main_loop x inps s)"
proof (induction inps arbitrary: s)
  case (Cons inp inps)
  then show ?case by (auto intro: reach_step iterate)
qed simp

lemma telnet_main_reach:
  "telnet_main x cfg inps = Some s \<Longrightarrow> reach (telnet_starts x cfg) (telnet_step x) s"
  by (auto simp: telnet_main_def telnet_starts_def split: sum.splits
      intro!: telnet_main_loop_reach [OF reach_init])

section \<open>Frame\<close>

text \<open>An invariant that also covers the decoders survives reading from a permitted endpoint.\<close>

locale read_frame = tls_frame +
  assumes I_wf: "I s \<Longrightarrow> tp_wf (tn_protocol s ep)"
    and I_protocol: "I s \<Longrightarrow> tp_wf p \<Longrightarrow> I (s\<lparr>tn_protocol := (tn_protocol s)(ep := p)\<rparr>)"
    and I_quit: "I s \<Longrightarrow> I (z_poll_quit s)"
begin

lemma keeps_run_cb: "keeps I m \<Longrightarrow> I s \<Longrightarrow> I (snd (run_cb m s))"
  by (auto simp: run_cb_def split: prod.splits dest: keepsD)

lemma callbacks_keep: "eps ep \<Longrightarrow> decoder_client (telnet_state_callbacks x ep) I"
  by unfold_locales
    (auto simp: telnet_state_callbacks_def telnet_protocol_set_data_received_def
      telnet_protocol_set_subneg_received_def telnet_protocol_set_opneg_received_def
      telnet_protocol_set_command_received_def process_data_cb_def process_suboption_cb_def process_opneg_cb_def
      process_command_cb_def
      intro!: keeps_run_cb keeps_process_data keeps_process_suboption keeps_process_opneg keeps_process_command)

lemma read_keeps:
  assumes "eps ep" and "I s" shows "I (snd (telnet_read x ep status data s))"
proof -
  obtain p s1 where run: "telnet_protocol_process_data (telnet_state_callbacks x ep) data (tn_protocol s ep, s) = (p, s1)"
    by fastforce
  then have "tp_wf p \<and> I s1"
    using decoder_client.process_data_keeps [OF callbacks_keep [OF assms(1)] I_wf [OF assms(2)] assms(2)] by blast
  then have "I (s1\<lparr>tn_protocol := (tn_protocol s1)(ep := p)\<rparr>)" by (simp add: I_protocol)
  with run assms(2) show ?thesis by (simp add: telnet_read_def Let_def I_quit)
qed

end

text \<open>State-independent invariants that cover the decoders hold in every state of the loop.\<close>

locale loop_frame = state_frame I + read_frame I "\<lambda>_. True" for I
begin

lemma keeps_handler: "keeps I (telnet_state_handler x st)"
  by (cases st) (simp_all add: telnet_state_handler_def keeps_handlers keeps_return)

lemma poll_reads_keep: "I s \<Longrightarrow> I (fold (poll_read x) reads s)"
  by (induction reads arbitrary: s) (auto simp: poll_read_def read_keeps)

lemma iteration_keeps: "I s \<Longrightarrow> I (telnet_main_iteration x inp s)"
  using poll_reads_keep [of s x "pi_reads inp"]
  by (auto simp: telnet_main_iteration_def Let_def I_state keeps_snd [OF keeps_handler])

lemma step_keeps: "I s \<Longrightarrow> telnet_step x s t \<Longrightarrow> I t"
  by (auto elim: telnet_stepE simp: iteration_keeps)

lemma keeps_enter: "keeps I (telnet_main_enter x)"
  unfolding telnet_main_enter_def z_proxy_connect_server_def telnet_init_server_stream_def
    telnet_change_state_to_connected_def
  by (intro keeps_intros keeps_session_log keeps_vars keeps_state keeps_start_negotiate keeps_prompts
      keeps_start_opneg keeps_modify I_init; simp)

end

section \<open>Safety of every session\<close>

definition base_inv :: "TelnetProxy \<Rightarrow> bool" where
  "base_inv s \<longleftrightarrow> policy_safe (tn_policy s) \<and> \<not> tn_crashed s \<and> tls_inv s \<and> (\<forall>ep. tp_wf (tn_protocol s ep))"

lemma base_inv_switch: "keeps base_inv (telnet_tls_switch_stream_to_ssl x ep)"
proof -
  let ?J = "\<lambda>s. policy_safe (tn_policy s) \<and> \<not> tn_crashed s \<and> (\<forall>ep. tp_wf (tn_protocol s ep))"
  have "keeps ?J (telnet_tls_switch_stream_to_ssl x ep)" by (rule keeps_switch) auto
  then have "keeps (\<lambda>s. ?J s \<and> tls_inv s) (telnet_tls_switch_stream_to_ssl x ep)"
    by (rule keeps_conj) (rule tls_inv_switch)
  then show ?thesis by (simp add: base_inv_def [abs_def] conj_ac cong: conj_cong)
qed

lemma tls_inv_simps:
  "tls_inv (s\<lparr>tn_state := st\<rparr>) = tls_inv s" "tls_inv (s\<lparr>tn_server_stream_initialized := b\<rparr>) = tls_inv s"
  "tls_inv (s\<lparr>tn_line_editor := e\<rparr>) = tls_inv s" "tls_inv (s\<lparr>tn_gw_authentication_failures := n\<rparr>) = tls_inv s"
  "tls_inv (s\<lparr>tn_protocol := p\<rparr>) = tls_inv s" "tls_inv (s\<lparr>tn_poll_quit := b\<rparr>) = tls_inv s"
  by (simp_all add: tls_inv_def)

interpretation base: loop_frame base_inv
proof unfold_locales
  show "base_inv s \<Longrightarrow> core s' = core s \<Longrightarrow> base_inv s'" for s s'
    by (auto simp: base_inv_def core_def tls_inv_def)
  show "True \<Longrightarrow> keeps base_inv (telnet_tls_switch_stream_to_ssl x ep)" for ep x
    by (rule base_inv_switch)
qed (auto simp: base_inv_def tls_inv_event tls_inv_status tls_inv_simps z_poll_quit_def)

section \<open>Authentication\<close>

text \<open>The gateway has let a user in: a password was found right and the policy agreed to the user.\<close>

definition authorised :: "t_event list \<Rightarrow> bool" where
  "authorised h \<longleftrightarrow> (\<exists>user passwd. EvAuthCheck user passwd True \<in> set h \<and> EvUserAuth user True \<in> set h)"

fun reaches_server :: "t_event \<Rightarrow> bool" where
  "reaches_server (EvConnect _ _ _) = True"
| "reaches_server (EvWrite ep _ _) = (ep = EP_SERVER)"
| "reaches_server (EvHandshake ep _) = (ep = EP_SERVER)"
| "reaches_server _ = False"

text \<open>Everything that reached for the server was preceded by an authorisation.\<close>

fun guarded :: "t_event list \<Rightarrow> bool" where
  "guarded [] = True"
| "guarded (e # h) = (guarded h \<and> (reaches_server e \<longrightarrow> authorised h))"

lemma guarded_split: "guarded (later @ e # earlier) \<Longrightarrow> reaches_server e \<Longrightarrow> authorised earlier"
  by (induction later) auto

definition gw_session :: "TelnetProxy \<Rightarrow> bool" where
  "gw_session s \<longleftrightarrow> tn_auth s \<and> tn_gw_auth_required s \<and> policy_safe (tn_policy s) \<and> guarded (tn_hist s) \<and>
     (\<forall>ep. tp_wf (tn_protocol s ep))"

definition gw_inside :: "TelnetProxy \<Rightarrow> bool" where
  "gw_inside s \<longleftrightarrow> gw_session s \<and> authorised (tn_hist s)"

definition gw_outside :: "TelnetProxy \<Rightarrow> bool" where
  "gw_outside s \<longleftrightarrow> gw_session s \<and> \<not> tn_server_stream_initialized s \<and>
     tn_state s \<noteq> TELNET_STATE_RELAYING \<and> tn_state s \<noteq> TELNET_STATE_PROMPT_SERVER \<and>
     (\<forall>e\<in>set (tn_hist s). \<not> reaches_server e)"

lemma authorised_Cons: "authorised h \<Longrightarrow> authorised (e # h)"
  by (auto simp: authorised_def)

lemmas gw_defs = gw_inside_def gw_outside_def gw_session_def

interpretation inside: loop_frame gw_inside
proof unfold_locales
  show "gw_inside s \<Longrightarrow> core s' = core s \<Longrightarrow> gw_inside s'" for s s'
    by (auto simp: gw_defs core_def)
  show "True \<Longrightarrow> keeps gw_inside (telnet_tls_switch_stream_to_ssl x ep)" for ep x
    by (rule keeps_switch) (auto simp: gw_defs authorised_Cons)
qed (auto simp: gw_defs authorised_Cons z_poll_quit_def)

interpretation outside: read_frame gw_outside "\<lambda>ep. ep = EP_CLIENT"
proof unfold_locales
  show "gw_outside s \<Longrightarrow> core s' = core s \<Longrightarrow> gw_outside s'" for s s'
    by (auto simp: gw_defs core_def)
  show "ep = EP_CLIENT \<Longrightarrow> keeps gw_outside (telnet_tls_switch_stream_to_ssl x ep)" for ep x
    by (rule keeps_switch) (auto simp: gw_defs)
qed (auto simp: gw_defs z_poll_quit_def)

definition gw_any :: "TelnetProxy \<Rightarrow> bool" where
  "gw_any s \<longleftrightarrow> gw_inside s \<or> gw_outside s"

lemma outside_state:
  "st \<noteq> TELNET_STATE_RELAYING \<Longrightarrow> st \<noteq> TELNET_STATE_PROMPT_SERVER \<Longrightarrow> keeps gw_outside (telnet_change_state st)"
  unfolding telnet_change_state_def by (rule keeps_modify) (auto simp: gw_defs)

lemma outside_prompts:
  "keeps gw_outside (telnet_event_prompt_user x)" "keeps gw_outside (telnet_event_prompt_password x)"
  "keeps gw_outside (telnet_event_print_banner x)"
  unfolding telnet_event_prompt_user_def telnet_event_prompt_password_def telnet_event_print_banner_def set_echo_def
  by (intro keeps_intros outside.keeps_sends outside_state keeps_modify; simp add: gw_defs)+

lemma outside_auth_failed: "keeps gw_outside (gateway_authentication_failed x)"
  unfolding gateway_authentication_failed_def
  by (intro keeps_intros outside.keeps_sends outside_state outside_prompts keeps_modify; simp add: gw_defs)

lemma authorised_now: "authorised (EvUserAuth user True # EvAuthCheck user passwd True # h)"
  by (auto simp: authorised_def)

lemma outside_gateway_auth:
  "hoare gw_outside (telnet_do_gateway_auth x) (\<lambda>r s. if r then gw_inside s else gw_outside s)"
  by (rule hoareI)
    (auto simp: telnet_do_gateway_auth_def log_event_def set_vars_def Let_def gw_defs authorised_now
      split: if_splits prod.splits)

lemma outside_take_line: "keeps gw_outside take_line"
  unfolding take_line_def by (intro keeps_intros keeps_modify) (simp add: gw_defs)

text \<open>
  What becomes of a session that is still outside depends on the password check alone: where it
  leads (\<open>A\<close>) when it succeeds, and what holds (\<open>Q\<close>) at the end of a round.
\<close>

locale gateway_outcome =
  fixes x :: telnet_ext and A :: "TelnetProxy \<Rightarrow> bool" and Q :: "TelnetProxy \<Rightarrow> bool"
  assumes checked: "hoare gw_outside (telnet_do_gateway_auth x) (\<lambda>r s. if r then A s else gw_outside s)"
    and admitted: "hoare A (start_inband_server_selection x) (\<lambda>_. Q)"
    and outside: "gw_outside s \<Longrightarrow> Q s"
begin

lemma stays: "keeps gw_outside m \<Longrightarrow> hoare gw_outside m (\<lambda>_. Q)"
  by (erule keeps_hoare) (rule outside)

lemma authentication: "hoare gw_outside (start_inband_authentication x) (\<lambda>_. Q)"
  unfolding start_inband_authentication_def
  by (intro hoare_keeps_bind [OF keeps_gets] hoare_if hoare_bool_bind [OF checked] stays
      outside_prompts; simp add: admitted stays outside_auth_failed)

lemma non_transparent: "hoare gw_outside (start_non_transparent_session x) (\<lambda>_. Q)"
proof -
  have "hoare gw_outside (State_Monad.bind (gets (\<lambda>s. s)) (\<lambda>s. if tn_auth s \<and> tn_gw_auth_required s
      then start_inband_authentication x else start_inband_server_selection x)) (\<lambda>_. Q)"
    using authentication by (auto simp: hoare_def gw_defs)
  then show ?thesis
    unfolding start_non_transparent_session_def by (intro hoare_keeps_bind [OF outside_prompts(3)])
qed

lemma handler: "hoare (\<lambda>s. gw_outside s \<and> tn_state s = st) (telnet_state_handler x st) (\<lambda>_. Q)"
proof -
  have stay: "hoare gw_outside (return ()) (\<lambda>_. Q)" by (intro stays keeps_return)
  have opneg: "hoare gw_outside (telnet_state_nt_wait_opneg x) (\<lambda>_. Q)"
    unfolding telnet_state_nt_wait_opneg_def telnet_event_request_environment_def
    by (intro hoare_keeps_bind hoare_if non_transparent stays keeps_intros outside.keeps_tls_handlers
        outside.keeps_sends outside_state; simp)
  have env: "hoare gw_outside (telnet_state_nt_wait_environment x) (\<lambda>_. Q)"
    unfolding telnet_state_nt_wait_environment_def
    by (intro hoare_keeps_bind [OF keeps_gets] hoare_if non_transparent stay)
  have user: "hoare gw_outside (telnet_state_nt_prompt_user x) (\<lambda>_. Q)"
    unfolding telnet_state_nt_prompt_user_def
    by (intro hoare_keeps_bind [OF keeps_gets] hoare_if hoare_keeps_bind [OF outside_take_line]
        hoare_keeps_bind [OF outside.keeps_vars(1)] authentication stay)
  have password: "hoare gw_outside (telnet_state_nt_prompt_password x) (\<lambda>_. Q)"
    unfolding telnet_state_nt_prompt_password_def
    by (intro hoare_keeps_bind [OF keeps_gets] hoare_if hoare_keeps_bind [OF outside_take_line]
        hoare_keeps_bind [OF outside.keeps_local] hoare_bool_bind [OF checked] stay;
      simp add: core_def admitted authentication)
  show ?thesis
    using opneg env user password stay
    by (cases st) (auto simp: telnet_state_handler_def gw_defs hoare_def)
qed

end

interpretation admits: gateway_outcome x gw_inside gw_any for x
  by unfold_locales
    (auto simp: outside_gateway_auth gw_any_def intro: keeps_hoare [OF inside.keeps_server_selection])

text \<open>With the password check this source tree links nobody gets in.\<close>

definition shipped_ext :: "telnet_ext \<Rightarrow> telnet_ext" where
  "shipped_ext x = x\<lparr>x_check_passwd := z_auth_provider_check_passwd\<rparr>"

interpretation refuses: gateway_outcome "shipped_ext x" "\<lambda>_. False" gw_outside for x
proof unfold_locales
  show "hoare gw_outside (telnet_do_gateway_auth (shipped_ext x)) (\<lambda>r s. if r then False else gw_outside s)"
    by (rule hoareI)
      (auto simp: telnet_do_gateway_auth_def shipped_ext_def z_auth_provider_check_passwd_def log_event_def Let_def gw_defs)
qed (auto simp: hoare_def)

section \<open>Reachable states\<close>

text \<open>A configuration without empty policy entries.\<close>

definition cfg_safe :: "telnet_cfg \<Rightarrow> bool" where
  "cfg_safe cfg = list_all (\<lambda>(keys, v). v \<noteq> PySeq [] \<and> v \<noteq> PyStr []) (cfg_option cfg)"

definition session_starts :: "telnet_ext \<Rightarrow> TelnetProxy \<Rightarrow> bool" where
  "session_starts x s \<longleftrightarrow> (\<exists>cfg. cfg_safe cfg \<and> telnet_starts x cfg s)"

definition gw_session_starts :: "telnet_ext \<Rightarrow> TelnetProxy \<Rightarrow> bool" where
  "gw_session_starts x s \<longleftrightarrow> (\<exists>cfg. cfg_safe cfg \<and> cfg_gw_auth cfg \<and> telnet_starts x cfg s)"

lemma insert_keeps_safe:
  assumes "policy_safe t" and "v \<noteq> PySeq []" and "v \<noteq> PyStr []" and "z_dim_hash_table_insert t v keys = Inr t'"
  shows "policy_safe t'"
proof -
  have "ran (m(k \<mapsto> v)) \<subseteq> insert v (ran m)" for m :: "string \<rightharpoonup> pyval" and k
    by (auto simp: ran_def)
  then show ?thesis
    using assms by (fastforce simp: z_dim_hash_table_insert_def policy_safe_def split: if_splits sum.splits option.splits)
qed

lemma insert_all_safe:
  "insert_all t entries = Inr t' \<Longrightarrow> policy_safe t \<Longrightarrow>
   list_all (\<lambda>(keys, v). v \<noteq> PySeq [] \<and> v \<noteq> PyStr []) entries \<Longrightarrow> policy_safe t'"
  by (induction t entries rule: insert_all.induct) (auto split: sum.splits intro: insert_keeps_safe)

lemma config_state:
  assumes "telnet_config cfg = Inr s" and "cfg_safe cfg"
  shows "policy_safe (tn_policy s)" and "tn_protocol s = (\<lambda>_. telnet_protocol_init)"
    and "\<not> tn_crashed s" and "tn_hist s = []" and "tn_state s = TELNET_STATE_WAIT_OPNEG"
    and "tn_tls_status s = (\<lambda>_. TELNET_TLS_STATUS_NONE)" and "tn_tls_completed s = (\<lambda>_. False)"
    and "\<not> tn_server_stream_initialized s" and "tn_gw_auth_required s = cfg_gw_auth cfg" and "tn_auth s = cfg_auth cfg"
    and "tn_gw_authentication_failures s = 0"
proof -
  have new: "policy_safe (tn_policy telnet_set_defaults)"
    by (simp add: telnet_set_defaults_def policy_safe_def z_dim_hash_table_new_def)
  show "policy_safe (tn_policy s)"
    using assms insert_all_safe [OF _ new]
    by (auto simp: telnet_config_def telnet_config_init_def telnet_state_register_callbacks_def cfg_safe_def Let_def
        split: sum.splits)
qed (use assms in \<open>auto simp: telnet_config_def telnet_config_init_def telnet_state_register_callbacks_def Let_def
      telnet_set_defaults_def fun_eq_iff split: sum.splits endpoint.splits\<close>)

lemma wf_init: "tp_wf telnet_protocol_init"
  by (simp add: tp_wf_def tp_bounded_def telnet_protocol_init_def)

interpretation session: invariant_system "session_starts x" "telnet_step x" base_inv for x
proof
  fix s assume "session_starts x s"
  then obtain cfg s0 where s0: "cfg_safe cfg" "telnet_config cfg = Inr s0" "telnet_main_start x s0 = Some s"
    by (auto simp: session_starts_def telnet_starts_def)
  have "base_inv s0"
    using config_state [OF s0(2,1)] by (simp add: base_inv_def wf_init tls_inv_def)
  with s0(3) show "base_inv s"
    by (auto simp: telnet_main_start_def keeps_snd [OF base.keeps_enter] split: if_splits)
next
  show "base_inv s \<Longrightarrow> telnet_step x s t \<Longrightarrow> base_inv t" for s t by (rule base.step_keeps)
qed

lemma outside_poll_read: "gw_outside s \<Longrightarrow> gw_outside (poll_read x r s)"
proof -
  assume out: "gw_outside s"
  then have "\<not> tn_server_stream_initialized s" by (simp add: gw_defs)
  with out show ?thesis by (cases r) (simp add: poll_read_def outside.read_keeps)
qed

lemma outside_reads: "gw_outside s \<Longrightarrow> gw_outside (fold (poll_read x) rs s)"
  by (induction rs arbitrary: s) (auto simp: outside_poll_read)

lemma outside_quit: "gw_outside s \<Longrightarrow> gw_outside (s\<lparr>tn_state := TELNET_STATE_QUIT\<rparr>)"
  by (simp add: gw_defs)

lemma outside_starts: "gw_session_starts x s \<Longrightarrow> gw_outside s"
proof -
  assume "gw_session_starts x s"
  then obtain cfg s0 where s0: "cfg_safe cfg" "cfg_gw_auth cfg" "telnet_config cfg = Inr s0" "telnet_main_start x s0 = Some s"
    by (auto simp: gw_session_starts_def telnet_starts_def)
  note c = config_state [OF s0(3,1)]
  have "gw_outside s0"
    using c s0(2,4) by (auto simp: gw_defs wf_init telnet_main_start_def telnet_check_valid_config_def split: if_splits)
  moreover have "keeps gw_outside (telnet_event_start_opneg x)"
    unfolding telnet_event_start_opneg_def send_will_option_def send_do_option_def
    by (intro keeps_intros outside_state outside.keeps_send_opneg outside.keeps_local; simp add: core_def is_opneg_def)
  ultimately show "gw_outside s"
    using s0(2,4) c
    by (auto simp: telnet_main_start_def telnet_main_enter_def telnet_proxy_is_transparent_def keeps_snd split: if_splits)
qed

text \<open>A round of a session that is still outside ends as the password check decides.\<close>

context gateway_outcome
begin

lemma outside_iteration: "gw_outside s \<Longrightarrow> Q (telnet_main_iteration x inp s)"
proof -
  assume "gw_outside s"
  then have out: "gw_outside (fold (poll_read x) (pi_reads inp) s)" by (rule outside_reads)
  have "Q (snd (run_state (telnet_state_handler x (tn_state t)) t))" if "gw_outside t" for t
    using hoareD [OF handler, of t "tn_state t", OF _ surjective_pairing] that by simp
  with out \<open>gw_outside s\<close> show ?thesis
    by (simp add: telnet_main_iteration_def Let_def outside outside_quit)
qed

end

interpretation gateway: invariant_system "gw_session_starts x" "telnet_step x" gw_any for x
proof
  show "gw_session_starts x s \<Longrightarrow> gw_any s" for s
    by (simp add: gw_any_def outside_starts)
  show "gw_any s \<Longrightarrow> telnet_step x s t \<Longrightarrow> gw_any t" for s t
    using inside.iteration_keeps [of s x] admits.outside_iteration [of s x]
    by (auto elim!: telnet_stepE simp: gw_any_def)
qed

interpretation shipped: invariant_system "gw_session_starts (shipped_ext x)" "telnet_step (shipped_ext x)" gw_outside for x
proof
  show "gw_session_starts (shipped_ext x) s \<Longrightarrow> gw_outside s" for s by (rule outside_starts)
  show "gw_outside s \<Longrightarrow> telnet_step (shipped_ext x) s t \<Longrightarrow> gw_outside t" for s t
    by (auto elim!: telnet_stepE simp: refuses.outside_iteration)
qed

section \<open>Prompts and failures\<close>

text \<open>
  A session that still runs has failed to authenticate at most twice, and while it prompts for
  a password the line editor does not echo.
\<close>

definition live :: "TelnetProxy \<Rightarrow> bool" where
  "live s \<longleftrightarrow> base_inv s \<and> tn_gw_authentication_failures s < 3"

definition silent :: "TelnetProxy \<Rightarrow> bool" where
  "silent s \<longleftrightarrow> live s \<and> (tn_state s = TELNET_STATE_PROMPT_PASSWORD \<longrightarrow> \<not> do_echo (tn_line_editor s))"

definition settled :: "TelnetProxy \<Rightarrow> bool" where
  "settled s \<longleftrightarrow> silent s \<or> base_inv s \<and> tn_gw_authentication_failures s = 3 \<and> tn_state s = TELNET_STATE_QUIT"

lemma live_switch: "keeps live (telnet_tls_switch_stream_to_ssl x ep)" "keeps silent (telnet_tls_switch_stream_to_ssl x ep)"
proof -
  have "keeps (\<lambda>s. tn_gw_authentication_failures s < 3) (telnet_tls_switch_stream_to_ssl x ep)"
    "keeps (\<lambda>s. tn_state s = TELNET_STATE_PROMPT_PASSWORD \<longrightarrow> \<not> do_echo (tn_line_editor s)) (telnet_tls_switch_stream_to_ssl x ep)"
    by (rule keeps_switch; simp)+
  note parts = this
  show "keeps live (telnet_tls_switch_stream_to_ssl x ep)" "keeps silent (telnet_tls_switch_stream_to_ssl x ep)"
    unfolding silent_def [abs_def] live_def [abs_def] by (intro keeps_conj base_inv_switch parts)+
qed

lemmas live_defs = silent_def live_def

lemma base_core: "base_inv s \<Longrightarrow> core s' = core s \<Longrightarrow> base_inv s'"
  by (rule base.I_core)

interpretation live: tls_frame live "\<lambda>_. True"
proof unfold_locales
  show "live s \<Longrightarrow> core s' = core s \<Longrightarrow> live s'" for s s'
    using base_core [of s s'] by (auto simp: live_def core_def)
qed (auto simp: live_def base.I_call base.I_method base.I_write base.I_safe base.I_status live_switch)

interpretation silent: read_frame silent "\<lambda>_. True"
proof unfold_locales
  show "silent s \<Longrightarrow> core s' = core s \<Longrightarrow> silent s'" for s s'
    using base_core [of s s'] by (auto simp: live_defs core_def)
qed (auto simp: live_defs base.I_call base.I_method base.I_write base.I_safe base.I_status live_switch base.I_wf
    base.I_protocol base.I_quit z_poll_quit_simps)

lemma live_state: "st \<noteq> TELNET_STATE_PROMPT_PASSWORD \<Longrightarrow> hoare live (telnet_change_state st) (\<lambda>_. silent)"
  unfolding telnet_change_state_def by (rule hoare_modify) (simp add: live_defs base.I_state)

lemma live_echo: "hoare live (set_echo b) (\<lambda>_ s. live s \<and> do_echo (tn_line_editor s) = b)"
  unfolding set_echo_def by (rule hoare_modify) (simp add: live_def base.I_echo)

lemma live_prompt_echo:
  "hoare live (telnet_event_prompt_user x) (\<lambda>_. silent)" "hoare live (telnet_event_prompt_server x) (\<lambda>_. silent)"
  unfolding telnet_event_prompt_user_def telnet_event_prompt_server_def
  by (intro hoare_keeps_bind [OF keeps_gets] hoare_keeps_bind [OF keeps_hoare_weak [OF live_echo]]
      hoare_keeps_bind [OF live.keeps_sends(4)] hoare_if live_state; simp)+

lemma live_prompt_password: "hoare live (telnet_event_prompt_password x) (\<lambda>_. silent)"
proof -
  let ?Q = "\<lambda>s. live s \<and> \<not> do_echo (tn_line_editor s)"
  have send: "keeps ?Q (telnet_send_data x EP_CLIENT pkt)" for pkt
    by (intro keeps_conj live.keeps_sends) (auto intro: keeps_write)
  have state: "hoare ?Q (telnet_change_state st) (\<lambda>_. silent)" for st
    unfolding telnet_change_state_def by (rule hoare_modify) (simp add: live_defs base.I_state)
  have "hoare ?Q (State_Monad.bind (telnet_send_data x EP_CLIENT pkt) (\<lambda>status.
      if status \<noteq> G_IO_STATUS_NORMAL then telnet_change_state TELNET_STATE_QUIT
      else telnet_change_state TELNET_STATE_PROMPT_PASSWORD)) (\<lambda>_. silent)" for pkt
    by (intro hoare_keeps_bind [OF send] hoare_if state)
  moreover have "hoare live (set_echo False) (\<lambda>_. ?Q)" using live_echo [of False] by simp
  ultimately show ?thesis
    unfolding telnet_event_prompt_password_def
    by (intro hoare_keeps_bind [OF keeps_gets] hoare_bind [where m = "set_echo False" and R = "\<lambda>_. ?Q"])
qed

lemma live_banner: "keeps live (telnet_event_print_banner x)"
  unfolding telnet_event_print_banner_def telnet_change_state_def
  by (intro keeps_intros live.keeps_sends keeps_modify) (simp_all add: live_def base.I_state)

lemma live_take_line: "keeps live take_line"
  unfolding take_line_def by (intro keeps_intros keeps_modify) (simp add: live_def base.I_echo)

lemma live_log:
  "keeps live (log_event (EvConnect host port r))" "keeps live (log_event (EvAuthCheck user passwd r))"
  "keeps live (log_event (EvUserAuth user r))"
  unfolding log_event_def by (intro keeps_modify; simp add: live_def base.I_connect base.I_check base.I_user)+

lemma live_gateway_auth: "keeps live (telnet_do_gateway_auth x)"
  unfolding telnet_do_gateway_auth_def by (intro keeps_intros live_log live.keeps_vars)

lemma silent_settled: "silent s \<Longrightarrow> settled s"
  by (simp add: settled_def)

lemma live_connect: "hoare live (telnet_event_connect_server x) (\<lambda>_. silent)"
proof -
  have connect: "keeps live (z_proxy_connect_server x host port)" for host port
    unfolding z_proxy_connect_server_def by (intro keeps_intros live_log live.keeps_vars)
  have init: "keeps live telnet_init_server_stream"
    unfolding telnet_init_server_stream_def by (rule keeps_modify) (simp add: live_def base.I_init)
  have tls: "hoare silent (State_Monad.bind (gets (\<lambda>s. s)) (\<lambda>s'.
      if telnet_tls_is_negotiation_complete_on_side s' EP_SERVER then return ()
      else State_Monad.bind (telnet_tls_start_negotiate_on_side x EP_SERVER) (\<lambda>started.
        if started then return () else telnet_change_state TELNET_STATE_QUIT))) (\<lambda>_. silent)"
    by (intro hoare_keeps_bind [OF keeps_gets] hoare_if hoare_return hoare_keeps_bind [OF silent.keeps_tls_handlers(3)]
        hoare_weaken [OF live_state [of TELNET_STATE_QUIT]]) (auto simp: silent_def)
  show ?thesis
    unfolding telnet_event_connect_server_def telnet_change_state_to_connected_def Let_def
    by (intro hoare_keeps_bind [OF keeps_gets] hoare_keeps_bind [OF connect] hoare_if
        hoare_keeps_bind [OF live.keeps_sends(4)] hoare_keeps_bind [OF init] live_state
        hoare_bind [OF _ tls] TrueI; simp)
qed

lemma live_server_selection: "hoare live (start_inband_server_selection x) (\<lambda>_. silent)"
proof -
  have "keeps live (if b then modify (\<lambda>s. s\<lparr>tn_server_hostname_is_from_env := True\<rparr>) else return ())" for b
    by (intro keeps_if live.keeps_local keeps_return) (simp add: core_def)
  then show ?thesis
    unfolding start_inband_server_selection_def
    by (intro hoare_keeps_bind [OF keeps_gets] hoare_keeps_bind hoare_if live_connect live_prompt_echo)
qed

lemma word_less_3: "n < 3 \<Longrightarrow> n = 0 \<or> n = 1 \<or> n = 2" for n :: "32 word"
proof -
  assume "n < 3"
  then have "unat n < 3" by (simp add: word_less_nat_alt)
  then have "unat n = 0 \<or> unat n = 1 \<or> unat n = 2" by linarith
  moreover have "unat (0 :: 32 word) = 0" "unat (1 :: 32 word) = 1" "unat (2 :: 32 word) = 2" by simp_all
  ultimately show ?thesis by (metis word_unat_eq_iff)
qed

lemma live_auth_failed: "hoare live (gateway_authentication_failed x) (\<lambda>_. settled)"
proof -
  have count: "hoare live (State_Monad.bind (modify (\<lambda>s. s\<lparr>tn_gw_authentication_failures := tn_gw_authentication_failures s + 1\<rparr>))
      (\<lambda>_. State_Monad.bind (gets tn_gw_authentication_failures) (\<lambda>failures.
         if failures \<ge> 3 then telnet_change_state TELNET_STATE_QUIT else telnet_event_prompt_password x)))
      (\<lambda>_. settled)"
  proof (rule hoareI)
    fix s r s' assume l: "live s" and run: "run_state (State_Monad.bind (modify
        (\<lambda>s. s\<lparr>tn_gw_authentication_failures := tn_gw_authentication_failures s + 1\<rparr>))
      (\<lambda>_. State_Monad.bind (gets tn_gw_authentication_failures) (\<lambda>failures.
         if failures \<ge> 3 then telnet_change_state TELNET_STATE_QUIT else telnet_event_prompt_password x))) s = (r, s')"
    let ?n = "tn_gw_authentication_failures s + 1" and ?s1 = "s\<lparr>tn_gw_authentication_failures := tn_gw_authentication_failures s + 1\<rparr>"
    show "settled s'"
    proof (cases "?n \<ge> 3")
      case True
      with l have "?n = 3" using word_less_3 [of "tn_gw_authentication_failures s"]
        by (auto simp: live_def word_le_nat_alt)
      with True l run show ?thesis
        by (auto simp: telnet_change_state_def settled_def live_def base.I_failures base.I_state)
    next
      case False
      with l have "live ?s1" by (simp add: live_def base.I_failures)
      moreover have "run_state (telnet_event_prompt_password x) ?s1 = (r, s')" using run False by simp
      ultimately show ?thesis using hoareD [OF live_prompt_password] silent_settled by blast
    qed
  qed
  show ?thesis
    unfolding gateway_authentication_failed_def
    by (intro hoare_keeps_bind [OF live.keeps_sends(4)] hoare_keeps_bind [OF keeps_gets] hoare_if count
        hoare_weaken [OF live_state [of TELNET_STATE_QUIT]]) (auto simp: silent_settled)
qed

lemma live_settled: "hoare live m (\<lambda>_. silent) \<Longrightarrow> hoare live m (\<lambda>_. settled)"
  by (erule hoare_weaken) (auto simp: silent_settled)

lemmas live_ends = live_prompt_echo [THEN live_settled] live_prompt_password [THEN live_settled]
  live_connect [THEN live_settled] live_server_selection [THEN live_settled] live_auth_failed

lemma live_authentication: "hoare live (start_inband_authentication x) (\<lambda>_. settled)"
  unfolding start_inband_authentication_def
  by (intro hoare_keeps_bind [OF keeps_gets] hoare_if hoare_keeps_bind [OF live_gateway_auth] live_ends)

lemma live_non_transparent: "hoare live (start_non_transparent_session x) (\<lambda>_. settled)"
  unfolding start_non_transparent_session_def
  by (intro hoare_keeps_bind [OF keeps_gets] hoare_if hoare_keeps_bind [OF live_banner] live_ends live_authentication)

lemma from_live: "hoare live m Q \<Longrightarrow> hoare silent m Q"
  by (erule hoare_weaken) (auto simp: silent_def)

lemma silent_stay: "hoare silent (return ()) (\<lambda>_. settled)"
  by (rule hoare_return) (rule silent_settled)

lemma silent_handler: "hoare silent (telnet_state_handler x st) (\<lambda>_. settled)"
proof -
  have quit: "hoare silent (telnet_change_state st) (\<lambda>_. settled)" if "st \<noteq> TELNET_STATE_PROMPT_PASSWORD" for st
    using live_state [OF that] by (intro from_live live_settled)
  have opneg: "hoare silent (telnet_state_nt_wait_opneg x) (\<lambda>_. settled)"
    unfolding telnet_state_nt_wait_opneg_def telnet_event_request_environment_def
    by (intro hoare_keeps_bind keeps_if keeps_return hoare_if silent_stay quit keeps_gets silent.keeps_tls_handlers
        silent.keeps_sends TrueI from_live [OF live_non_transparent]; simp)
  have env: "hoare silent (telnet_state_nt_wait_environment x) (\<lambda>_. settled)"
    unfolding telnet_state_nt_wait_environment_def
    by (intro hoare_keeps_bind [OF keeps_gets] hoare_if silent_stay from_live [OF live_non_transparent])
  have user: "hoare silent (telnet_state_nt_prompt_user x) (\<lambda>_. settled)"
    unfolding telnet_state_nt_prompt_user_def
    by (intro hoare_keeps_bind [OF keeps_gets] hoare_if silent_stay from_live hoare_keeps_bind [OF live_take_line]
        hoare_keeps_bind [OF live.keeps_vars(1)] live_authentication)
  have password: "hoare silent (telnet_state_nt_prompt_password x) (\<lambda>_. settled)"
    unfolding telnet_state_nt_prompt_password_def
    by (intro hoare_keeps_bind [OF keeps_gets] hoare_if silent_stay from_live hoare_keeps_bind [OF live_take_line]
        hoare_keeps_bind [OF live.keeps_local] hoare_keeps_bind [OF live_gateway_auth] live_authentication live_ends)
      (simp add: core_def)
  have server: "hoare silent (telnet_state_nt_prompt_server x) (\<lambda>_. settled)"
    unfolding telnet_state_nt_prompt_server_def
    by (intro hoare_keeps_bind [OF keeps_gets] hoare_if silent_stay from_live hoare_keeps_bind [OF live_take_line]
        hoare_keeps_bind [OF live.keeps_parse_authinfo] live_ends)
  show ?thesis
    by (cases st) (simp_all add: telnet_state_handler_def opneg env user password server silent_stay)
qed

lemma settled_iteration:
  assumes "settled s" and "proxy_is_running s" shows "settled (telnet_main_iteration x inp s)"
proof -
  have quit: "settled (s\<lparr>tn_state := TELNET_STATE_QUIT\<rparr>)" if "silent s" for s
    using that by (auto simp: settled_def live_defs base.I_state)
  have read: "silent (poll_read x r s)" if "silent s" for r s
    using that by (cases r) (simp add: poll_read_def silent.read_keeps)
  have reads: "silent s \<Longrightarrow> silent (fold (poll_read x) rs s)" for rs s
    by (induction rs arbitrary: s) (auto simp: read)
  have handler: "silent s \<Longrightarrow> settled (snd (run_state (telnet_state_handler x st) s))" for s st
    using hoareD [OF silent_handler, OF _ surjective_pairing] by blast
  have "silent s" using assms by (auto simp: settled_def proxy_is_running_def)
  then show ?thesis
    by (simp add: telnet_main_iteration_def Let_def quit reads handler)
qed

lemma silent_enter: "hoare silent (telnet_main_enter x) (\<lambda>_. settled)"
proof -
  have connect: "keeps live (z_proxy_connect_server x host port)" for host port
    unfolding z_proxy_connect_server_def by (intro keeps_intros live_log live.keeps_vars)
  have init: "keeps live telnet_init_server_stream"
    unfolding telnet_init_server_stream_def by (rule keeps_modify) (simp add: live_def base.I_init)
  have change: "keeps silent (telnet_change_state st)" if "st \<noteq> TELNET_STATE_PROMPT_PASSWORD" for st
    using from_live [OF live_state [OF that]] by (simp add: keeps_def)
  have banner: "hoare silent (telnet_event_print_banner x) (\<lambda>_. settled)"
    unfolding telnet_event_print_banner_def
    by (intro hoare_keeps_bind [OF keeps_gets] hoare_keeps_bind [OF silent.keeps_sends(4)] hoare_if silent_stay
        keeps_hoare [OF change] silent_settled) auto
  have opneg: "hoare silent (telnet_event_start_opneg x) (\<lambda>_. settled)"
    unfolding telnet_event_start_opneg_def send_will_option_def send_do_option_def
    by (intro hoare_keeps_bind keeps_intros hoare_if keeps_hoare [OF change] silent.keeps_send_opneg silent.keeps_local
        silent_settled; simp add: core_def is_opneg_def)
  show ?thesis
    unfolding telnet_main_enter_def telnet_change_state_to_connected_def
    by (intro hoare_keeps_bind [OF keeps_gets] hoare_if opneg from_live hoare_keeps_bind [OF connect]
        hoare_keeps_bind [OF init] hoare_bind [OF live_state] live_settled live_state hoare_keeps_bind keeps_intros
        change silent.keeps_start_negotiate banner; simp)
qed

interpretation prompts: invariant_system "session_starts x" "telnet_step x" settled for x
proof
  fix s assume "session_starts x s"
  then obtain cfg s0 where s0: "cfg_safe cfg" "telnet_config cfg = Inr s0" "telnet_main_start x s0 = Some s"
    by (auto simp: session_starts_def telnet_starts_def)
  have "silent s0"
    using config_state [OF s0(2,1)] by (simp add: live_defs base_inv_def wf_init tls_inv_def)
  with s0(3) show "settled s"
    using hoareD [OF silent_enter, of s0 x, OF _ surjective_pairing] by (auto simp: telnet_main_start_def split: if_splits)
next
  show "settled s \<Longrightarrow> telnet_step x s t \<Longrightarrow> settled t" for s t
    by (auto elim!: telnet_stepE simp: settled_iteration)
qed

section \<open>Properties\<close>

text \<open>A gateway session for concrete runs, and what a client sends to log in.\<close>

definition gw_cfg :: telnet_cfg where
  "gw_cfg = \<lparr>cfg_option = [([''24''], PyInt 1), ([''39'', ''0''], PySeq [PyInt 6, PyCallable 0])],
     cfg_negotiation = Map.empty, cfg_auth = True, cfg_transparent_mode = True, cfg_gw_auth = True,
     cfg_banner = bytes_of ''Hello'', cfg_server_name_prompt = bytes_of ''Server: '',
     cfg_gateway_user_prompt = bytes_of ''User: '', cfg_gateway_password_prompt = bytes_of ''Password: '',
     cfg_tls_required = (\<lambda>_. False), cfg_security = (\<lambda>_. ENCRYPTION_SEC_NONE)\<rparr>"

definition client_sends :: "bytes \<Rightarrow> poll_in" where
  "client_sends bs = \<lparr>pi_loop = True, pi_reads = [(EP_CLIENT, G_IO_STATUS_NORMAL, bs)], pi_poll = (\<lambda>quit. \<not> quit)\<rparr>"

definition login :: "string \<Rightarrow> poll_in list" where
  "login passwd = map client_sends
     [[255, 253, 1, 255, 253, 3, 255, 252, 39], bytes_of ''joe'' @ [13, 10], bytes_of passwd @ [13, 10]]"

text \<open>The definitions a run of a login goes through.\<close>

lemmas session_eval =
  telnet_main_def telnet_config_def telnet_state_register_callbacks_def telnet_set_defaults_def
  telnet_config_init_def gw_cfg_def z_dim_hash_table_insert_def z_dim_hash_table_makekey_def
  z_dim_hash_table_new_def key_count_ok_def dimhash_consts telnet_main_start_def telnet_check_valid_config_def
  telnet_main_enter_def telnet_proxy_is_transparent_def telnet_event_start_opneg_def send_will_option_def
  send_do_option_def telnet_send_opneg_def option_sent_def telnet_option_command_sent_def
  telnet_option_command_received_def telnet_write_packet_def quiet_ext_def log_event_def telnet_change_state_def
  request_response_defs client_sends_def proxy_is_running_def telnet_main_iteration_def poll_read_def
  telnet_read_def telnet_protocol_process_data_def tp_defs telnet_protocol_init_def telnet_state_callbacks_def
  telnet_protocol_set_data_received_def telnet_protocol_set_subneg_received_def
  telnet_protocol_set_opneg_received_def telnet_protocol_set_command_received_def process_data_cb_def
  process_suboption_cb_def process_opneg_cb_def process_command_cb_def run_cb_def process_opneg_def
  process_opneg_non_transparent_def telnet_state_is_connected_def option_received_def telnet_state_handler_def
  telnet_state_nt_wait_opneg_def opneg_finished_def option_tests telnet_vars_defaults_def no_callbacks_def
  keybuf_len_def composite_def keypart_def z_poll_quit_def start_non_transparent_session_def
  telnet_event_print_banner_def telnet_send_data_def telnet_user_string_to_pktbuf.simps
  start_inband_authentication_def telnet_event_prompt_user_def telnet_event_prompt_password_def set_echo_def
  telnet_tls_is_negotiation_complete_on_side_def telnet_state_nt_prompt_user_def
  telnet_state_nt_prompt_password_def take_line_def process_data_def telnet_state_is_lineedit_def edit_line_def
  telnet_lineedit_process_data_def telnet_lineedit_init_def telnet_lineedit_clear_def lineedit_byte_def
  ECHO_NEWLINE_def upd_vars_def telnet_do_gateway_auth_def set_vars_def cstr_def start_inband_server_selection_def
  telnet_event_connect_server_def z_proxy_connect_server_def telnet_init_server_stream_def
  telnet_change_state_to_connected_def connected_message_def bytes_of_def login_def TELNET_BUFFER_SIZE_def Let_def

lemma gw_cfg_safe: "cfg_safe gw_cfg" "cfg_gw_auth gw_cfg"
  by (simp_all add: cfg_safe_def gw_cfg_def)

lemma run_reach:
  assumes "cfg_safe cfg" and "telnet_main x cfg inps = Some s"
  shows "reach (session_starts x) (telnet_step x) s"
    and "cfg_gw_auth cfg \<Longrightarrow> reach (gw_session_starts x) (telnet_step x) s"
proof -
  have "reach P (telnet_step x) s" if "\<And>t. telnet_starts x cfg t \<Longrightarrow> P t" for P
    using telnet_main_reach [OF assms(2)] by (induction rule: reach.induct) (auto intro: reach.intros that)
  note lift = this
  show "reach (session_starts x) (telnet_step x) s"
    by (rule lift) (use assms(1) in \<open>auto simp: session_starts_def\<close>)
  show "cfg_gw_auth cfg \<Longrightarrow> reach (gw_session_starts x) (telnet_step x) s"
    by (rule lift) (use assms(1) in \<open>auto simp: gw_session_starts_def\<close>)
qed

text \<open>C2: A session never runs into a failed assertion or a memory error of the proxy, whatever the
  peers send and the policy functions answer, provided no policy entry is an empty sequence; and
  the buffers of both decoders stay within their size.\<close>

theorem telnet_never_crashes:
  assumes "cfg_safe cfg" and "telnet_main x cfg inps = Some s"
  shows "\<not> tn_crashed s \<and>
    (\<forall>ep. length (tp_data (tn_protocol s ep)) \<le> TELNET_BUFFER_SIZE \<and>
          length (tp_subneg (tn_protocol s ep)) \<le> TELNET_BUFFER_SIZE)"
  using session.reach_inv [OF run_reach(1) [OF assms]] by (auto simp: base_inv_def tp_wf_def tp_bounded_def)

theorem telnet_never_crashes_witness:
  "\<exists>s. telnet_main quiet_ext gw_cfg (login ''secret'') = Some s \<and> tn_state s = TELNET_STATE_RELAYING \<and> \<not> tn_crashed s"
proof -
  have "map_option tn_state (telnet_main quiet_ext gw_cfg (login ''secret'')) = Some TELNET_STATE_RELAYING"
    by (simp add: session_eval cong: bind_weak_cong)
  then obtain s where "telnet_main quiet_ext gw_cfg (login ''secret'') = Some s" "tn_state s = TELNET_STATE_RELAYING"
    by auto
  with telnet_never_crashes [OF gw_cfg_safe(1)] show ?thesis by blast
qed

text \<open>C1: With gateway authentication nothing reaches the server before a user was authorised: at
  every connection attempt, every write to the server and every handshake with it, a password
  check has already succeeded and the policy has agreed to that user. In particular a relaying
  session is authorised.\<close>

theorem gateway_guards_server:
  assumes "cfg_safe cfg" and "cfg_gw_auth cfg" and "telnet_main x cfg inps = Some s"
  shows "(\<forall>later e earlier. tn_hist s = later @ e # earlier \<and> reaches_server e \<longrightarrow> authorised earlier) \<and>
    (tn_state s = TELNET_STATE_RELAYING \<or> tn_state s = TELNET_STATE_PROMPT_SERVER \<longrightarrow> authorised (tn_hist s))"
  using gateway.reach_inv [OF run_reach(2) [OF assms(1,3,2)]] guarded_split [of _ _ _]
  by (fastforce simp: gw_any_def gw_defs)

theorem gateway_guards_server_witness:
  "\<exists>s. telnet_main quiet_ext gw_cfg (login ''secret'') = Some s \<and> tn_state s = TELNET_STATE_RELAYING \<and> authorised (tn_hist s)"
proof -
  have "map_option tn_state (telnet_main quiet_ext gw_cfg (login ''secret'')) = Some TELNET_STATE_RELAYING"
    by (simp add: session_eval cong: bind_weak_cong)
  then obtain s where "telnet_main quiet_ext gw_cfg (login ''secret'') = Some s" "tn_state s = TELNET_STATE_RELAYING"
    by auto
  with gateway_guards_server [OF gw_cfg_safe] show ?thesis by blast
qed

text \<open>C3: The password check in this source tree refuses every password, so with it a session that
  demands gateway authentication never connects, never relays and never touches the server.\<close>

theorem shipped_gateway_closed:
  assumes "cfg_safe cfg" and "cfg_gw_auth cfg" and "telnet_main (shipped_ext x) cfg inps = Some s"
  shows "tn_state s \<noteq> TELNET_STATE_RELAYING \<and> \<not> tn_server_stream_initialized s \<and>
    (\<forall>e\<in>set (tn_hist s). \<not> reaches_server e)"
  using shipped.reach_inv [OF run_reach(2) [OF assms(1,3,2)]] by (auto simp: gw_defs)

theorem shipped_gateway_closed_witness:
  "\<exists>s. telnet_main (shipped_ext quiet_ext) gw_cfg [] = Some s \<and> \<not> tn_server_stream_initialized s"
proof -
  obtain s where "telnet_main (shipped_ext quiet_ext) gw_cfg [] = Some s"
    by (simp add: session_eval shipped_ext_def cong: bind_weak_cong)
  with shipped_gateway_closed [OF gw_cfg_safe] show ?thesis by blast
qed

end
