(* ===== verification/Transfer2.thy ===== *)
theory Transfer2
  imports Prelude Policy
begin

text \<open>
  The bulk transfer of \<^verbatim>\<open>libproxy/transfer2.cc\<close>: data is copied from a source to a destination,
  through a stacked proxy if there is one, by callbacks of the poll loop. A transfer class
  supplies how to read the source and write the destination; classes extend the record
  \<open>ZTransfer2\<close> and pass their functions as a table, as the C code does.

  The streams are outside: what each read and write will answer is a list consumed call by
  call (an empty list means nothing to read, and everything written), and what was
  written is collected per stream.
\<close>

unbundle bit_operations_syntax

section \<open>Streams\<close>

type_synonym read_answers = "(giostatus \<times> bytes) list"
type_synonym write_answers = "(giostatus \<times> nat) list"

text \<open>A read never stores more than it was asked for, a write never takes more than it was given.\<close>

fun answer_read :: "nat \<Rightarrow> read_answers \<Rightarrow> (giostatus \<times> bytes) \<times> read_answers" where
  "answer_read count [] = ((G_IO_STATUS_AGAIN, []), [])"
| "answer_read count ((res, bs) # rest) = ((res, take count bs), rest)"

fun answer_write :: "bytes \<Rightarrow> write_answers \<Rightarrow> (giostatus \<times> nat) \<times> write_answers" where
  "answer_write bs [] = ((G_IO_STATUS_NORMAL, length bs), [])"
| "answer_write bs ((res, n) # rest) = ((res, min n (length bs)), rest)"

section \<open>State\<close>

definition ZT2F_COMPLETE_COPY :: "32 word" where "ZT2F_COMPLETE_COPY = 0x0001"
definition ZT2F_PROXY_STREAMS_POLLED :: "32 word" where "ZT2F_PROXY_STREAMS_POLLED = 0x0002"

definition ZT2S_FINISHED :: "32 word" where "ZT2S_FINISHED = 0x0001"
definition ZT2S_SUSPENDED :: "32 word" where "ZT2S_SUSPENDED = 0x0002"
definition ZT2S_FAILED :: "32 word" where "ZT2S_FAILED = 0x0004"
definition ZT2S_TIMEDOUT :: "32 word" where "ZT2S_TIMEDOUT = 0x0008"
definition ZT2S_ABORTED :: "32 word" where "ZT2S_ABORTED = 0x0010"
definition ZT2S_STARTED :: "32 word" where "ZT2S_STARTED = 0x0020"
definition ZT2S_COPYING_TAIL :: "32 word" where "ZT2S_COPYING_TAIL = 0x0040"
definition ZT2S_EOF_SOURCE :: "32 word" where "ZT2S_EOF_SOURCE = 0x0100"
definition ZT2S_EOF_DEST :: "32 word" where "ZT2S_EOF_DEST = 0x0200"
definition ZT2S_SOFT_EOF_SOURCE :: "32 word" where "ZT2S_SOFT_EOF_SOURCE = 0x0400"
definition ZT2S_SOFT_EOF_DEST :: "32 word" where "ZT2S_SOFT_EOF_DEST = 0x0800"
definition ZT2S_PROXY_OUT :: "32 word" where "ZT2S_PROXY_OUT = 0x1000"

text \<open>The endpoints; the bit \<open>ZT2E_STACKED\<close> marks the two ends of the stacked proxy.\<close>

datatype zt2_endpoint = ZT2E_SOURCE | ZT2E_DEST | ZT2E_DOWN_SOURCE | ZT2E_DOWN_DEST

fun zt2e_stacked :: "zt2_endpoint \<Rightarrow> bool" where
  "zt2e_stacked ZT2E_SOURCE = False"
| "zt2e_stacked ZT2E_DEST = False"
| "zt2e_stacked ZT2E_DOWN_SOURCE = True"
| "zt2e_stacked ZT2E_DOWN_DEST = True"

text \<open>The bytes up to the fill mark \<^verbatim>\<open>end\<close> and the read mark \<^verbatim>\<open>ofs\<close>.\<close>

record ZTransfer2Buffer =
  tb_data :: bytes
  tb_ofs :: nat
  tb_size :: nat

record ZTransfer2 =
  t_buffers :: "endpoint \<Rightarrow> ZTransfer2Buffer"
  t_buffer_size :: nat
  t_flags :: "32 word"
  t_stacked :: bool
  t_status :: "32 word"
  t_suspend_reason :: int
  t_stack_decision :: ZVerdict
  t_stack_info :: bytes
  t_cond_in :: "zt2_endpoint \<Rightarrow> bool"
  t_cond_out :: "zt2_endpoint \<Rightarrow> bool"
  t_reads :: "zt2_endpoint \<Rightarrow> read_answers"
  t_writes :: "zt2_endpoint \<Rightarrow> write_answers"
  t_sent :: "zt2_endpoint \<Rightarrow> bytes"
  t_shut :: "zt2_endpoint \<Rightarrow> bool"

text \<open>The virtual functions of a transfer class: reading and writing as on a stream, shutting down,
  stacking, set-up and progress.\<close>

record 's ZTransfer2Funcs =
  src_read :: "nat \<Rightarrow> 's \<Rightarrow> (giostatus \<times> bytes) \<times> 's"
  dst_write :: "bytes \<Rightarrow> 's \<Rightarrow> (giostatus \<times> nat) \<times> 's"
  src_shutdown :: "'s \<Rightarrow> 's"
  dst_shutdown :: "'s \<Rightarrow> 's"
  stack_proxy :: "'s \<Rightarrow> bool \<times> 's"
  setup_transfer :: "'s \<Rightarrow> bool \<times> 's"
  progress :: "'s \<Rightarrow> bool \<times> 's"

section \<open>Streams of a transfer\<close>

definition z_stream_read :: "zt2_endpoint \<Rightarrow> nat \<Rightarrow> 'a ZTransfer2_scheme \<Rightarrow> (giostatus \<times> bytes) \<times> 'a ZTransfer2_scheme" where
  "z_stream_read ep count self =
     (case answer_read count (t_reads self ep) of
        (r, rest) \<Rightarrow> (r, self\<lparr>t_reads := (t_reads self)(ep := rest)\<rparr>))"

definition z_stream_write :: "zt2_endpoint \<Rightarrow> bytes \<Rightarrow> 'a ZTransfer2_scheme \<Rightarrow> (giostatus \<times> nat) \<times> 'a ZTransfer2_scheme" where
  "z_stream_write ep bs self =
     (case answer_write bs (t_writes self ep) of
        ((res, bw), rest) \<Rightarrow>
          ((res, bw), self\<lparr>t_writes := (t_writes self)(ep := rest),
             t_sent := (t_sent self)(ep := t_sent self ep @ take bw bs)\<rparr>))"

definition z_stream_shutdown :: "zt2_endpoint \<Rightarrow> 'a ZTransfer2_scheme \<Rightarrow> 'a ZTransfer2_scheme" where
  "z_stream_shutdown ep self = self\<lparr>t_shut := (t_shut self)(ep := True)\<rparr>"

section \<open>Status and buffers\<close>

definition z_transfer2_update_status :: "32 word \<Rightarrow> bool \<Rightarrow> 'a ZTransfer2_scheme \<Rightarrow> 'a ZTransfer2_scheme" where
  "z_transfer2_update_status status_bit enable self =
     self\<lparr>t_status := (if enable then t_status self OR status_bit else t_status self AND NOT status_bit)\<rparr>"

definition z_transfer2_get_status :: "'a ZTransfer2_scheme \<Rightarrow> 32 word \<Rightarrow> bool" where
  "z_transfer2_get_status self status_bit \<longleftrightarrow> t_status self AND status_bit \<noteq> 0"

text \<open>What a stacked proxy decides about the contents, called from its own thread.\<close>

definition z_transfer2_ps_iface_set_stacked_verdict :: "ZVerdict \<Rightarrow> bytes \<Rightarrow> 'a ZTransfer2_scheme \<Rightarrow> 'a ZTransfer2_scheme" where
  "z_transfer2_ps_iface_set_stacked_verdict verdict description self =
     self\<lparr>t_stack_info := description, t_stack_decision := verdict\<rparr>"

definition z_transfer2_suspend :: "int \<Rightarrow> 'a ZTransfer2_scheme \<Rightarrow> 'a ZTransfer2_scheme" where
  "z_transfer2_suspend suspend_reason self =
     (z_transfer2_update_status ZT2S_SUSPENDED True self)\<lparr>t_suspend_reason := suspend_reason\<rparr>"

definition z_transfer2_buffer_empty :: "ZTransfer2Buffer \<Rightarrow> bool" where
  "z_transfer2_buffer_empty b \<longleftrightarrow> tb_ofs b = length (tb_data b)"

definition z_transfer2_buffer_full :: "ZTransfer2Buffer \<Rightarrow> bool" where
  "z_transfer2_buffer_full b \<longleftrightarrow> length (tb_data b) = tb_size b"

definition z_transfer2_buffer_init :: "nat \<Rightarrow> ZTransfer2Buffer" where
  "z_transfer2_buffer_init buffer_size = \<lparr>tb_data = [], tb_ofs = 0, tb_size = buffer_size\<rparr>"

definition upd_buffer :: "endpoint \<Rightarrow> (ZTransfer2Buffer \<Rightarrow> ZTransfer2Buffer) \<Rightarrow> 'a ZTransfer2_scheme \<Rightarrow> 'a ZTransfer2_scheme" where
  "upd_buffer i f self = self\<lparr>t_buffers := (t_buffers self)(i := f (t_buffers self i))\<rparr>"

text \<open>The buffer that belongs to a source endpoint: \<^verbatim>\<open>ep_from & ~ZT2E_STACKED\<close>.\<close>

fun buffer_of :: "zt2_endpoint \<Rightarrow> endpoint" where
  "buffer_of ZT2E_SOURCE = EP_CLIENT"
| "buffer_of ZT2E_DOWN_SOURCE = EP_CLIENT"
| "buffer_of ZT2E_DEST = EP_SERVER"
| "buffer_of ZT2E_DOWN_DEST = EP_SERVER"

section \<open>Conditions\<close>

definition set_conds :: "(zt2_endpoint \<Rightarrow> bool) \<Rightarrow> (zt2_endpoint \<Rightarrow> bool) \<Rightarrow> 'a ZTransfer2_scheme \<Rightarrow> 'a ZTransfer2_scheme" where
  "set_conds i out self = self\<lparr>t_cond_in := i, t_cond_out := out\<rparr>"

definition z_transfer2_update_cond :: "'a ZTransfer2_scheme \<Rightarrow> 'a ZTransfer2_scheme" where
  "z_transfer2_update_cond self =
     (let waiting = z_transfer2_buffer_empty (t_buffers self EP_CLIENT);
          held = z_transfer2_get_status self ZT2S_PROXY_OUT;
          source = \<not> z_transfer2_get_status self ZT2S_EOF_SOURCE;
          dest = \<not> z_transfer2_get_status self ZT2S_EOF_DEST;
          empty2 = z_transfer2_buffer_empty (t_buffers self EP_SERVER)
      in if t_stacked self then
           set_conds
             (\<lambda>ep. ep = ZT2E_SOURCE \<and> source \<and> waiting \<and> \<not> held \<or> ep = ZT2E_DOWN_DEST \<and> dest \<and> empty2)
             (\<lambda>ep. ep = ZT2E_DOWN_SOURCE \<and> source \<and> \<not> (waiting \<and> \<not> held) \<or> ep = ZT2E_DEST \<and> dest \<and> \<not> empty2) self
         else
           set_conds
             (\<lambda>ep. ep = ZT2E_SOURCE \<and> source \<and> (waiting \<or> \<not> dest) \<and> \<not> held)
             (\<lambda>ep. ep = ZT2E_DEST \<and> source \<and> \<not> ((waiting \<or> \<not> dest) \<and> \<not> held)) self)"

section \<open>Copying\<close>

definition z_transfer2_eof :: "'a ZTransfer2_scheme ZTransfer2Funcs \<Rightarrow> zt2_endpoint \<Rightarrow> 'a ZTransfer2_scheme \<Rightarrow> 'a ZTransfer2_scheme" where
  "z_transfer2_eof c ep self =
     (let eof_status = (if ep = ZT2E_SOURCE then ZT2S_EOF_SOURCE else ZT2S_EOF_DEST);
          self1 =
            (if \<not> z_transfer2_get_status self eof_status then
               (if t_stacked self then
                  z_transfer2_update_status eof_status True
                    (if ep = ZT2E_SOURCE then z_stream_shutdown ZT2E_DOWN_SOURCE (src_shutdown c self)
                     else dst_shutdown c (z_stream_shutdown ZT2E_DOWN_DEST self))
                else
                  z_transfer2_update_status (ZT2S_EOF_SOURCE + ZT2S_EOF_DEST) True
                    (dst_shutdown c (src_shutdown c self)))
             else self)
      in if t_status self1 AND (ZT2S_EOF_SOURCE + ZT2S_EOF_DEST) = ZT2S_EOF_SOURCE + ZT2S_EOF_DEST
         then z_transfer2_update_status ZT2S_FINISHED True self1 else self1)"

text \<open>The destination is never read (\<^verbatim>\<open>read_len\<close> would stay unset): only the source and the far end of
  the stacked proxy are.\<close>

definition z_transfer2_read_source ::
  "'a ZTransfer2_scheme ZTransfer2Funcs \<Rightarrow> zt2_endpoint \<Rightarrow> 'a ZTransfer2_scheme \<Rightarrow> giostatus \<times> 'a ZTransfer2_scheme" where
  "z_transfer2_read_source c ep self =
     (let b = t_buffers self (buffer_of ep);
          room = tb_size b - length (tb_data b)
      in case (if zt2e_stacked ep then z_stream_read ep room self
               else if ep = ZT2E_SOURCE then src_read c room self
               else ((G_IO_STATUS_NORMAL, []), self)) of
           ((res, bs), self1) \<Rightarrow>
             (res, if res = G_IO_STATUS_NORMAL
                   then upd_buffer (buffer_of ep) (\<lambda>b. b\<lparr>tb_data := tb_data b @ bs\<rparr>) self1 else self1))"

definition z_transfer2_write_dest ::
  "'a ZTransfer2_scheme ZTransfer2Funcs \<Rightarrow> zt2_endpoint \<Rightarrow> endpoint \<Rightarrow> 'a ZTransfer2_scheme \<Rightarrow> giostatus \<times> 'a ZTransfer2_scheme" where
  "z_transfer2_write_dest c ep i self =
     (let b = t_buffers self i in
      if z_transfer2_buffer_empty b then (G_IO_STATUS_NORMAL, self)
      else case (if zt2e_stacked ep then z_stream_write ep (drop (tb_ofs b) (tb_data b)) self
                 else dst_write c (drop (tb_ofs b) (tb_data b)) self) of
        ((res, bytes_written), self1) \<Rightarrow>
          if res = G_IO_STATUS_NORMAL then
            (let self2 = upd_buffer i (\<lambda>b. b\<lparr>tb_ofs := tb_ofs b + bytes_written\<rparr>) self1
             in (if z_transfer2_buffer_empty (t_buffers self2 i) then G_IO_STATUS_NORMAL else G_IO_STATUS_AGAIN, self2))
          else (res, self1))"

definition MAX_READ_AT_A_TIME :: nat where "MAX_READ_AT_A_TIME = 30"

definition soft_eof :: "zt2_endpoint \<Rightarrow> 32 word" where
  "soft_eof ep_from = (if ep_from = ZT2E_SOURCE then ZT2S_SOFT_EOF_SOURCE else ZT2S_SOFT_EOF_DEST)"

text \<open>The inner loop fills the buffer: whether to leave, the packets read so far, the last result.\<close>

function read_loop ::
  "'a ZTransfer2_scheme ZTransfer2Funcs \<Rightarrow> zt2_endpoint \<Rightarrow> nat \<Rightarrow> giostatus \<Rightarrow> 'a ZTransfer2_scheme \<Rightarrow>
   bool \<times> nat \<times> giostatus \<times> 'a ZTransfer2_scheme" where
  "read_loop c ep_from pkt_count res self =
     (let i = buffer_of ep_from in
      if pkt_count < MAX_READ_AT_A_TIME \<and> \<not> z_transfer2_buffer_full (t_buffers self i) then
        (if \<not> z_transfer2_get_status self (soft_eof ep_from) then
           (case z_transfer2_read_source c ep_from self of
              (res1, self1) \<Rightarrow>
                if res1 = G_IO_STATUS_NORMAL then read_loop c ep_from (pkt_count + 1) res1 self1
                else if res1 = G_IO_STATUS_AGAIN then (True, pkt_count, res1, self1)
                else if res1 = G_IO_STATUS_EOF then
                  (if z_transfer2_buffer_empty (t_buffers self1 i)
                   then (True, pkt_count, res1, z_transfer2_eof c ep_from self1)
                   else (False, pkt_count, res1, z_transfer2_update_status (soft_eof ep_from) True self1))
                else (True, pkt_count, res1,
                  z_transfer2_eof c ep_from (z_transfer2_update_status (ZT2S_FINISHED + ZT2S_ABORTED) True self1)))
         else if z_transfer2_buffer_empty (t_buffers self i) then (True, pkt_count, res, z_transfer2_eof c ep_from self)
         else (False, pkt_count, res, self))
      else (False, pkt_count, res, self))"
  by pat_completeness auto
termination
  by (relation "measure (\<lambda>(c, ep, pkt, res, self). MAX_READ_AT_A_TIME - pkt)") auto

declare read_loop.simps [simp del]

text \<open>The first half of the outer loop's body writes what is there: whether to stop, the result.\<close>

definition copy_write ::
  "'a ZTransfer2_scheme ZTransfer2Funcs \<Rightarrow> zt2_endpoint \<Rightarrow> endpoint \<Rightarrow> 'a ZTransfer2_scheme \<Rightarrow>
   bool \<times> giostatus \<times> 'a ZTransfer2_scheme" where
  "copy_write c ep_to i self =
     (if \<not> z_transfer2_get_status self ZT2S_COPYING_TAIL then
        (case z_transfer2_write_dest c ep_to i self of
           (res, self1) \<Rightarrow>
             if res = G_IO_STATUS_NORMAL then (\<not> z_transfer2_buffer_empty (t_buffers self1 i), res, self1)
             else if res = G_IO_STATUS_AGAIN then (True, res, self1)
             else (True, res,
               let self2 = z_transfer2_update_status ZT2S_FAILED True self1 in
               if t_flags self2 AND ZT2F_COMPLETE_COPY \<noteq> 0
               then z_transfer2_update_status ZT2S_COPYING_TAIL True self2
               else z_transfer2_update_status ZT2S_FINISHED True self2))
      else (False, G_IO_STATUS_NORMAL, upd_buffer i (\<lambda>b. b\<lparr>tb_data := [], tb_ofs := 0\<rparr>) self))"

definition copy_reset :: "endpoint \<Rightarrow> 'a ZTransfer2_scheme \<Rightarrow> 'a ZTransfer2_scheme" where
  "copy_reset i self =
     (if z_transfer2_buffer_empty (t_buffers self i) then upd_buffer i (\<lambda>b. b\<lparr>tb_data := [], tb_ofs := 0\<rparr>) self
      else self)"

text \<open>The outer loop, which does not end by itself when the buffer has no room at all.\<close>

partial_function (option) copy_loop ::
  "'a ZTransfer2_scheme ZTransfer2Funcs \<Rightarrow> zt2_endpoint \<Rightarrow> zt2_endpoint \<Rightarrow> nat \<Rightarrow> 'a ZTransfer2_scheme \<Rightarrow>
   (giostatus \<times> 'a ZTransfer2_scheme) option" where
  "copy_loop c ep_from ep_to pkt_count self =
     (case copy_write c ep_to (buffer_of ep_from) self of
        (stop, res, self1) \<Rightarrow>
          if stop then Some (res, self1)
          else (case read_loop c ep_from pkt_count res (copy_reset (buffer_of ep_from) self1) of
            (leave, pkt_count', res', self2) \<Rightarrow>
              if pkt_count' < MAX_READ_AT_A_TIME \<and> \<not> leave
              then copy_loop c ep_from ep_to pkt_count' self2
              else Some (res', self2)))"

declare copy_loop.simps [code]

definition z_transfer2_copy_data ::
  "'a ZTransfer2_scheme ZTransfer2Funcs \<Rightarrow> zt2_endpoint \<Rightarrow> zt2_endpoint \<Rightarrow> 'a ZTransfer2_scheme \<Rightarrow>
   (giostatus \<times> 'a ZTransfer2_scheme) option" where
  "z_transfer2_copy_data c ep_from ep_to self =
     map_option (\<lambda>(res, self1). (res, z_transfer2_update_cond self1)) (copy_loop c ep_from ep_to 0 self)"

section \<open>Running\<close>

text \<open>What one round of the poll reports: streams that became ready and timers that expired, the
  poll's own result, and whether the proxy may go on.\<close>

datatype zt2_fire = FireIn zt2_endpoint | FireOut zt2_endpoint | FireTimeout | FireProgress

record zt2_round =
  zr_fires :: "zt2_fire list"
  zr_poll :: bool
  zr_loop :: bool

datatype ZTransfer2Result = ZT2_RESULT_FINISHED | ZT2_RESULT_SUSPENDED | ZT2_RESULT_FAILED | ZT2_RESULT_ABORTED

text \<open>The callbacks registered on the streams, by direction and stacking: from where to where they copy.\<close>

fun callback_in :: "bool \<Rightarrow> zt2_endpoint \<Rightarrow> (zt2_endpoint \<times> zt2_endpoint) option" where
  "callback_in stacked ZT2E_SOURCE = Some (ZT2E_SOURCE, if stacked then ZT2E_DOWN_SOURCE else ZT2E_DEST)"
| "callback_in stacked ZT2E_DOWN_DEST = (if stacked then Some (ZT2E_DOWN_DEST, ZT2E_DEST) else None)"
| "callback_in stacked ep = None"

fun callback_out :: "bool \<Rightarrow> zt2_endpoint \<Rightarrow> (zt2_endpoint \<times> zt2_endpoint) option" where
  "callback_out stacked ZT2E_DEST = Some (if stacked then ZT2E_DOWN_DEST else ZT2E_SOURCE, ZT2E_DEST)"
| "callback_out stacked ZT2E_DOWN_SOURCE = (if stacked then Some (ZT2E_SOURCE, ZT2E_DOWN_SOURCE) else None)"
| "callback_out stacked ep = None"

definition run_callback ::
  "'a ZTransfer2_scheme ZTransfer2Funcs \<Rightarrow> (zt2_endpoint \<times> zt2_endpoint) option \<Rightarrow> 'a ZTransfer2_scheme \<Rightarrow>
   'a ZTransfer2_scheme option" where
  "run_callback c cb self =
     (case cb of None \<Rightarrow> Some self
      | Some (ep_from, ep_to) \<Rightarrow> map_option snd (z_transfer2_copy_data c ep_from ep_to self))"

definition z_transfer2_timeout :: "'a ZTransfer2_scheme \<Rightarrow> 'a ZTransfer2_scheme" where
  "z_transfer2_timeout = z_transfer2_update_status (ZT2S_TIMEDOUT + ZT2S_FAILED + ZT2S_FINISHED) True"

definition z_transfer2_timed_progress ::
  "'a ZTransfer2_scheme ZTransfer2Funcs \<Rightarrow> 'a ZTransfer2_scheme \<Rightarrow> 'a ZTransfer2_scheme" where
  "z_transfer2_timed_progress c self =
     (case progress c self of (ok, self1) \<Rightarrow>
        if ok then self1 else z_transfer2_update_status (ZT2S_FAILED + ZT2S_FINISHED) True self1)"

fun fire :: "'a ZTransfer2_scheme ZTransfer2Funcs \<Rightarrow> zt2_fire \<Rightarrow> 'a ZTransfer2_scheme \<Rightarrow> 'a ZTransfer2_scheme option" where
  "fire c (FireIn ep) self = (if t_cond_in self ep then run_callback c (callback_in (t_stacked self) ep) self else Some self)"
| "fire c (FireOut ep) self = (if t_cond_out self ep then run_callback c (callback_out (t_stacked self) ep) self else Some self)"
| "fire c FireTimeout self = Some (z_transfer2_timeout self)"
| "fire c FireProgress self = Some (z_transfer2_timed_progress c self)"

fun fire_all :: "'a ZTransfer2_scheme ZTransfer2Funcs \<Rightarrow> zt2_fire list \<Rightarrow> 'a ZTransfer2_scheme \<Rightarrow> 'a ZTransfer2_scheme option" where
  "fire_all c [] self = Some self"
| "fire_all c (f # fs) self = (case fire c f self of None \<Rightarrow> None | Some self1 \<Rightarrow> fire_all c fs self1)"

text \<open>The poll loop on the rounds to come; with none left the poll has stopped.\<close>

fun run_loop ::
  "'a ZTransfer2_scheme ZTransfer2Funcs \<Rightarrow> zt2_round list \<Rightarrow> 'a ZTransfer2_scheme \<Rightarrow>
   (zt2_round list \<times> 'a ZTransfer2_scheme) option" where
  "run_loop c [] self = Some ([], self)"
| "run_loop c (r # rs) self =
     (if t_status self AND (ZT2S_FINISHED + ZT2S_SUSPENDED) \<noteq> 0 then Some (r # rs, self)
      else case fire_all c (zr_fires r) self of
        None \<Rightarrow> None
      | Some self1 \<Rightarrow>
          if \<not> zr_poll r then Some (rs, self1)
          else if \<not> zr_loop r then Some (rs, z_transfer2_update_status (ZT2S_ABORTED + ZT2S_FINISHED) True self1)
          else run_loop c rs self1)"

definition run_result :: "'a ZTransfer2_scheme \<Rightarrow> ZTransfer2Result" where
  "run_result self =
     (if z_transfer2_get_status self ZT2S_SUSPENDED then ZT2_RESULT_SUSPENDED
      else if z_transfer2_get_status self ZT2S_FAILED then ZT2_RESULT_FAILED
      else if z_transfer2_get_status self ZT2S_ABORTED then ZT2_RESULT_ABORTED
      else ZT2_RESULT_FINISHED)"

definition z_transfer2_run_method ::
  "'a ZTransfer2_scheme ZTransfer2Funcs \<Rightarrow> zt2_round list \<Rightarrow> 'a ZTransfer2_scheme \<Rightarrow>
   (ZTransfer2Result \<times> zt2_round list \<times> 'a ZTransfer2_scheme) option" where
  "z_transfer2_run_method c rounds self =
     map_option (\<lambda>(rounds', self1). (run_result self1, rounds', self1))
       (run_loop c rounds
         (z_transfer2_update_status ZT2S_SUSPENDED False
           (z_transfer2_update_status ZT2S_STARTED True (z_transfer2_update_cond self))))"

text \<open>Stacking comes first; when it fails nothing is started.\<close>

definition z_transfer2_start ::
  "'a ZTransfer2_scheme ZTransfer2Funcs \<Rightarrow> 'a ZTransfer2_scheme \<Rightarrow> bool \<times> 'a ZTransfer2_scheme" where
  "z_transfer2_start c self =
     (case stack_proxy c self of (ok, self1) \<Rightarrow>
        if \<not> ok then (False, self1)
        else
          (let b = z_transfer2_buffer_init (t_buffer_size self1);
               self2 = self1\<lparr>t_buffers := (if t_stacked self1 then (\<lambda>_. b) else (t_buffers self1)(EP_CLIENT := b))\<rparr>
           in setup_transfer c (set_conds
                (\<lambda>ep. ep = ZT2E_SOURCE \<or> t_stacked self1 \<and> ep = ZT2E_DOWN_DEST \<or> t_cond_in self2 ep)
                (t_cond_out self2) self2)))"

partial_function (option) run_unsuspended ::
  "'a ZTransfer2_scheme ZTransfer2Funcs \<Rightarrow> zt2_round list \<Rightarrow> 'a ZTransfer2_scheme \<Rightarrow>
   (ZTransfer2Result \<times> zt2_round list \<times> 'a ZTransfer2_scheme) option" where
  "run_unsuspended c rounds self =
     (case z_transfer2_run_method c rounds self of
        None \<Rightarrow> None
      | Some (tr, rounds', self1) \<Rightarrow>
          if tr = ZT2_RESULT_SUSPENDED then run_unsuspended c rounds' self1 else Some (tr, rounds', self1))"

declare run_unsuspended.simps [code]

definition z_transfer2_rollback ::
  "'a ZTransfer2_scheme ZTransfer2Funcs \<Rightarrow> zt2_round list \<Rightarrow> 'a ZTransfer2_scheme \<Rightarrow>
   (zt2_round list \<times> 'a ZTransfer2_scheme) option" where
  "z_transfer2_rollback c rounds self =
     (if z_transfer2_get_status self ZT2S_STARTED \<and> \<not> z_transfer2_get_status self ZT2S_FINISHED
      then map_option snd (run_unsuspended c rounds (z_transfer2_update_status ZT2S_COPYING_TAIL True self))
      else Some (rounds, self))"

definition z_transfer2_cancel :: "'a ZTransfer2_scheme \<Rightarrow> 'a ZTransfer2_scheme" where
  "z_transfer2_cancel self =
     (if \<not> z_transfer2_get_status self ZT2S_FINISHED
      then z_transfer2_update_status (ZT2S_FINISHED + ZT2S_ABORTED) True self else self)"

definition z_transfer2_simple_run ::
  "'a ZTransfer2_scheme ZTransfer2Funcs \<Rightarrow> zt2_round list \<Rightarrow> 'a ZTransfer2_scheme \<Rightarrow> (bool \<times> 'a ZTransfer2_scheme) option" where
  "z_transfer2_simple_run c rounds self =
     (case z_transfer2_start c self of (started, self1) \<Rightarrow>
        if \<not> started then Some (False, self1)
        else (case run_unsuspended c rounds self1 of
          None \<Rightarrow> None
        | Some (tr, rounds', self2) \<Rightarrow>
            if tr = ZT2_RESULT_FAILED
            then map_option (\<lambda>(_, self3). (False, self3)) (z_transfer2_rollback c rounds' self2)
            else Some (tr \<noteq> ZT2_RESULT_ABORTED, self2)))"

section \<open>What a transfer class must respect\<close>

text \<open>A class reads no more than there is room for, writes no more than it is given, and leaves the
  buffers to the transfer.\<close>

definition zt2_frame :: "'a ZTransfer2_scheme \<Rightarrow> 'a ZTransfer2_scheme \<Rightarrow> bool" where
  "zt2_frame self self' \<longleftrightarrow> t_buffers self' = t_buffers self \<and> t_stacked self' = t_stacked self"

definition buffer_ok :: "ZTransfer2Buffer \<Rightarrow> bool" where
  "buffer_ok b \<longleftrightarrow> tb_ofs b \<le> length (tb_data b) \<and> length (tb_data b) \<le> tb_size b \<and> 0 < tb_size b"

definition buffers_ok :: "'a ZTransfer2_scheme \<Rightarrow> bool" where
  "buffers_ok self \<longleftrightarrow> buffer_ok (t_buffers self EP_CLIENT) \<and> (t_stacked self \<longrightarrow> buffer_ok (t_buffers self EP_SERVER))"

lemma zt2_frame_refl [simp]: "zt2_frame self self"
  by (simp add: zt2_frame_def)

lemma zt2_frame_trans [trans]: "zt2_frame a b \<Longrightarrow> zt2_frame b d \<Longrightarrow> zt2_frame a d"
  by (simp add: zt2_frame_def)

lemma zt2_frame_status [simp]: "zt2_frame self (z_transfer2_update_status bits enable self)"
  by (simp add: zt2_frame_def z_transfer2_update_status_def)

lemma zt2_frame_streams:
  "z_stream_read ep n self = (r, self1) \<Longrightarrow> zt2_frame self self1"
  "z_stream_write ep bs self = (w, self1) \<Longrightarrow> zt2_frame self self1"
  "zt2_frame self (z_stream_shutdown ep self)"
  by (auto simp: zt2_frame_def z_stream_read_def z_stream_write_def z_stream_shutdown_def split: prod.splits)

lemma stream_bounds:
  "z_stream_read ep n self = ((res, bs), self1) \<Longrightarrow> length bs \<le> n"
  "z_stream_write ep bs self = ((res, bw), self1) \<Longrightarrow> bw \<le> length bs"
  by (auto simp: z_stream_read_def z_stream_write_def elim!: answer_read.elims answer_write.elims split: prod.splits)

locale transfer_class =
  fixes c :: "'a ZTransfer2_scheme ZTransfer2Funcs"
  assumes src_read_law: "src_read c n self = ((res, bs), self') \<Longrightarrow> length bs \<le> n \<and> zt2_frame self self'"
    and dst_write_law: "dst_write c bs self = ((res, bw), self') \<Longrightarrow> bw \<le> length bs \<and> zt2_frame self self'"
    and shutdown_law: "zt2_frame self (src_shutdown c self)" "zt2_frame self (dst_shutdown c self)"
    and progress_law: "zt2_frame self (snd (progress c self))"
    and stack_law: "t_buffer_size (snd (stack_proxy c self)) = t_buffer_size self"
    and setup_law: "zt2_frame self (snd (setup_transfer c self))"
begin

lemma eof_frame: "zt2_frame self (z_transfer2_eof c ep self)"
proof -
  note shut = shutdown_law zt2_frame_streams(3) zt2_frame_status
  have "zt2_frame self (z_stream_shutdown ZT2E_DOWN_SOURCE (src_shutdown c self))"
    "zt2_frame self (dst_shutdown c (z_stream_shutdown ZT2E_DOWN_DEST self))"
    "zt2_frame self (dst_shutdown c (src_shutdown c self))"
    by (meson zt2_frame_trans shut)+
  then show ?thesis
    by (auto simp: z_transfer2_eof_def Let_def intro: zt2_frame_trans [OF _ zt2_frame_status])
qed

text \<open>The two halves of the loop's body keep the buffer within its size; a write half that goes on
  leaves it empty.\<close>

lemma write_dest_ok:
  assumes "z_transfer2_write_dest c ep i self = (res, self1)" and "tb_ofs (t_buffers self i) \<le> length (tb_data (t_buffers self i))"
  shows "\<exists>n. tb_ofs (t_buffers self i) \<le> n \<and> n \<le> length (tb_data (t_buffers self i)) \<and>
    t_buffers self1 = (t_buffers self)(i := (t_buffers self i)\<lparr>tb_ofs := n\<rparr>) \<and> t_stacked self1 = t_stacked self \<and>
    (res = G_IO_STATUS_NORMAL \<longrightarrow> n = length (tb_data (t_buffers self i)))"
proof -
  let ?b = "t_buffers self i"
  let ?w = "if zt2e_stacked ep then z_stream_write ep (drop (tb_ofs ?b) (tb_data ?b)) self
    else dst_write c (drop (tb_ofs ?b) (tb_data ?b)) self"
  obtain res' bw self2 where w: "?w = ((res', bw), self2)" by (metis surj_pair)
  have bw: "bw \<le> length (tb_data ?b) - tb_ofs ?b" and frame: "t_buffers self2 = t_buffers self" "t_stacked self2 = t_stacked self"
    using w stream_bounds(2) [of ep "drop (tb_ofs ?b) (tb_data ?b)" self res' bw self2]
      dst_write_law [of "drop (tb_ofs ?b) (tb_data ?b)" self res' bw self2]
      zt2_frame_streams(2) [of ep "drop (tb_ofs ?b) (tb_data ?b)" self "(res', bw)" self2]
    by (simp_all add: zt2_frame_def split: if_splits)
  show ?thesis
  proof (cases "z_transfer2_buffer_empty ?b")
    case True
    with assms show ?thesis
      by (intro exI [of _ "tb_ofs ?b"]) (auto simp: z_transfer2_write_dest_def z_transfer2_buffer_empty_def Let_def)
  next
    case False
    have "t_buffers self1 = (t_buffers self)(i := ?b\<lparr>tb_ofs := tb_ofs ?b + (if res' = G_IO_STATUS_NORMAL then bw else 0)\<rparr>)"
      "t_stacked self1 = t_stacked self"
      "res = G_IO_STATUS_NORMAL \<longrightarrow> res' = G_IO_STATUS_NORMAL \<and> tb_ofs ?b + bw = length (tb_data ?b)"
      using assms(1) False w frame
      by (auto simp: z_transfer2_write_dest_def Let_def upd_buffer_def z_transfer2_buffer_empty_def split: if_splits)
    with bw assms(2) show ?thesis
      by (intro exI [of _ "tb_ofs ?b + (if res' = G_IO_STATUS_NORMAL then bw else 0)"]) (auto split: if_splits)
  qed
qed

lemma copy_write_ok:
  assumes "copy_write c ep_to i self = (stop, res, self1)" and "buffer_ok (t_buffers self i)"
  shows "\<exists>b. t_buffers self1 = (t_buffers self)(i := b) \<and> t_stacked self1 = t_stacked self \<and> buffer_ok b \<and>
    (\<not> stop \<longrightarrow> z_transfer2_buffer_empty b)"
proof (cases "z_transfer2_get_status self ZT2S_COPYING_TAIL")
  case True
  with assms show ?thesis
    by (auto simp: copy_write_def upd_buffer_def buffer_ok_def z_transfer2_buffer_empty_def)
next
  case False
  obtain res' self2 where w: "z_transfer2_write_dest c ep_to i self = (res', self2)" by fastforce
  then obtain n where n: "n \<le> length (tb_data (t_buffers self i))"
      "t_buffers self2 = (t_buffers self)(i := (t_buffers self i)\<lparr>tb_ofs := n\<rparr>)" "t_stacked self2 = t_stacked self"
      "res' = G_IO_STATUS_NORMAL \<longrightarrow> n = length (tb_data (t_buffers self i))"
    using write_dest_ok [OF w] assms(2) by (auto simp: buffer_ok_def)
  have "t_buffers self1 = t_buffers self2" "t_stacked self1 = t_stacked self2" "\<not> stop \<longrightarrow> res' = G_IO_STATUS_NORMAL"
    using assms(1) False w by (auto simp: copy_write_def Let_def z_transfer2_update_status_def split: if_splits)
  with n assms(2) show ?thesis
    by (intro exI [of _ "(t_buffers self i)\<lparr>tb_ofs := n\<rparr>"]) (auto simp: buffer_ok_def z_transfer2_buffer_empty_def)
qed

lemma read_source_ok:
  assumes "z_transfer2_read_source c ep self = (res, self1)" and "buffer_ok (t_buffers self (buffer_of ep))"
  shows "\<exists>bs. t_buffers self1 = (t_buffers self)(buffer_of ep :=
      (t_buffers self (buffer_of ep))\<lparr>tb_data := tb_data (t_buffers self (buffer_of ep)) @ bs\<rparr>) \<and>
    length (tb_data (t_buffers self (buffer_of ep)) @ bs) \<le> tb_size (t_buffers self (buffer_of ep)) \<and>
    t_stacked self1 = t_stacked self \<and> (res \<noteq> G_IO_STATUS_NORMAL \<longrightarrow> bs = [])"
proof -
  let ?b = "t_buffers self (buffer_of ep)"
  let ?n = "tb_size ?b - length (tb_data ?b)"
  let ?r = "if zt2e_stacked ep then z_stream_read ep ?n self
      else if ep = ZT2E_SOURCE then src_read c ?n self else ((G_IO_STATUS_NORMAL, []), self)"
  obtain res' bs self2 where r: "?r = ((res', bs), self2)" by (metis surj_pair)
  have bs: "length bs \<le> ?n" and frame: "t_buffers self2 = t_buffers self" "t_stacked self2 = t_stacked self"
    using r stream_bounds(1) [of ep ?n self res' bs self2] src_read_law [of ?n self res' bs self2]
      zt2_frame_streams(1) [of ep ?n self "(res', bs)" self2]
    by (cases ep; force simp: zt2_frame_def)+
  have "t_buffers self1 = (t_buffers self)(buffer_of ep := ?b\<lparr>tb_data := tb_data ?b @ (if res = G_IO_STATUS_NORMAL then bs else [])\<rparr>)"
    "t_stacked self1 = t_stacked self"
    using assms(1) frame unfolding z_transfer2_read_source_def Let_def r
    by (auto simp: upd_buffer_def split: if_splits)
  with bs assms(2) show ?thesis
    by (intro exI [of _ "if res = G_IO_STATUS_NORMAL then bs else []"]) (auto simp: buffer_ok_def)
qed

lemma read_loop_ok:
  assumes "read_loop c ep pkt res self = (leave, pkt', res', self')" and "buffer_ok (t_buffers self (buffer_of ep))"
  shows "\<exists>b. t_buffers self' = (t_buffers self)(buffer_of ep := b) \<and> t_stacked self' = t_stacked self \<and> buffer_ok b \<and>
    pkt \<le> pkt' \<and> (z_transfer2_buffer_empty (t_buffers self (buffer_of ep)) \<and>
      \<not> z_transfer2_buffer_full (t_buffers self (buffer_of ep)) \<and> pkt < MAX_READ_AT_A_TIME \<and> \<not> leave \<longrightarrow> pkt < pkt')"
  using assms
proof (induction "MAX_READ_AT_A_TIME - pkt" arbitrary: pkt res self rule: less_induct)
  case less
  let ?i = "buffer_of ep"
  let ?b = "t_buffers self ?i"
  note unfold = read_loop.simps [of c ep pkt res self]
  have eof: "t_buffers (z_transfer2_eof c ep s) = t_buffers s" "t_stacked (z_transfer2_eof c ep s) = t_stacked s"
    "t_buffers (z_transfer2_update_status bs e s) = t_buffers s" "t_stacked (z_transfer2_update_status bs e s) = t_stacked s" for s bs e
    using eof_frame [of s ep] zt2_frame_status [of s bs e] by (simp_all add: zt2_frame_def)
  show ?case
  proof (cases "pkt < MAX_READ_AT_A_TIME \<and> \<not> z_transfer2_buffer_full ?b \<and> \<not> z_transfer2_get_status self (soft_eof ep)")
    case False
    with less.prems(1) have "t_buffers self' = t_buffers self \<and> t_stacked self' = t_stacked self \<and> pkt' = pkt \<and>
        (z_transfer2_buffer_empty ?b \<and> \<not> z_transfer2_buffer_full ?b \<and> pkt < MAX_READ_AT_A_TIME \<longrightarrow> leave)"
      by (subst (asm) unfold) (auto simp: Let_def eof split: if_splits)
    with less.prems(2) show ?thesis by (intro exI [of _ ?b]) auto
  next
    case True
    obtain res1 self1 where r: "z_transfer2_read_source c ep self = (res1, self1)" by fastforce
    obtain bs where bs: "t_buffers self1 = (t_buffers self)(?i := ?b\<lparr>tb_data := tb_data ?b @ bs\<rparr>)"
        "length (tb_data ?b @ bs) \<le> tb_size ?b" "t_stacked self1 = t_stacked self" "res1 \<noteq> G_IO_STATUS_NORMAL \<longrightarrow> bs = []"
      using read_source_ok [OF r less.prems(2)] by blast
    have ok: "buffer_ok (t_buffers self1 ?i)" using bs(1,2) less.prems(2) by (simp add: buffer_ok_def)
    show ?thesis
    proof (cases "res1 = G_IO_STATUS_NORMAL")
      case True': True
      have "read_loop c ep (pkt + 1) res1 self1 = (leave, pkt', res', self')"
        using less.prems(1) True True' r by (subst (asm) unfold) (simp add: Let_def)
      moreover have "MAX_READ_AT_A_TIME - (pkt + 1) < MAX_READ_AT_A_TIME - pkt" using True by linarith
      ultimately obtain b where "t_buffers self' = (t_buffers self1)(?i := b)"
          "t_stacked self' = t_stacked self1" "buffer_ok b" "pkt + 1 \<le> pkt'"
        using less.hyps [of "pkt + 1" res1 self1] ok by blast
      with bs show ?thesis by (intro exI [of _ b]) auto
    next
      case False
      with less.prems(1) True r bs(4)
      have "t_buffers self' = t_buffers self1 \<and> t_stacked self' = t_stacked self1 \<and> pkt' = pkt \<and>
          (leave \<or> \<not> z_transfer2_buffer_empty (t_buffers self1 ?i))"
        by (subst (asm) unfold) (auto simp: Let_def eof split: if_splits)
      with bs False ok show ?thesis by (intro exI [of _ "t_buffers self1 ?i"]) auto
    qed
  qed
qed

lemma copy_loop_terminates:
  assumes "buffer_ok (t_buffers self (buffer_of ep_from))"
  shows "\<exists>res self' b. copy_loop c ep_from ep_to pkt self = Some (res, self') \<and>
    t_buffers self' = (t_buffers self)(buffer_of ep_from := b) \<and> buffer_ok b \<and> t_stacked self' = t_stacked self"
  using assms
proof (induction "MAX_READ_AT_A_TIME - pkt" arbitrary: pkt self rule: less_induct)
  case less
  let ?i = "buffer_of ep_from"
  note unfold = copy_loop.simps [of c ep_from ep_to pkt self]
  obtain stop res self1 where w: "copy_write c ep_to ?i self = (stop, res, self1)" by (metis prod_cases3)
  obtain b1 where b1: "t_buffers self1 = (t_buffers self)(?i := b1)" "t_stacked self1 = t_stacked self" "buffer_ok b1"
      "\<not> stop \<longrightarrow> z_transfer2_buffer_empty b1"
    using copy_write_ok [OF w less.prems] by blast
  show ?case
  proof (cases stop)
    case True
    with w b1 show ?thesis by (subst unfold) auto
  next
    case False
    let ?r = "copy_reset ?i self1"
    have r: "t_buffers ?r = (t_buffers self)(?i := b1\<lparr>tb_data := [], tb_ofs := 0\<rparr>)" "t_stacked ?r = t_stacked self"
      using b1 False by (auto simp: copy_reset_def upd_buffer_def)
    then have ok: "buffer_ok (t_buffers ?r ?i)" and empty: "z_transfer2_buffer_empty (t_buffers ?r ?i)"
        "\<not> z_transfer2_buffer_full (t_buffers ?r ?i)"
      using b1(3) by (auto simp: buffer_ok_def z_transfer2_buffer_empty_def z_transfer2_buffer_full_def)
    obtain leave pkt' res' self2 where l: "read_loop c ep_from pkt res ?r = (leave, pkt', res', self2)" by (metis prod_cases4)
    obtain b2 where b2: "t_buffers self2 = (t_buffers ?r)(?i := b2)" "t_stacked self2 = t_stacked ?r" "buffer_ok b2"
        "pkt \<le> pkt'" "pkt < MAX_READ_AT_A_TIME \<and> \<not> leave \<longrightarrow> pkt < pkt'"
      using read_loop_ok [OF l ok] empty by blast
    show ?thesis
    proof (cases "pkt' < MAX_READ_AT_A_TIME \<and> \<not> leave")
      case True
      then have dec: "MAX_READ_AT_A_TIME - pkt' < MAX_READ_AT_A_TIME - pkt" using b2(4,5) by linarith
      have ok2: "buffer_ok (t_buffers self2 ?i)" using b2 by simp
      from less.hyps [OF dec ok2] show ?thesis
        using w l False True b2 r by (subst unfold) auto
    next
      case False': False
      with w l False b2 r show ?thesis by (subst unfold) auto
    qed
  qed
qed

lemma copy_data_terminates:
  assumes "buffer_ok (t_buffers self (buffer_of ep_from))"
  shows "\<exists>res self' b. z_transfer2_copy_data c ep_from ep_to self = Some (res, self') \<and>
    t_buffers self' = (t_buffers self)(buffer_of ep_from := b) \<and> buffer_ok b \<and> t_stacked self' = t_stacked self"
proof -
  obtain res self1 b where "copy_loop c ep_from ep_to 0 self = Some (res, self1)"
      "t_buffers self1 = (t_buffers self)(buffer_of ep_from := b)" "buffer_ok b" "t_stacked self1 = t_stacked self"
    using copy_loop_terminates [OF assms] by blast
  then show ?thesis
    by (intro exI [of _ res] exI [of _ "z_transfer2_update_cond self1"] exI [of _ b])
      (simp add: z_transfer2_copy_data_def z_transfer2_update_cond_def set_conds_def Let_def)
qed

text \<open>So every round of the poll ends and keeps the buffers of the transfer within their size.\<close>

lemma callback_ok:
  assumes "buffers_ok self" and "cb = callback_in (t_stacked self) ep \<or> cb = callback_out (t_stacked self) ep"
  shows "\<exists>self'. run_callback c cb self = Some self' \<and> buffers_ok self' \<and> t_stacked self' = t_stacked self"
proof (cases cb)
  case None
  with assms(1) show ?thesis by (simp add: run_callback_def)
next
  case (Some p)
  obtain from_ep to_ep where p: "p = (from_ep, to_ep)" by fastforce
  have ok: "buffer_ok (t_buffers self (buffer_of from_ep))"
    using assms Some p by (cases ep) (auto simp: buffers_ok_def split: if_splits)
  from copy_data_terminates [OF this, of to_ep] obtain res self' b where
      "z_transfer2_copy_data c from_ep to_ep self = Some (res, self')"
      "t_buffers self' = (t_buffers self)(buffer_of from_ep := b)" "buffer_ok b" "t_stacked self' = t_stacked self"
    by blast
  with assms(1) Some p show ?thesis by (auto simp: run_callback_def buffers_ok_def)
qed

lemma fire_all_ok:
  "buffers_ok self \<Longrightarrow> \<exists>self'. fire_all c fs self = Some self' \<and> buffers_ok self' \<and> t_stacked self' = t_stacked self"
proof (induction fs arbitrary: self)
  case (Cons f fs)
  have frame: "zt2_frame self self1 \<Longrightarrow> buffers_ok self1 \<and> t_stacked self1 = t_stacked self" for self1
    using Cons.prems by (simp add: zt2_frame_def buffers_ok_def)
  have "\<exists>self'. fire c f self = Some self' \<and> buffers_ok self' \<and> t_stacked self' = t_stacked self"
  proof (cases f)
    case (FireIn ep)
    then show ?thesis using callback_ok [OF Cons.prems, of "callback_in (t_stacked self) ep" ep] Cons.prems by simp
  next
    case (FireOut ep)
    then show ?thesis using callback_ok [OF Cons.prems, of "callback_out (t_stacked self) ep" ep] Cons.prems by simp
  next
    case FireTimeout
    then show ?thesis using frame [OF zt2_frame_status] by (simp add: z_transfer2_timeout_def)
  next
    case FireProgress
    have "zt2_frame self (z_transfer2_timed_progress c self)"
      using progress_law [of self] zt2_frame_trans [OF progress_law zt2_frame_status]
      by (auto simp: z_transfer2_timed_progress_def case_prod_unfold)
    from frame [OF this] show ?thesis by (simp add: FireProgress)
  qed
  then obtain self1 where "fire c f self = Some self1" "buffers_ok self1" "t_stacked self1 = t_stacked self" by blast
  with Cons.IH [of self1] show ?case by simp
qed simp

lemma run_loop_ok:
  "buffers_ok self \<Longrightarrow> \<exists>rounds' self'. run_loop c rounds self = Some (rounds', self') \<and> buffers_ok self' \<and>
     length rounds' \<le> length rounds"
proof (induction rounds arbitrary: self)
  case (Cons r rs)
  obtain self1 where s1: "fire_all c (zr_fires r) self = Some self1" "buffers_ok self1"
    using fire_all_ok [OF Cons.prems] by blast
  moreover have "buffers_ok (z_transfer2_update_status bs e self1)" for bs e
    using s1(2) zt2_frame_status [of self1 bs e] by (simp add: zt2_frame_def buffers_ok_def)
  ultimately show ?case
    using Cons.prems Cons.IH [OF s1(2)] by auto
qed simp

lemma run_method_ok:
  assumes "buffers_ok self"
  shows "\<exists>tr rounds' self'. z_transfer2_run_method c rounds self = Some (tr, rounds', self') \<and> buffers_ok self'"
proof -
  let ?s = "z_transfer2_update_status ZT2S_SUSPENDED False
    (z_transfer2_update_status ZT2S_STARTED True (z_transfer2_update_cond self))"
  have "buffers_ok ?s"
    using assms by (simp add: buffers_ok_def z_transfer2_update_status_def z_transfer2_update_cond_def set_conds_def Let_def)
  from run_loop_ok [OF this, of rounds] show ?thesis by (auto simp: z_transfer2_run_method_def)
qed

text \<open>A run that was suspended has used up a round, so resuming it comes to an end.\<close>

lemma run_loop_consumes:
  assumes "run_loop c rounds self = Some (rounds', self')"
  shows "rounds' = rounds \<and> self' = self \<or> length rounds' < length rounds"
proof -
  have "length rounds' \<le> length rounds" if "run_loop c rounds self = Some (rounds', self')" for rounds self
    using that by (induction c rounds self rule: run_loop.induct) (auto split: if_splits option.splits)
  with assms show ?thesis
    by (cases rounds) (fastforce split: if_splits option.splits simp: less_Suc_eq_le)+
qed

lemma run_unsuspended_ends:
  "buffers_ok self \<Longrightarrow> \<exists>tr rounds' self'. run_unsuspended c rounds self = Some (tr, rounds', self') \<and> buffers_ok self' \<and>
     tr \<noteq> ZT2_RESULT_SUSPENDED"
proof (induction "length rounds" arbitrary: rounds self rule: less_induct)
  case less
  let ?s = "z_transfer2_update_status ZT2S_SUSPENDED False
    (z_transfer2_update_status ZT2S_STARTED True (z_transfer2_update_cond self))"
  obtain tr rounds' self' where run: "z_transfer2_run_method c rounds self = Some (tr, rounds', self')" "buffers_ok self'"
    using run_method_ok [OF less.prems] by blast
  then have loop: "run_loop c rounds ?s = Some (rounds', self')" and tr: "tr = run_result self'"
    by (auto simp: z_transfer2_run_method_def)
  have "length rounds' < length rounds" if "tr = ZT2_RESULT_SUSPENDED"
  proof -
    have "\<not> z_transfer2_get_status ?s ZT2S_SUSPENDED"
      by (simp add: z_transfer2_get_status_def z_transfer2_update_status_def and.assoc)
    moreover have "z_transfer2_get_status self' ZT2S_SUSPENDED"
      using that tr by (auto simp: run_result_def split: if_splits)
    ultimately show ?thesis using run_loop_consumes [OF loop] by auto
  qed
  with less.hyps [of rounds' self'] run show ?case
    by (cases "tr = ZT2_RESULT_SUSPENDED") (auto simp: run_unsuspended.simps [of c rounds])
qed

lemma start_ok:
  assumes "0 < t_buffer_size self" and "z_transfer2_start c self = (True, self')"
  shows "buffers_ok self'"
proof -
  let ?s = "snd (stack_proxy c self)"
  let ?b = "z_transfer2_buffer_init (t_buffer_size ?s)"
  let ?m = "?s\<lparr>t_buffers := (if t_stacked ?s then (\<lambda>_. ?b) else (t_buffers ?s)(EP_CLIENT := ?b))\<rparr>"
  let ?c = "set_conds (\<lambda>ep. ep = ZT2E_SOURCE \<or> t_stacked ?s \<and> ep = ZT2E_DOWN_DEST \<or> t_cond_in ?m ep) (t_cond_out ?m) ?m"
  have "self' = snd (setup_transfer c ?c)"
    using assms(2) by (simp add: z_transfer2_start_def case_prod_unfold Let_def split: if_splits)
  with setup_law [of ?c] have "zt2_frame ?c self'" by simp
  moreover have "buffers_ok ?c"
    using assms(1) stack_law [of self] by (simp add: buffers_ok_def buffer_ok_def set_conds_def z_transfer2_buffer_init_def)
  ultimately show ?thesis by (simp add: zt2_frame_def buffers_ok_def)
qed

lemma rollback_ends:
  assumes "buffers_ok self"
  shows "\<exists>rounds' self'. z_transfer2_rollback c rounds self = Some (rounds', self')"
proof -
  have "buffers_ok (z_transfer2_update_status ZT2S_COPYING_TAIL True self)"
    using assms zt2_frame_status [of self] by (simp add: zt2_frame_def buffers_ok_def)
  from run_unsuspended_ends [OF this, of rounds] show ?thesis by (auto simp: z_transfer2_rollback_def)
qed

lemma simple_run_ends:
  assumes "0 < t_buffer_size self"
  shows "\<exists>ok self'. z_transfer2_simple_run c rounds self = Some (ok, self')"
proof (cases "fst (z_transfer2_start c self)")
  case False
  then show ?thesis by (auto simp: z_transfer2_simple_run_def case_prod_unfold)
next
  case True
  then obtain self1 where start: "z_transfer2_start c self = (True, self1)" by (cases "z_transfer2_start c self") auto
  obtain tr rounds' self2 where run: "run_unsuspended c rounds self1 = Some (tr, rounds', self2)" "buffers_ok self2"
    using run_unsuspended_ends [OF start_ok [OF assms start]] by blast
  from rollback_ends [OF run(2), of rounds'] start run(1) show ?thesis
    by (auto simp: z_transfer2_simple_run_def)
qed

end

end
