(* ===== verification/DotTransfer.thy ===== *)
theory DotTransfer
  imports Transfer2
begin

text \<open>
  The transfer class of \<^verbatim>\<open>libproxy/dottransfer.cc\<close>, used for mail: the source sends lines, a line
  that starts with a dot has one more dot in front, and a dot on a line of its own ends the data.
  Reading removes the dots, writing puts them back. The reference is the byte function \<open>stuff\<close>.
\<close>

section \<open>State\<close>

datatype dot_dw = DOT_DW_PREAMBLE | DOT_DW_DATA | DOT_DW_DATA_LF | DOT_DW_DATA_DOT

record ZDotTransfer = ZTransfer2 +
  previous_line_split :: bool
  preamble :: bytes
  preamble_ofs :: nat
  dst_write_state :: dot_dw

abbreviation DOT :: byte where "DOT \<equiv> 46"
abbreviation CR :: byte where "CR \<equiv> 13"
abbreviation LF :: byte where "LF \<equiv> 10"

section \<open>Reading\<close>

definition z_dot_transfer_src_read ::
  "nat \<Rightarrow> 'a ZDotTransfer_scheme \<Rightarrow> (giostatus \<times> bytes) \<times> 'a ZDotTransfer_scheme" where
  "z_dot_transfer_src_read count self =
     (if count < 2 then ((G_IO_STATUS_AGAIN, []), self)
      else case z_stream_read ZT2E_SOURCE (count - 2) self of
        ((res, line), self1) \<Rightarrow>
          (case res of
             G_IO_STATUS_NORMAL \<Rightarrow>
               if \<not> previous_line_split self1 \<and> line \<noteq> [] \<and> hd line = DOT then
                 (if length line = 1 then ((G_IO_STATUS_EOF, []), self1)
                  else ((G_IO_STATUS_NORMAL, tl line @ [CR, LF]), self1\<lparr>previous_line_split := False\<rparr>))
               else ((G_IO_STATUS_NORMAL, line @ [CR, LF]), self1\<lparr>previous_line_split := False\<rparr>)
           | G_IO_STATUS_AGAIN \<Rightarrow>
               if line \<noteq> [] then ((G_IO_STATUS_NORMAL, line), self1\<lparr>previous_line_split := True\<rparr>)
               else ((G_IO_STATUS_AGAIN, []), self1)
           | G_IO_STATUS_EOF \<Rightarrow> ((G_IO_STATUS_ERROR, []), self1)
           | G_IO_STATUS_ERROR \<Rightarrow> ((G_IO_STATUS_ERROR, []), self1)))"

section \<open>Writing\<close>

definition z_dot_transfer_dst_write_preamble :: "'a ZDotTransfer_scheme \<Rightarrow> giostatus \<times> 'a ZDotTransfer_scheme" where
  "z_dot_transfer_dst_write_preamble self =
     (case z_stream_write ZT2E_DEST (drop (preamble_ofs self) (preamble self)) self of
        ((res, bw), self1) \<Rightarrow>
          if res = G_IO_STATUS_NORMAL then
            (let self2 = self1\<lparr>preamble_ofs := preamble_ofs self1 + bw\<rparr>
             in (if preamble_ofs self2 \<noteq> length (preamble self2) then G_IO_STATUS_AGAIN else res, self2))
          else (res, self1))"

text \<open>The scan for the first dot to escape, and whether it ends behind a newline. A newline directly
  after a newline is taken for an ordinary byte, as in the code.\<close>

fun find_dot :: "bool \<Rightarrow> bytes \<Rightarrow> nat option \<times> bool" where
  "find_dot lf [] = (None, lf)"
| "find_dot lf (b # bs) =
     (if lf \<and> b = DOT then (Some 0, True)
      else case find_dot (\<not> lf \<and> b = LF) bs of (k, lf') \<Rightarrow> (map_option Suc k, lf'))"

lemma find_dot_bound: "find_dot lf bs = (Some k, lf') \<Longrightarrow> k < length bs"
  by (induction lf bs arbitrary: k lf' rule: find_dot.induct) (auto split: if_splits prod.splits)

lemma find_dot_first: "find_dot lf bs = (Some 0, lf') \<Longrightarrow> lf"
  by (cases bs) (auto split: if_splits prod.splits)

text \<open>The data and the dot state of the C code, which jump to each other.\<close>

function dot_data_state ::
  "bytes \<Rightarrow> nat \<Rightarrow> 'a ZDotTransfer_scheme \<Rightarrow> (giostatus \<times> nat) \<times> 'a ZDotTransfer_scheme" where
  "dot_data_state buf written self =
     (case find_dot (dst_write_state self = DOT_DW_DATA_LF) (drop written buf) of
        (None, lf) \<Rightarrow>
          (case z_stream_write ZT2E_DEST (drop written buf)
                  (self\<lparr>dst_write_state := if lf then DOT_DW_DATA_LF else DOT_DW_DATA\<rparr>) of
             ((res, bw), self1) \<Rightarrow> ((res, written + bw), self1))
      | (Some k, _) \<Rightarrow>
          (case z_stream_write ZT2E_DEST (take k (drop written buf)) self of
             ((res, bw), self1) \<Rightarrow>
               if res = G_IO_STATUS_NORMAL \<and> written + k = bw then
                 (case z_stream_write ZT2E_DEST [DOT] (self1\<lparr>dst_write_state := DOT_DW_DATA_DOT\<rparr>) of
                    ((res', bw'), self2) \<Rightarrow>
                      if res' = G_IO_STATUS_NORMAL \<and> bw' = 1
                      then dot_data_state buf (written + bw) (self2\<lparr>dst_write_state := DOT_DW_DATA\<rparr>)
                      else ((res', written + bw), self2))
               else ((res, written + bw), self1\<lparr>dst_write_state := DOT_DW_DATA\<rparr>)))"
  by pat_completeness auto
termination
proof (relation "measure (\<lambda>(buf, written, self).
    2 * (length buf - written) + (if dst_write_state self = DOT_DW_DATA_LF then 1 else 0))", goal_cases)
  case (2 buf written self kl lf k w self1 res bw)
  then have find: "find_dot (dst_write_state self = DOT_DW_DATA_LF) (drop written buf) = (Some k, lf)"
    and wr: "z_stream_write ZT2E_DEST (take k (drop written buf)) self = ((res, bw), self1)"
    and bw: "written + k = bw"
    by simp_all
  have "k < length (drop written buf)" "k = 0 \<longrightarrow> dst_write_state self = DOT_DW_DATA_LF"
    using find_dot_bound [OF find] find_dot_first [of _ "drop written buf" lf] find by auto
  moreover have "bw \<le> k" using stream_bounds(2) [OF wr] by simp
  ultimately show ?case using bw by auto
qed simp

declare dot_data_state.simps [simp del]

definition z_dot_transfer_dst_write ::
  "bytes \<Rightarrow> 'a ZDotTransfer_scheme \<Rightarrow> (giostatus \<times> nat) \<times> 'a ZDotTransfer_scheme" where
  "z_dot_transfer_dst_write buf self =
     (case dst_write_state self of
        DOT_DW_PREAMBLE \<Rightarrow>
          (case z_dot_transfer_dst_write_preamble self of
             (res, self1) \<Rightarrow>
               if res \<noteq> G_IO_STATUS_NORMAL then ((res, 0), self1)
               else dot_data_state buf 0 (self1\<lparr>dst_write_state := DOT_DW_DATA_LF\<rparr>))
      | DOT_DW_DATA_DOT \<Rightarrow>
          (case z_stream_write ZT2E_DEST [DOT] self of
             ((res, bw), self1) \<Rightarrow>
               if res = G_IO_STATUS_NORMAL \<and> bw = 1
               then dot_data_state buf 0 (self1\<lparr>dst_write_state := DOT_DW_DATA\<rparr>) else ((res, 0), self1))
      | _ \<Rightarrow> dot_data_state buf 0 self)"

definition z_dot_transfer_dst_shutdown :: "'a ZDotTransfer_scheme \<Rightarrow> 'a ZDotTransfer_scheme" where
  "z_dot_transfer_dst_shutdown self =
     (if dst_write_state self = DOT_DW_DATA \<and> t_status self AND (ZT2S_FAILED + ZT2S_TIMEDOUT + ZT2S_ABORTED) = 0
      then snd (z_stream_write ZT2E_DEST [CR, LF] self) else self)"

definition z_dot_transfer_funcs :: "'a ZDotTransfer_scheme ZTransfer2Funcs" where
  "z_dot_transfer_funcs = \<lparr>src_read = z_dot_transfer_src_read, dst_write = z_dot_transfer_dst_write,
     src_shutdown = (\<lambda>self. self), dst_shutdown = z_dot_transfer_dst_shutdown,
     stack_proxy = (\<lambda>self. (True, self)), setup_transfer = (\<lambda>self. (True, self)), progress = (\<lambda>self. (True, self))\<rparr>"


section \<open>The class\<close>

lemma dot_data_state_bounds:
  "dot_data_state buf written self = ((res, n), self') \<Longrightarrow> written \<le> length buf \<Longrightarrow> n \<le> length buf \<and> zt2_frame self self'"
proof (induction buf written self arbitrary: res n self' rule: dot_data_state.induct)
  case (1 buf written self)
  have state: "zt2_frame s (s\<lparr>dst_write_state := d\<rparr>)" for s :: "'a ZDotTransfer_scheme" and d
    by (simp add: zt2_frame_def)
  obtain kk lf where find: "find_dot (dst_write_state self = DOT_DW_DATA_LF) (drop written buf) = (kk, lf)" by fastforce
  show ?case
  proof (cases kk)
    case None
    obtain w self1 where w: "z_stream_write ZT2E_DEST (drop written buf)
        (self\<lparr>dst_write_state := if lf then DOT_DW_DATA_LF else DOT_DW_DATA\<rparr>) = (w, self1)" by fastforce
    then show ?thesis
      using 1(2,3) find None stream_bounds(2) [of ZT2E_DEST "drop written buf"
          "self\<lparr>dst_write_state := if lf then DOT_DW_DATA_LF else DOT_DW_DATA\<rparr>" "fst w" "snd w" self1]
        zt2_frame_trans [OF state zt2_frame_streams(2) [OF w]]
      by (cases w) (auto simp: dot_data_state.simps [of buf written self])
  next
    case (Some k)
    obtain res1 bw self1 where w: "z_stream_write ZT2E_DEST (take k (drop written buf)) self = ((res1, bw), self1)"
      by (metis surj_pair)
    have bw: "bw \<le> k" using stream_bounds(2) [OF w] by simp
    have k: "k < length (drop written buf)" using find_dot_bound find Some by blast
    obtain res2 bw2 self2 where w2: "z_stream_write ZT2E_DEST [DOT] (self1\<lparr>dst_write_state := DOT_DW_DATA_DOT\<rparr>) =
        ((res2, bw2), self2)" by (metis surj_pair)
    have f1: "zt2_frame self self1" by (rule zt2_frame_streams(2) [OF w])
    have f2: "zt2_frame self self2" using f1 zt2_frame_trans [OF state zt2_frame_streams(2) [OF w2]] zt2_frame_trans by blast
    note step = 1(2) [unfolded dot_data_state.simps [of buf written self] find Some option.case prod.case w w2]
    consider (loop) "res1 = G_IO_STATUS_NORMAL \<and> written + k = bw \<and> res2 = G_IO_STATUS_NORMAL \<and> bw2 = 1"
      | (stop) "\<not> (res1 = G_IO_STATUS_NORMAL \<and> written + k = bw \<and> res2 = G_IO_STATUS_NORMAL \<and> bw2 = 1)" by blast
    then show ?thesis
    proof cases
      case loop
      have "n \<le> length buf \<and> zt2_frame (self2\<lparr>dst_write_state := DOT_DW_DATA\<rparr>) self'"
        using 1 find Some w w2 loop step bw k by simp
      then show ?thesis using f2 state zt2_frame_trans by blast
    next
      case stop
      then show ?thesis
        using step f1 f2 bw k zt2_frame_trans [OF f1 state] by (auto split: if_splits)
    qed
  qed
qed


lemma dot_write_bounds:
  assumes "z_dot_transfer_dst_write buf self = ((res, n), self')"
  shows "n \<le> length buf \<and> zt2_frame self self'"
proof (cases "dst_write_state self")
  case DOT_DW_PREAMBLE
  obtain w self1 where w: "z_stream_write ZT2E_DEST (drop (preamble_ofs self) (preamble self)) self = (w, self1)" by fastforce
  have f: "zt2_frame self self1" by (rule zt2_frame_streams(2) [OF w])
  have "zt2_frame s (s\<lparr>preamble_ofs := m, dst_write_state := d\<rparr>)" "zt2_frame s (s\<lparr>preamble_ofs := m\<rparr>)"
    for s :: "'a ZDotTransfer_scheme" and m d
    by (simp_all add: zt2_frame_def)
  note state = this
  show ?thesis
    using assms DOT_DW_PREAMBLE w f zt2_frame_trans [OF f state(2)]
    by (auto simp: z_dot_transfer_dst_write_def z_dot_transfer_dst_write_preamble_def Let_def split: if_splits prod.splits
        dest!: dot_data_state_bounds intro: zt2_frame_trans [OF zt2_frame_trans [OF f state(1)]])
next
  case DOT_DW_DATA_DOT
  obtain w self1 where w: "z_stream_write ZT2E_DEST [DOT] self = (w, self1)" by fastforce
  have f: "zt2_frame self self1" by (rule zt2_frame_streams(2) [OF w])
  have state: "zt2_frame self1 (self1\<lparr>dst_write_state := DOT_DW_DATA\<rparr>)" by (simp add: zt2_frame_def)
  show ?thesis
    using assms DOT_DW_DATA_DOT w f
    by (auto simp: z_dot_transfer_dst_write_def split: if_splits prod.splits dest!: dot_data_state_bounds
        intro: zt2_frame_trans [OF zt2_frame_trans [OF f state]])
qed (use assms dot_data_state_bounds in \<open>force simp: z_dot_transfer_dst_write_def\<close>)+

lemma dot_read_bounds:
  assumes "z_dot_transfer_src_read count self = ((res, bs), self')"
  shows "length bs \<le> count \<and> zt2_frame self self'"
proof -
  obtain r line self1 where r: "z_stream_read ZT2E_SOURCE (count - 2) self = ((r, line), self1)" by (metis surj_pair)
  from stream_bounds(1) [OF r] zt2_frame_streams(1) [OF r] show ?thesis
    using assms r by (auto simp: z_dot_transfer_src_read_def zt2_frame_def split: if_splits giostatus.splits)
qed

interpretation dot: transfer_class z_dot_transfer_funcs
proof unfold_locales
  show "zt2_frame self (dst_shutdown z_dot_transfer_funcs self)" for self :: "'a ZDotTransfer_scheme"
    using zt2_frame_streams(2) [of ZT2E_DEST "[CR, LF]" self "fst (z_stream_write ZT2E_DEST [CR, LF] self)"]
    by (auto simp: z_dot_transfer_funcs_def z_dot_transfer_dst_shutdown_def)
qed (auto simp: z_dot_transfer_funcs_def dest: dot_read_bounds dot_write_bounds)

section \<open>Dots\<close>

text \<open>The reference: a dot behind a newline is doubled.\<close>

fun stuff :: "bool \<Rightarrow> bytes \<Rightarrow> bytes" where
  "stuff lf [] = []"
| "stuff lf (b # bs) = (if lf \<and> b = DOT then [DOT, DOT] else [b]) @ stuff (b = LF) bs"

text \<open>A text as lines, and a line as the source sends it.\<close>

definition content :: "bytes list \<Rightarrow> bytes" where
  "content lines = concat (map (\<lambda>l. l @ [CR, LF]) lines)"

definition dotted :: "bytes \<Rightarrow> bool" where
  "dotted l \<longleftrightarrow> l \<noteq> [] \<and> hd l = DOT"

definition wire :: "bytes \<Rightarrow> bytes" where
  "wire l = (if dotted l then DOT # l else l)"

abbreviation line_ok :: "bytes \<Rightarrow> bool" where
  "line_ok l \<equiv> LF \<notin> set l"

text \<open>Where a scan ends, moved to a text in front of which \<open>n\<close> bytes stand.\<close>

definition shift :: "nat \<Rightarrow> nat option \<times> bool \<Rightarrow> nat option \<times> bool" where
  "shift n = map_prod (map_option ((+) n)) id"

lemma shift_simps [simp]: "shift 0 p = p" "shift m (shift n p) = shift (m + n) p"
  "shift n (None, lf) = (None, lf)" "shift n (Some k, lf) = (Some (n + k), lf)"
  by (cases p; cases "fst p"; simp add: shift_def)+

lemma find_dot_step: "find_dot lf (b # bs) = (if lf \<and> b = DOT then (Some 0, True) else shift 1 (find_dot (\<not> lf \<and> b = LF) bs))"
  by (cases "find_dot (\<not> lf \<and> b = LF) bs"; cases "fst (find_dot (\<not> lf \<and> b = LF) bs)") auto

lemma find_dot_inside: "line_ok l \<Longrightarrow> find_dot False (l @ [CR, LF] @ bs) = shift (length l + 2) (find_dot True bs)"
  by (induction l) (simp_all add: find_dot_step del: find_dot.simps)

lemma find_dot_line:
  "line_ok l \<Longrightarrow> \<not> dotted l \<Longrightarrow> find_dot True (l @ [CR, LF] @ bs) = shift (length l + 2) (find_dot True bs)"
  using find_dot_inside [of "tl l" bs] by (cases l) (simp_all add: find_dot_step dotted_def del: find_dot.simps)

lemma find_dot_plain:
  "list_all line_ok ls \<Longrightarrow> list_all (\<lambda>l. \<not> dotted l) ls \<Longrightarrow>
   find_dot True (content ls @ bs) = shift (length (content ls)) (find_dot True bs)"
proof (induction ls)
  case (Cons l ls)
  then show ?case using find_dot_line [of l "content ls @ bs"] by (simp add: content_def add.assoc)
qed (simp add: content_def)

lemma stuff_inside: "line_ok l \<Longrightarrow> stuff False (l @ [CR, LF] @ bs) = l @ [CR, LF] @ stuff True bs"
  by (induction l) auto

lemma stuff_line: "line_ok l \<Longrightarrow> stuff True (l @ [CR, LF] @ bs) = (if dotted l then [DOT] else []) @ l @ [CR, LF] @ stuff True bs"
  by (cases l) (use stuff_inside in \<open>auto simp: dotted_def\<close>)

lemma stuff_content:
  "list_all line_ok ls \<Longrightarrow> stuff True (content ls) = content (map wire ls)"
proof (induction ls)
  case (Cons l ls)
  then show ?case using stuff_line [of l "content ls"] by (auto simp: content_def wire_def)
qed (simp add: content_def)


section \<open>Writing a chunk\<close>

text \<open>The destination takes everything: what writing then does to the state.\<close>

definition emit :: "bytes \<Rightarrow> 'a ZTransfer2_scheme \<Rightarrow> 'a ZTransfer2_scheme" where
  "emit bs self = self\<lparr>t_sent := (t_sent self)(ZT2E_DEST := t_sent self ZT2E_DEST @ bs)\<rparr>"

lemma open_write:
  "t_writes self ZT2E_DEST = [] \<Longrightarrow> z_stream_write ZT2E_DEST bs self = ((G_IO_STATUS_NORMAL, length bs), emit bs self)"
  by (cases self) (simp add: z_stream_write_def emit_def fun_upd_idem)

lemma emit_simps [simp]:
  "t_writes (emit bs self) = t_writes self" "t_status (emit bs self) = t_status self"
  "t_buffers (emit bs self) = t_buffers self" "t_reads (emit bs self) = t_reads self"
  "t_stacked (emit bs self) = t_stacked self" "t_flags (emit bs self) = t_flags self"
  "t_sent (emit bs self) ZT2E_DEST = t_sent self ZT2E_DEST @ bs"
  "emit bs (emit as self) = emit (as @ bs) self"
  by (simp_all add: emit_def)

lemma emit_dot_simps [simp]:
  fixes dt :: "'a ZDotTransfer_scheme"
  shows "dst_write_state (emit bs dt) = dst_write_state dt" "previous_line_split (emit bs dt) = previous_line_split dt"
    "preamble (emit bs dt) = preamble dt" "preamble_ofs (emit bs dt) = preamble_ofs dt"
    "(emit bs dt)\<lparr>dst_write_state := d\<rparr> = emit bs (dt\<lparr>dst_write_state := d\<rparr>)"
    "(emit bs dt)\<lparr>preamble_ofs := n\<rparr> = emit bs (dt\<lparr>preamble_ofs := n\<rparr>)"
  by (simp_all add: emit_def)

lemma same_state: "dst_write_state dt = d \<Longrightarrow> dt\<lparr>dst_write_state := d\<rparr> = dt"
  by (cases dt) simp

lemma content_simps [simp]:
  "content [] = []" "content (l # ls) = l @ [CR, LF] @ content ls" "content (as @ bs) = content as @ content bs"
  by (simp_all add: content_def)

lemma one_dotted:
  assumes "length (filter dotted ls) \<le> 1"
  obtains "list_all (\<lambda>l. \<not> dotted l) ls"
  | as l bs where "ls = as @ l # bs" "dotted l" "list_all (\<lambda>l. \<not> dotted l) as" "list_all (\<lambda>l. \<not> dotted l) bs"
proof (cases "list_all (\<lambda>l. \<not> dotted l) ls")
  case False
  then obtain l where "l \<in> set ls" "dotted l" by (auto simp: list_all_iff)
  then obtain as bs where ls: "ls = as @ l # bs" by (auto dest: split_list)
  with assms \<open>dotted l\<close> have "filter dotted as = [] \<and> filter dotted bs = []" by simp
  with ls \<open>dotted l\<close> that(2) show ?thesis by (auto simp: filter_empty_conv list_all_iff)
qed (use that(1) in blast)

lemma find_dot_dotted: "dotted l \<Longrightarrow> find_dot True (l @ bs) = (Some 0, True)"
  by (cases l) (auto simp: dotted_def)

lemma wire_plain: "list_all (\<lambda>l. \<not> dotted l) ls \<Longrightarrow> map wire ls = ls"
  by (induction ls) (auto simp: wire_def)

lemma dot_data_plain:
  assumes "t_writes dt ZT2E_DEST = []" and "list_all line_ok ls" and "list_all (\<lambda>l. \<not> dotted l) ls"
    and "dst_write_state dt = DOT_DW_DATA_LF"
  shows "dot_data_state (pre @ content ls) (length pre) dt = ((G_IO_STATUS_NORMAL, length (pre @ content ls)), emit (content ls) dt)"
  using assms find_dot_plain [OF assms(2,3), of "[]"]
  by (simp add: dot_data_state.simps [of _ _ dt] open_write same_state)

lemma dot_data_after_dot:
  assumes "t_writes dt ZT2E_DEST = []" and "line_ok l" and "list_all line_ok ls" and "list_all (\<lambda>l. \<not> dotted l) ls"
    and "dst_write_state dt = DOT_DW_DATA"
  shows "dot_data_state (pre @ content (l # ls)) (length pre) dt =
    ((G_IO_STATUS_NORMAL, length (pre @ content (l # ls))), emit (content (l # ls)) (dt\<lparr>dst_write_state := DOT_DW_DATA_LF\<rparr>))"
  using assms find_dot_inside [OF assms(2), of "content ls"] find_dot_plain [OF assms(3,4), of "[]"]
  by (simp add: dot_data_state.simps [of _ _ dt] open_write)

lemma dot_write_chunk:
  assumes "t_writes dt ZT2E_DEST = []" and "list_all line_ok ls" and "length (filter dotted ls) \<le> 1"
    and "dst_write_state dt = DOT_DW_DATA_LF"
  shows "dot_data_state (content ls) 0 dt = ((G_IO_STATUS_NORMAL, length (content ls)), emit (content (map wire ls)) dt)"
  using assms(3)
proof (cases rule: one_dotted)
  case 1
  then show ?thesis using dot_data_plain [OF assms(1,2) 1 assms(4), of "[]"] by (simp add: wire_plain)
next
  case (2 as l bs)
  let ?n = "length (content as)"
  let ?dt = "emit (content as @ [DOT]) (dt\<lparr>dst_write_state := DOT_DW_DATA\<rparr>)"
  have find: "find_dot True (content ls) = (Some ?n, True)"
    using find_dot_plain [of as "content (l # bs)"] find_dot_dotted [OF 2(2), of "[CR, LF] @ content bs"] assms(2) 2 by simp
  have "dot_data_state (content ls) 0 dt = dot_data_state (content ls) ?n ?dt"
    using assms(1,4) find 2(1) by (simp add: dot_data_state.simps [of _ 0 dt] open_write)
  also have "\<dots> = ((G_IO_STATUS_NORMAL, length (content ls)),
      emit (content (l # bs)) (?dt\<lparr>dst_write_state := DOT_DW_DATA_LF\<rparr>))"
    using dot_data_after_dot [of ?dt l bs "content as"] assms(1,2) 2 by simp
  finally show ?thesis
    using 2 assms(4) by (simp add: wire_plain wire_def same_state)
qed


text \<open>A second dotted line in the same buffer loses its escape: the first call stops in front of it
  and forgets that a line begins there, so the next call writes it as it is.\<close>

lemma dot_write_two_dotted:
  assumes "t_writes dt ZT2E_DEST = []" and "list_all line_ok (as @ l # bs @ m # cs)" and "as \<noteq> []"
    and "dotted l" and "dotted m" and "list_all (\<lambda>l. \<not> dotted l) (as @ bs @ cs)" and "dst_write_state dt = DOT_DW_DATA_LF"
  shows "dot_data_state (content (as @ l # bs @ m # cs)) 0 dt =
      ((G_IO_STATUS_NORMAL, length (content (as @ l # bs))),
       emit (content (map wire (as @ l # bs))) (dt\<lparr>dst_write_state := DOT_DW_DATA\<rparr>))"
    and "dot_data_state (content (m # cs)) 0 (emit out (dt\<lparr>dst_write_state := DOT_DW_DATA\<rparr>)) =
      ((G_IO_STATUS_NORMAL, length (content (m # cs))), emit (out @ content (m # cs)) dt)"
proof -
  let ?n = "length (content as)"
  let ?dt = "emit (content as @ [DOT]) (dt\<lparr>dst_write_state := DOT_DW_DATA\<rparr>)"
  have n: "?n > 0" using assms(3) by (cases as) auto
  have find: "find_dot True (content (as @ l # bs @ m # cs)) = (Some ?n, True)"
    using find_dot_plain [of as "content (l # bs @ m # cs)"]
      find_dot_dotted [OF assms(4), of "[CR, LF] @ content (bs @ m # cs)"] assms(2,6) by simp
  have find2: "find_dot False (content (l # bs @ m # cs)) = (Some (length (content (l # bs))), True)"
    using find_dot_inside [of l "content (bs @ m # cs)"] find_dot_plain [of bs "content (m # cs)"]
      find_dot_dotted [OF assms(5), of "[CR, LF] @ content cs"] assms(2,6) by simp
  have "dot_data_state (content (as @ l # bs @ m # cs)) 0 dt = dot_data_state (content (as @ l # bs @ m # cs)) ?n ?dt"
    using assms(1,7) find by (simp add: dot_data_state.simps [of _ 0 dt] open_write)
  also have "\<dots> = ((G_IO_STATUS_NORMAL, length (content (as @ l # bs))),
      emit (content (map wire (as @ l # bs))) (dt\<lparr>dst_write_state := DOT_DW_DATA\<rparr>))"
    using assms(1,4,6) find2 n by (simp add: dot_data_state.simps [of _ _ ?dt] open_write wire_plain wire_def)
  finally show "dot_data_state (content (as @ l # bs @ m # cs)) 0 dt =
      ((G_IO_STATUS_NORMAL, length (content (as @ l # bs))),
       emit (content (map wire (as @ l # bs))) (dt\<lparr>dst_write_state := DOT_DW_DATA\<rparr>))" .
  show "dot_data_state (content (m # cs)) 0 (emit out (dt\<lparr>dst_write_state := DOT_DW_DATA\<rparr>)) =
      ((G_IO_STATUS_NORMAL, length (content (m # cs))), emit (out @ content (m # cs)) dt)"
    using dot_data_after_dot [of "emit out (dt\<lparr>dst_write_state := DOT_DW_DATA\<rparr>)" m cs "[]"] assms
    by (simp add: same_state)
qed

section \<open>A whole transfer\<close>

definition z_dot_transfer_new ::
  "read_answers \<Rightarrow> write_answers \<Rightarrow> nat \<Rightarrow> 32 word \<Rightarrow> bytes \<Rightarrow> ZDotTransfer" where
  "z_dot_transfer_new reads writes buffer_size flags pre = \<lparr>
     t_buffers = (\<lambda>_. z_transfer2_buffer_init 0), t_buffer_size = buffer_size,
     t_flags = ZT2F_COMPLETE_COPY OR flags, t_stacked = False, t_status = 0, t_suspend_reason = 0,
     t_stack_decision = ZV_ACCEPT, t_stack_info = [], t_cond_in = (\<lambda>_. False), t_cond_out = (\<lambda>_. False),
     t_reads = (\<lambda>_. [])(ZT2E_SOURCE := reads), t_writes = (\<lambda>_. [])(ZT2E_DEST := writes),
     t_sent = (\<lambda>_. []), t_shut = (\<lambda>_. False),
     previous_line_split = False, preamble = pre, preamble_ofs = 0, dst_write_state = DOT_DW_PREAMBLE\<rparr>"

text \<open>Lines arriving in chunks, and the closing dot.\<close>

definition arriving :: "bytes list \<Rightarrow> read_answers" where
  "arriving lines = map (\<lambda>l. (G_IO_STATUS_NORMAL, wire l)) lines"

definition arrivals :: "bytes list list \<Rightarrow> bytes list \<Rightarrow> read_answers" where
  "arrivals chunks final =
     concat (map (\<lambda>ch. arriving ch @ [(G_IO_STATUS_AGAIN, [])]) chunks) @ arriving final @ [(G_IO_STATUS_NORMAL, [DOT])]"

definition chunk_ok :: "nat \<Rightarrow> bytes list \<Rightarrow> bool" where
  "chunk_ok room ch \<longleftrightarrow> list_all line_ok ch \<and> length (filter dotted ch) \<le> 1 \<and> length ch < MAX_READ_AT_A_TIME \<and>
     length (content ch) + 3 \<le> room"

definition started :: "bool \<Rightarrow> 32 word" where
  "started soft = (if soft then ZT2S_STARTED OR ZT2S_SOFT_EOF_SOURCE else ZT2S_STARTED)"

text \<open>A transfer in which \<open>D\<close> waits in the buffer and \<open>rest\<close> is still to be read.\<close>

definition flowing :: "bool \<Rightarrow> nat \<Rightarrow> bytes \<Rightarrow> read_answers \<Rightarrow> ZDotTransfer \<Rightarrow> bool" where
  "flowing soft room D rest dt \<longleftrightarrow>
     t_buffers dt EP_CLIENT = \<lparr>tb_data = D, tb_ofs = 0, tb_size = room\<rparr> \<and> t_writes dt ZT2E_DEST = [] \<and>
     t_reads dt ZT2E_SOURCE = rest \<and> t_status dt = started soft \<and> \<not> t_stacked dt \<and> \<not> previous_line_split dt \<and>
     (dst_write_state dt = DOT_DW_PREAMBLE \<and> preamble_ofs dt = 0 \<and> t_sent dt ZT2E_DEST = [] \<or> dst_write_state dt = DOT_DW_DATA_LF)"

definition pre_of :: "ZDotTransfer \<Rightarrow> bytes" where
  "pre_of dt = (if dst_write_state dt = DOT_DW_PREAMBLE then preamble dt else [])"

definition feed :: "bytes list \<Rightarrow> read_answers \<Rightarrow> ZDotTransfer \<Rightarrow> ZDotTransfer" where
  "feed ch rest dt = dt\<lparr>t_buffers := (t_buffers dt)(EP_CLIENT := (t_buffers dt EP_CLIENT)\<lparr>
       tb_data := tb_data (t_buffers dt EP_CLIENT) @ content ch\<rparr>), t_reads := (t_reads dt)(ZT2E_SOURCE := rest)\<rparr>"

lemma dot_read_line:
  assumes "t_reads dt ZT2E_SOURCE = (G_IO_STATUS_NORMAL, wire l) # rest" and "\<not> previous_line_split dt" and "length l + 3 \<le> n"
  shows "z_dot_transfer_src_read n dt = ((G_IO_STATUS_NORMAL, l @ [CR, LF]), dt\<lparr>t_reads := (t_reads dt)(ZT2E_SOURCE := rest)\<rparr>)"
proof -
  have "dt\<lparr>t_reads := r, previous_line_split := False\<rparr> = dt\<lparr>t_reads := r\<rparr>" for r
    using assms(2) by (cases dt) simp
  with assms show ?thesis
    by (auto simp: z_dot_transfer_src_read_def z_stream_read_def wire_def dotted_def)
qed


lemma status_bits:
  "started soft AND ZT2S_SOFT_EOF_SOURCE = 0 \<longleftrightarrow> \<not> soft" "started soft AND ZT2S_COPYING_TAIL = 0"
  "started soft AND ZT2S_EOF_SOURCE = 0" "started soft AND ZT2S_EOF_DEST = 0" "started soft AND ZT2S_PROXY_OUT = 0"
  "started soft AND (ZT2S_FINISHED + ZT2S_SUSPENDED) = 0"
  by (simp_all add: started_def ZT2S_STARTED_def ZT2S_SOFT_EOF_SOURCE_def ZT2S_COPYING_TAIL_def ZT2S_EOF_SOURCE_def
      ZT2S_EOF_DEST_def ZT2S_PROXY_OUT_def ZT2S_FINISHED_def ZT2S_SUSPENDED_def)

lemma read_lines:
  assumes "t_buffers dt EP_CLIENT = \<lparr>tb_data = D, tb_ofs = n, tb_size = room\<rparr>" and "t_reads dt ZT2E_SOURCE = arriving ch @ rest"
    and "\<not> previous_line_split dt" and "t_status dt = started False" and "length D + length (content ch) + 3 \<le> room"
    and "pkt + length ch < MAX_READ_AT_A_TIME"
  shows "read_loop z_dot_transfer_funcs ZT2E_SOURCE pkt res dt =
    read_loop z_dot_transfer_funcs ZT2E_SOURCE (pkt + length ch) (if ch = [] then res else G_IO_STATUS_NORMAL) (feed ch rest dt)"
  using assms
proof (induction ch arbitrary: dt D pkt res)
  case Nil
  then have "feed [] rest dt = dt" by (cases dt) (simp add: feed_def arriving_def fun_upd_idem)
  then show ?case by simp
next
  case (Cons l ch)
  let ?dt = "feed [l] (arriving ch @ rest) dt"
  have src: "z_dot_transfer_src_read (room - length D) dt =
      ((G_IO_STATUS_NORMAL, l @ [CR, LF]), dt\<lparr>t_reads := (t_reads dt)(ZT2E_SOURCE := arriving ch @ rest)\<rparr>)"
    by (rule dot_read_line) (use Cons.prems in \<open>simp_all add: arriving_def\<close>)
  have "z_transfer2_read_source z_dot_transfer_funcs ZT2E_SOURCE dt = (G_IO_STATUS_NORMAL, ?dt)"
    using Cons.prems(1) src by (simp add: z_transfer2_read_source_def z_dot_transfer_funcs_def upd_buffer_def feed_def)
  then have "read_loop z_dot_transfer_funcs ZT2E_SOURCE pkt res dt =
      read_loop z_dot_transfer_funcs ZT2E_SOURCE (pkt + 1) G_IO_STATUS_NORMAL ?dt"
    using Cons.prems by (subst read_loop.simps)
      (simp add: z_transfer2_buffer_full_def z_transfer2_get_status_def soft_eof_def status_bits)
  also have "\<dots> = read_loop z_dot_transfer_funcs ZT2E_SOURCE (pkt + 1 + length ch) G_IO_STATUS_NORMAL (feed ch rest ?dt)"
    by (subst Cons.IH [of ?dt "D @ l @ [CR, LF]"]) (use Cons.prems in \<open>auto simp: feed_def arriving_def\<close>)
  also have "feed ch rest ?dt = feed (l # ch) rest dt" by (simp add: feed_def)
  finally show ?case by simp
qed

text \<open>One call of the copy loop: it writes what waits and reads the next chunk, or comes to the end.\<close>

lemma write_waiting:
  assumes "flowing soft room (content ch) rest dt" and "chunk_ok room ch" and "ch \<noteq> []"
  shows "\<exists>dt'. z_transfer2_write_dest z_dot_transfer_funcs ZT2E_DEST EP_CLIENT dt = (G_IO_STATUS_NORMAL, dt') \<and>
    t_buffers dt' EP_CLIENT = \<lparr>tb_data = content ch, tb_ofs = length (content ch), tb_size = room\<rparr> \<and>
    t_writes dt' ZT2E_DEST = [] \<and> t_reads dt' ZT2E_SOURCE = rest \<and> t_status dt' = started soft \<and> \<not> t_stacked dt' \<and>
    \<not> previous_line_split dt' \<and> dst_write_state dt' = DOT_DW_DATA_LF \<and>
    t_sent dt' ZT2E_DEST = t_sent dt ZT2E_DEST @ pre_of dt @ content (map wire ch)"
proof -
  have len: "content ch \<noteq> []" using assms(3) by (cases ch) auto
  define d where "d = (if dst_write_state dt = DOT_DW_PREAMBLE
    then emit (preamble dt) (dt\<lparr>preamble_ofs := length (preamble dt), dst_write_state := DOT_DW_DATA_LF\<rparr>) else dt)"
  have d: "t_writes d ZT2E_DEST = []" "dst_write_state d = DOT_DW_DATA_LF"
      "t_buffers d = t_buffers dt" "t_reads d = t_reads dt" "t_status d = t_status dt" "t_stacked d = t_stacked dt"
      "previous_line_split d = previous_line_split dt" "t_sent d ZT2E_DEST = t_sent dt ZT2E_DEST @ pre_of dt"
    using assms(1) by (auto simp: d_def flowing_def pre_of_def emit_def)
  have "z_dot_transfer_dst_write (content ch) dt = dot_data_state (content ch) 0 d"
    using assms(1) by (auto simp: z_dot_transfer_dst_write_def z_dot_transfer_dst_write_preamble_def flowing_def
        open_write Let_def d_def)
  also have "\<dots> = ((G_IO_STATUS_NORMAL, length (content ch)), emit (content (map wire ch)) d)"
    by (rule dot_write_chunk) (use assms(2) d in \<open>auto simp: chunk_ok_def\<close>)
  finally have w: "z_dot_transfer_dst_write (content ch) dt =
      ((G_IO_STATUS_NORMAL, length (content ch)), emit (content (map wire ch)) d)" .
  show ?thesis
    using assms(1) len w d
    by (auto simp: z_transfer2_write_dest_def z_transfer2_buffer_empty_def flowing_def z_dot_transfer_funcs_def upd_buffer_def)
qed


lemma copy_write_step:
  assumes "flowing soft room (content ch) rest dt" and "chunk_ok room ch"
  shows "\<exists>dt1. copy_write z_dot_transfer_funcs ZT2E_DEST EP_CLIENT dt = (False, G_IO_STATUS_NORMAL, dt1) \<and>
    flowing soft room [] rest (copy_reset EP_CLIENT dt1) \<and>
    t_sent (copy_reset EP_CLIENT dt1) ZT2E_DEST =
      t_sent dt ZT2E_DEST @ (if ch = [] then [] else pre_of dt @ content (map wire ch)) \<and>
    pre_of (copy_reset EP_CLIENT dt1) = (if ch = [] then pre_of dt else [])"
proof (cases "ch = []")
  case True
  then show ?thesis
    using assms(1) by (auto simp: copy_write_def z_transfer2_write_dest_def z_transfer2_buffer_empty_def flowing_def
        z_transfer2_get_status_def status_bits copy_reset_def upd_buffer_def pre_of_def)
next
  case False
  obtain dt1 where w: "z_transfer2_write_dest z_dot_transfer_funcs ZT2E_DEST EP_CLIENT dt = (G_IO_STATUS_NORMAL, dt1)"
    and dt1: "t_buffers dt1 EP_CLIENT = \<lparr>tb_data = content ch, tb_ofs = length (content ch), tb_size = room\<rparr>"
      "t_writes dt1 ZT2E_DEST = []" "t_reads dt1 ZT2E_SOURCE = rest" "t_status dt1 = started soft" "\<not> t_stacked dt1"
      "\<not> previous_line_split dt1" "dst_write_state dt1 = DOT_DW_DATA_LF"
      "t_sent dt1 ZT2E_DEST = t_sent dt ZT2E_DEST @ pre_of dt @ content (map wire ch)"
    using write_waiting [OF assms False] by blast
  have "t_status dt = started soft" using assms(1) by (simp add: flowing_def)
  with w dt1 have "copy_write z_dot_transfer_funcs ZT2E_DEST EP_CLIENT dt = (False, G_IO_STATUS_NORMAL, dt1)"
    by (simp add: copy_write_def z_transfer2_get_status_def status_bits z_transfer2_buffer_empty_def)
  with dt1 False show ?thesis
    by (simp add: flowing_def copy_reset_def upd_buffer_def pre_of_def z_transfer2_buffer_empty_def)
qed

lemma dot_read_again:
  "t_reads dt ZT2E_SOURCE = (G_IO_STATUS_AGAIN, []) # rest \<Longrightarrow> 2 \<le> n \<Longrightarrow>
   z_dot_transfer_src_read n dt = ((G_IO_STATUS_AGAIN, []), dt\<lparr>t_reads := (t_reads dt)(ZT2E_SOURCE := rest)\<rparr>)"
  by (simp add: z_dot_transfer_src_read_def z_stream_read_def)

lemma dot_read_end:
  "t_reads dt ZT2E_SOURCE = (G_IO_STATUS_NORMAL, [DOT]) # rest \<Longrightarrow> \<not> previous_line_split dt \<Longrightarrow> 3 \<le> n \<Longrightarrow>
   z_dot_transfer_src_read n dt = ((G_IO_STATUS_EOF, []), dt\<lparr>t_reads := (t_reads dt)(ZT2E_SOURCE := rest)\<rparr>)"
  by (simp add: z_dot_transfer_src_read_def z_stream_read_def)

lemma copy_step:
  assumes "flowing False room (content ch) (arriving ch' @ (G_IO_STATUS_AGAIN, []) # rest) dt" and "chunk_ok room ch"
    and "chunk_ok room ch'"
  shows "\<exists>dt'. z_transfer2_copy_data z_dot_transfer_funcs ZT2E_SOURCE ZT2E_DEST dt = Some (G_IO_STATUS_AGAIN, dt') \<and>
    flowing False room (content ch') rest dt' \<and>
    t_sent dt' ZT2E_DEST = t_sent dt ZT2E_DEST @ (if ch = [] then [] else pre_of dt @ content (map wire ch)) \<and>
    pre_of dt' = (if ch = [] then pre_of dt else []) \<and>
    t_cond_in dt' ZT2E_SOURCE = (ch' = []) \<and> t_cond_out dt' ZT2E_DEST = (ch' \<noteq> [])"
proof -
  obtain dt1 where dt1: "copy_write z_dot_transfer_funcs ZT2E_DEST EP_CLIENT dt = (False, G_IO_STATUS_NORMAL, dt1)"
    and fl: "flowing False room [] (arriving ch' @ (G_IO_STATUS_AGAIN, []) # rest) (copy_reset EP_CLIENT dt1)"
    and sent: "t_sent (copy_reset EP_CLIENT dt1) ZT2E_DEST =
        t_sent dt ZT2E_DEST @ (if ch = [] then [] else pre_of dt @ content (map wire ch))"
      "pre_of (copy_reset EP_CLIENT dt1) = (if ch = [] then pre_of dt else [])"
    using copy_write_step [OF assms(1,2)] by blast
  let ?r = "copy_reset EP_CLIENT dt1"
  let ?f = "feed ch' ((G_IO_STATUS_AGAIN, []) # rest) ?r"
  let ?e = "?f\<lparr>t_reads := (t_reads ?f)(ZT2E_SOURCE := rest)\<rparr>"
  let ?res = "if ch' = [] then G_IO_STATUS_NORMAL else G_IO_STATUS_NORMAL"
  have room: "length (content ch') + 3 \<le> room" "length ch' < MAX_READ_AT_A_TIME"
    using assms(3) by (auto simp: chunk_ok_def)
  have "read_loop z_dot_transfer_funcs ZT2E_SOURCE 0 G_IO_STATUS_NORMAL ?r =
      read_loop z_dot_transfer_funcs ZT2E_SOURCE (0 + length ch') ?res ?f"
    by (rule read_lines) (use fl room in \<open>auto simp: flowing_def\<close>)
  also have "\<dots> = (True, length ch', G_IO_STATUS_AGAIN, ?e)"
  proof -
    have "z_dot_transfer_src_read (room - length (content ch')) ?f = ((G_IO_STATUS_AGAIN, []), ?e)"
      by (rule dot_read_again) (use room in \<open>auto simp: feed_def\<close>)
    then have "z_transfer2_read_source z_dot_transfer_funcs ZT2E_SOURCE ?f = (G_IO_STATUS_AGAIN, ?e)"
      using fl by (simp add: z_transfer2_read_source_def z_dot_transfer_funcs_def flowing_def feed_def)
    then show ?thesis
      using fl room
      by (subst read_loop.simps)
        (simp add: flowing_def feed_def z_transfer2_buffer_full_def z_transfer2_get_status_def soft_eof_def status_bits)
  qed
  finally have "copy_loop z_dot_transfer_funcs ZT2E_SOURCE ZT2E_DEST 0 dt = Some (G_IO_STATUS_AGAIN, ?e)"
    using dt1 by (subst copy_loop.simps) simp
  moreover have "content ch' = [] \<longleftrightarrow> ch' = []" by (cases ch') auto
  ultimately show ?thesis
    using fl sent
    by (auto simp: z_transfer2_copy_data_def z_transfer2_update_cond_def set_conds_def Let_def flowing_def feed_def
        z_transfer2_buffer_empty_def z_transfer2_get_status_def status_bits pre_of_def)
qed


text \<open>The last call: what waits is written, then the rest up to the closing dot, then the end is noted.\<close>

definition ended :: "bytes \<Rightarrow> ZDotTransfer \<Rightarrow> bool" where
  "ended out dt \<longleftrightarrow> z_transfer2_get_status dt ZT2S_FINISHED \<and>
     t_status dt AND (ZT2S_FAILED + ZT2S_ABORTED + ZT2S_SUSPENDED) = 0 \<and> t_sent dt ZT2E_DEST = out \<and>
     t_cond_in dt = (\<lambda>_. False) \<and> t_cond_out dt = (\<lambda>_. False) \<and> \<not> t_stacked dt \<and>
     (dst_write_state dt = DOT_DW_PREAMBLE \<longrightarrow> out = [])"

lemma eof_ends:
  assumes "flowing soft room [] rest dt"
  shows "ended (t_sent dt ZT2E_DEST) (z_transfer2_update_cond (z_transfer2_eof z_dot_transfer_funcs ZT2E_SOURCE dt))"
proof -
  have "\<not> z_transfer2_get_status dt ZT2S_EOF_SOURCE" "\<not> t_stacked dt" "t_status dt = started soft"
      "z_dot_transfer_dst_shutdown dt = dt" "dst_write_state dt = DOT_DW_PREAMBLE \<longrightarrow> t_sent dt ZT2E_DEST = []"
    using assms by (auto simp: flowing_def z_transfer2_get_status_def status_bits z_dot_transfer_dst_shutdown_def)
  then show ?thesis
    by (auto simp: z_transfer2_eof_def z_dot_transfer_funcs_def z_transfer2_update_status_def ended_def
        z_transfer2_update_cond_def set_conds_def Let_def z_transfer2_get_status_def started_def
        ZT2S_STARTED_def ZT2S_SOFT_EOF_SOURCE_def ZT2S_EOF_SOURCE_def ZT2S_EOF_DEST_def ZT2S_FINISHED_def
        ZT2S_FAILED_def ZT2S_ABORTED_def ZT2S_SUSPENDED_def)
qed

lemma copy_end:
  assumes "flowing False room (content ch) (arriving ch' @ [(G_IO_STATUS_NORMAL, [DOT])]) dt" and "chunk_ok room ch"
    and "chunk_ok room ch'"
  shows "\<exists>res dt'. z_transfer2_copy_data z_dot_transfer_funcs ZT2E_SOURCE ZT2E_DEST dt = Some (res, dt') \<and>
    ended (t_sent dt ZT2E_DEST @ (if ch @ ch' = [] then [] else pre_of dt @ content (map wire (ch @ ch')))) dt'"
proof -
  obtain dt1 where dt1: "copy_write z_dot_transfer_funcs ZT2E_DEST EP_CLIENT dt = (False, G_IO_STATUS_NORMAL, dt1)"
    and fl: "flowing False room [] (arriving ch' @ [(G_IO_STATUS_NORMAL, [DOT])]) (copy_reset EP_CLIENT dt1)"
    and sent: "t_sent (copy_reset EP_CLIENT dt1) ZT2E_DEST =
        t_sent dt ZT2E_DEST @ (if ch = [] then [] else pre_of dt @ content (map wire ch))"
      "pre_of (copy_reset EP_CLIENT dt1) = (if ch = [] then pre_of dt else [])"
    using copy_write_step [OF assms(1,2)] by blast
  let ?r = "copy_reset EP_CLIENT dt1"
  let ?f = "feed ch' [(G_IO_STATUS_NORMAL, [DOT])] ?r"
  let ?e = "?f\<lparr>t_reads := (t_reads ?f)(ZT2E_SOURCE := [])\<rparr>"
  have room: "length (content ch') + 3 \<le> room" "length ch' < MAX_READ_AT_A_TIME"
    using assms(3) by (auto simp: chunk_ok_def)
  have fle: "flowing False room (content ch') [] ?e" using fl by (auto simp: flowing_def feed_def)
  have "z_dot_transfer_src_read (room - length (content ch')) ?f = ((G_IO_STATUS_EOF, []), ?e)"
    by (rule dot_read_end) (use room fl in \<open>auto simp: feed_def flowing_def\<close>)
  then have eof: "z_transfer2_read_source z_dot_transfer_funcs ZT2E_SOURCE ?f = (G_IO_STATUS_EOF, ?e)"
    using fl by (simp add: z_transfer2_read_source_def z_dot_transfer_funcs_def flowing_def feed_def)
  have "read_loop z_dot_transfer_funcs ZT2E_SOURCE 0 G_IO_STATUS_NORMAL ?r =
      read_loop z_dot_transfer_funcs ZT2E_SOURCE (0 + length ch') (if ch' = [] then G_IO_STATUS_NORMAL else G_IO_STATUS_NORMAL) ?f"
    by (rule read_lines) (use fl room in \<open>auto simp: flowing_def\<close>)
  also have "\<dots> = (if ch' = [] then (True, 0, G_IO_STATUS_EOF, z_transfer2_eof z_dot_transfer_funcs ZT2E_SOURCE ?e)
      else (False, length ch', G_IO_STATUS_EOF, z_transfer2_update_status ZT2S_SOFT_EOF_SOURCE True ?e))"
  proof -
    have "\<not> z_transfer2_get_status ?f (soft_eof ZT2E_SOURCE)" "\<not> z_transfer2_buffer_full (t_buffers ?f EP_CLIENT)"
        "z_transfer2_buffer_empty (t_buffers ?e EP_CLIENT) \<longleftrightarrow> ch' = []"
      using fl room by (cases ch'; auto simp: flowing_def feed_def z_transfer2_buffer_full_def z_transfer2_get_status_def
          soft_eof_def status_bits z_transfer2_buffer_empty_def)+
    with eof room show ?thesis by (subst read_loop.simps) (auto simp: soft_eof_def)
  qed
  finally have read: "read_loop z_dot_transfer_funcs ZT2E_SOURCE 0 G_IO_STATUS_NORMAL ?r =
      (if ch' = [] then (True, 0, G_IO_STATUS_EOF, z_transfer2_eof z_dot_transfer_funcs ZT2E_SOURCE ?e)
       else (False, length ch', G_IO_STATUS_EOF, z_transfer2_update_status ZT2S_SOFT_EOF_SOURCE True ?e))" .
  have e: "t_sent ?e = t_sent ?r" "pre_of ?e = pre_of ?r" by (simp_all add: feed_def pre_of_def)
  show ?thesis
  proof (cases "ch' = []")
    case True
    then have "copy_loop z_dot_transfer_funcs ZT2E_SOURCE ZT2E_DEST 0 dt =
        Some (G_IO_STATUS_EOF, z_transfer2_eof z_dot_transfer_funcs ZT2E_SOURCE ?e)"
      using dt1 read by (subst copy_loop.simps) simp
    moreover have "ended (t_sent ?e ZT2E_DEST) (z_transfer2_update_cond (z_transfer2_eof z_dot_transfer_funcs ZT2E_SOURCE ?e))"
      by (rule eof_ends [of False room "[]"]) (use fle True in simp)
    ultimately show ?thesis using sent(1) True e(1) by (cases "ch = []") (simp_all add: z_transfer2_copy_data_def)
  next
    case False
    let ?s = "z_transfer2_update_status ZT2S_SOFT_EOF_SOURCE True ?e"
    have fls: "flowing True room (content ch') [] ?s"
      using fle by (simp add: flowing_def z_transfer2_update_status_def started_def)
    obtain dt2 where dt2: "copy_write z_dot_transfer_funcs ZT2E_DEST EP_CLIENT ?s = (False, G_IO_STATUS_NORMAL, dt2)"
      and fl2: "flowing True room [] [] (copy_reset EP_CLIENT dt2)"
      and sent2: "t_sent (copy_reset EP_CLIENT dt2) ZT2E_DEST = t_sent ?s ZT2E_DEST @ pre_of ?s @ content (map wire ch')"
      using copy_write_step [OF fls assms(3)] False by auto
    let ?z = "z_transfer2_eof z_dot_transfer_funcs ZT2E_SOURCE (copy_reset EP_CLIENT dt2)"
    have "read_loop z_dot_transfer_funcs ZT2E_SOURCE (length ch') G_IO_STATUS_NORMAL (copy_reset EP_CLIENT dt2) =
        (True, length ch', G_IO_STATUS_NORMAL, ?z)"
      using fl2 room by (subst read_loop.simps) (simp add: flowing_def z_transfer2_buffer_full_def
          z_transfer2_get_status_def soft_eof_def status_bits z_transfer2_buffer_empty_def)
    then have "copy_loop z_dot_transfer_funcs ZT2E_SOURCE ZT2E_DEST (length ch') ?s = Some (G_IO_STATUS_NORMAL, ?z)"
      using dt2 by (subst copy_loop.simps) simp
    then have "copy_loop z_dot_transfer_funcs ZT2E_SOURCE ZT2E_DEST 0 dt = Some (G_IO_STATUS_NORMAL, ?z)"
      using dt1 read False room by (subst copy_loop.simps) simp
    moreover have "ended (t_sent (copy_reset EP_CLIENT dt2) ZT2E_DEST) (z_transfer2_update_cond ?z)"
      by (rule eof_ends [OF fl2])
    moreover have "t_sent (copy_reset EP_CLIENT dt2) ZT2E_DEST =
        t_sent dt ZT2E_DEST @ pre_of dt @ content (map wire (ch @ ch'))"
    proof -
      have "t_sent ?s = t_sent ?r" "pre_of ?s = pre_of ?r"
        by (simp_all add: z_transfer2_update_status_def feed_def pre_of_def)
      then show ?thesis using sent sent2 by (cases "ch = []") (simp_all only: if_True if_False, simp_all)
    qed
    ultimately show ?thesis using False by (simp add: z_transfer2_copy_data_def)
  qed
qed


text \<open>Rounds in which both streams are ready: the conditions pick the one that matters.\<close>

definition busy :: zt2_round where
  "busy = \<lparr>zr_fires = [FireIn ZT2E_SOURCE, FireOut ZT2E_DEST], zr_poll = True, zr_loop = True\<rparr>"

definition going :: "nat \<Rightarrow> bytes list list \<Rightarrow> bytes list \<Rightarrow> bytes \<Rightarrow> ZDotTransfer \<Rightarrow> bool" where
  "going room chunks final out dt \<longleftrightarrow> list_all (chunk_ok room) chunks \<and> chunk_ok room final \<and>
     (\<exists>ch. chunk_ok room ch \<and> flowing False room (content ch) (arrivals chunks final) dt \<and>
       t_cond_in dt ZT2E_SOURCE = (ch = []) \<and> t_cond_out dt ZT2E_DEST = (ch \<noteq> []) \<and>
       out = t_sent dt ZT2E_DEST @
         (if ch @ concat chunks @ final = [] then [] else pre_of dt @ content (map wire (ch @ concat chunks @ final))))"

lemma copy_going:
  assumes "going room chunks final out dt"
  shows "\<exists>res dt'. z_transfer2_copy_data z_dot_transfer_funcs ZT2E_SOURCE ZT2E_DEST dt = Some (res, dt') \<and>
    (case chunks of [] \<Rightarrow> ended out dt' | _ # cs \<Rightarrow> going room cs final out dt')"
proof -
  obtain ch where ch: "chunk_ok room ch" "flowing False room (content ch) (arrivals chunks final) dt"
    and out: "out = t_sent dt ZT2E_DEST @
         (if ch @ concat chunks @ final = [] then [] else pre_of dt @ content (map wire (ch @ concat chunks @ final)))"
    and ok: "list_all (chunk_ok room) chunks" "chunk_ok room final"
    using assms by (auto simp: going_def)
  show ?thesis
  proof (cases chunks)
    case Nil
    then have "out = t_sent dt ZT2E_DEST @ (if ch @ final = [] then [] else pre_of dt @ content (map wire (ch @ final)))"
      using out by simp
    with Nil show ?thesis using copy_end [of room ch final dt] ch ok by (simp add: arrivals_def del: append_is_Nil_conv)
  next
    case (Cons ch' cs)
    have "flowing False room (content ch) (arriving ch' @ (G_IO_STATUS_AGAIN, []) # arrivals cs final) dt"
      using ch(2) Cons by (simp add: arrivals_def)
    from copy_step [OF this ch(1)] obtain dt' where
        copy: "z_transfer2_copy_data z_dot_transfer_funcs ZT2E_SOURCE ZT2E_DEST dt = Some (G_IO_STATUS_AGAIN, dt')"
      and fl: "flowing False room (content ch') (arrivals cs final) dt'"
      and sent: "t_sent dt' ZT2E_DEST = t_sent dt ZT2E_DEST @ (if ch = [] then [] else pre_of dt @ content (map wire ch))"
        "pre_of dt' = (if ch = [] then pre_of dt else [])"
      and cond: "t_cond_in dt' ZT2E_SOURCE = (ch' = [])" "t_cond_out dt' ZT2E_DEST = (ch' \<noteq> [])"
      using ok Cons by auto
    have "out = t_sent dt' ZT2E_DEST @ (if ch' @ concat cs @ final = [] then []
        else pre_of dt' @ content (map wire (ch' @ concat cs @ final)))"
    proof -
      define R where "R = ch' @ concat cs @ final"
      then have R: "concat chunks @ final = R" using Cons by simp
      show ?thesis
        using out sent unfolding R R_def [symmetric] by (cases "ch = []"; cases "R = []") simp_all
    qed
    then have "going room cs final out dt'"
      using fl cond ok Cons unfolding going_def by (intro conjI exI [of _ ch']) simp_all
    then show ?thesis using copy Cons by simp
  qed
qed

lemma fire_ended: "ended out dt \<Longrightarrow> fire c (FireIn ep) dt = Some dt" "ended out dt \<Longrightarrow> fire c (FireOut ep) dt = Some dt"
  by (simp_all add: ended_def)

lemma round_going:
  assumes "going room chunks final out dt"
  shows "\<exists>dt'. fire_all z_dot_transfer_funcs (zr_fires busy) dt = Some dt' \<and>
    (ended out dt' \<or> (\<exists>cs. length cs < length chunks \<and> going room cs final out dt'))"
proof -
  have one: "\<exists>dt'. fire z_dot_transfer_funcs (if t_cond_in d ZT2E_SOURCE then FireIn ZT2E_SOURCE else FireOut ZT2E_DEST) d = Some dt' \<and>
      (ended out dt' \<or> (\<exists>ds. length ds < length cs \<and> going room ds final out dt'))"
    if "going room cs final out d" for cs d
  proof -
    have "\<not> t_stacked d" "t_cond_out d ZT2E_DEST = (\<not> t_cond_in d ZT2E_SOURCE)"
      using that by (auto simp: going_def flowing_def)
    with copy_going [OF that] show ?thesis
      by (cases cs) (auto simp: run_callback_def)
  qed
  have off: "fire z_dot_transfer_funcs (if t_cond_in d ZT2E_SOURCE then FireOut ZT2E_DEST else FireIn ZT2E_SOURCE) d = Some d"
    if "going room cs final out d" for cs d
    using that by (auto simp: going_def)
  show ?thesis
  proof (cases "t_cond_in dt ZT2E_SOURCE")
    case False
    then show ?thesis using one [OF assms] off [OF assms] by (auto simp: busy_def simp del: fire.simps)
  next
    case True
    from one [OF assms] True obtain d where d: "fire z_dot_transfer_funcs (FireIn ZT2E_SOURCE) dt = Some d"
        "ended out d \<or> (\<exists>cs. length cs < length chunks \<and> going room cs final out d)"
      by auto
    from d(2) show ?thesis
    proof
      assume "ended out d"
      then show ?thesis using d(1) fire_ended(2) [of out d] by (auto simp: busy_def simp del: fire.simps)
    next
      assume "\<exists>cs. length cs < length chunks \<and> going room cs final out d"
      then obtain cs where cs: "length cs < length chunks" "going room cs final out d" by blast
      show ?thesis
        using one [OF cs(2)] off [OF cs(2)] cs d(1)
        by (cases "t_cond_in d ZT2E_SOURCE") (auto simp: busy_def simp del: fire.simps intro: order.strict_trans)
    qed
  qed
qed

lemma run_going:
  "going room chunks final out dt \<Longrightarrow> length chunks < n \<Longrightarrow>
   \<exists>rounds dt'. run_loop z_dot_transfer_funcs (replicate n busy) dt = Some (rounds, dt') \<and> ended out dt'"
proof (induction n arbitrary: chunks dt)
  case (Suc n)
  have st: "t_status dt AND (ZT2S_FINISHED + ZT2S_SUSPENDED) = 0"
    using Suc.prems(1) by (auto simp: going_def flowing_def status_bits)
  obtain d where d: "fire_all z_dot_transfer_funcs (zr_fires busy) dt = Some d"
      "ended out d \<or> (\<exists>cs. length cs < length chunks \<and> going room cs final out d)"
    using round_going [OF Suc.prems(1)] by blast
  from d(2) show ?case
  proof
    assume "ended out d"
    moreover have "t_status d AND (ZT2S_FINISHED + ZT2S_SUSPENDED) \<noteq> 0"
    proof
      assume "t_status d AND (ZT2S_FINISHED + ZT2S_SUSPENDED) = 0"
      then have "(t_status d AND (ZT2S_FINISHED + ZT2S_SUSPENDED)) AND ZT2S_FINISHED = 0" by simp
      then have "t_status d AND ZT2S_FINISHED = 0"
        by (simp add: and.assoc ZT2S_FINISHED_def ZT2S_SUSPENDED_def)
      with \<open>ended out d\<close> show False by (simp add: ended_def z_transfer2_get_status_def)
    qed
    ultimately show ?thesis using d(1) st by (cases n) (auto simp: busy_def simp del: fire_all.simps)
  next
    assume "\<exists>cs. length cs < length chunks \<and> going room cs final out d"
    then obtain cs where "length cs < length chunks" "going room cs final out d" by blast
    with Suc.IH [of cs d] Suc.prems(2) d(1) st show ?thesis by (auto simp: busy_def simp del: fire_all.simps)
  qed
qed simp

lemma and_part: "w AND m = 0 \<Longrightarrow> m AND k = k \<Longrightarrow> w AND k = 0" for w :: "32 word"
  by (metis and.assoc and_zero_eq word_bw_comms(1))

lemma dot_starts:
  assumes "list_all (chunk_ok room) chunks" and "chunk_ok room final"
  shows "\<exists>dt. z_transfer2_start z_dot_transfer_funcs (z_dot_transfer_new (arrivals chunks final) [] room flags pre) = (True, dt) \<and>
    going room chunks final (if concat chunks @ final = [] then [] else pre @ content (map wire (concat chunks @ final)))
      (z_transfer2_update_status ZT2S_SUSPENDED False (z_transfer2_update_status ZT2S_STARTED True (z_transfer2_update_cond dt)))"
proof -
  have "chunk_ok room []" using assms(2) by (auto simp: chunk_ok_def content_def)
  with assms show ?thesis
    by (auto simp: z_transfer2_start_def z_dot_transfer_funcs_def z_dot_transfer_new_def going_def flowing_def Let_def
        set_conds_def z_transfer2_update_cond_def z_transfer2_update_status_def z_transfer2_buffer_init_def pre_of_def
        z_transfer2_buffer_empty_def z_transfer2_get_status_def started_def content_def
        ZT2S_STARTED_def ZT2S_SUSPENDED_def ZT2S_EOF_SOURCE_def ZT2S_EOF_DEST_def ZT2S_PROXY_OUT_def
        intro!: exI [of _ "[]"])
qed

lemma dot_faithful:
  assumes "list_all (chunk_ok room) chunks" and "chunk_ok room final" and "length chunks < n"
  shows "\<exists>dt. z_transfer2_simple_run z_dot_transfer_funcs (replicate n busy)
      (z_dot_transfer_new (arrivals chunks final) [] room flags pre) = Some (True, dt) \<and>
    t_sent dt ZT2E_DEST =
      (if concat chunks @ final = [] then [] else pre @ stuff True (content (concat chunks @ final))) \<and>
    (dst_write_state dt = DOT_DW_PREAMBLE \<longrightarrow> t_sent dt ZT2E_DEST = [])"
proof -
  let ?out = "if concat chunks @ final = [] then [] else pre @ content (map wire (concat chunks @ final))"
  obtain dt where start: "z_transfer2_start z_dot_transfer_funcs (z_dot_transfer_new (arrivals chunks final) [] room flags pre) = (True, dt)"
    and going: "going room chunks final ?out
      (z_transfer2_update_status ZT2S_SUSPENDED False (z_transfer2_update_status ZT2S_STARTED True (z_transfer2_update_cond dt)))"
    using dot_starts [OF assms(1,2)] by blast
  from run_going [OF going assms(3)] obtain rounds dt' where run: "run_loop z_dot_transfer_funcs (replicate n busy)
      (z_transfer2_update_status ZT2S_SUSPENDED False (z_transfer2_update_status ZT2S_STARTED True (z_transfer2_update_cond dt))) =
      Some (rounds, dt')" and ended: "ended ?out dt'"
    by blast
  have "list_all line_ok (concat chunks @ final)"
    using assms(1,2) by (auto simp: chunk_ok_def list_all_iff)
  then have "content (map wire (concat chunks @ final)) = stuff True (content (concat chunks @ final))"
    using stuff_content by metis
  moreover have "run_result dt' = ZT2_RESULT_FINISHED"
    using ended and_part [of "t_status dt'" "ZT2S_FAILED + ZT2S_ABORTED + ZT2S_SUSPENDED"]
    by (simp add: run_result_def ended_def z_transfer2_get_status_def
        ZT2S_SUSPENDED_def ZT2S_FAILED_def ZT2S_ABORTED_def)
  ultimately show ?thesis
    using start run ended
    by (simp add: z_transfer2_simple_run_def run_unsuspended.simps [of z_dot_transfer_funcs "replicate n busy"]
        z_transfer2_run_method_def ended_def)
qed

section \<open>Properties\<close>

text \<open>C22: A mail that arrives in chunks of lines, at most one line of a chunk starting with a dot, is
  passed on unchanged: the transfer succeeds and what is written is the preamble followed by the
  content of the lines with its dots doubled again; an empty mail writes nothing.\<close>

theorem dot_transfer_faithful:
  assumes "list_all (chunk_ok room) chunks" and "chunk_ok room final" and "length chunks < n"
  shows "\<exists>dt. z_transfer2_simple_run z_dot_transfer_funcs (replicate n busy)
      (z_dot_transfer_new (arrivals chunks final) [] room flags pre) = Some (True, dt) \<and>
    t_sent dt ZT2E_DEST =
      (if concat chunks @ final = [] then [] else pre @ stuff True (content (concat chunks @ final)))"
  using dot_faithful [OF assms] by blast

theorem dot_transfer_faithful_witness:
  "\<exists>dt. z_transfer2_simple_run z_dot_transfer_funcs (replicate 2 busy)
      (z_dot_transfer_new (arrivals [[[72, 105], [DOT, 120]]] [[DOT]]) [] 1024 0 [43, CR, LF]) = Some (True, dt) \<and>
    t_sent dt ZT2E_DEST = [43, CR, LF, 72, 105, CR, LF, DOT, DOT, 120, CR, LF, DOT, DOT, CR, LF]"
  using dot_transfer_faithful [of 1024 "[[[72, 105], [DOT, 120]]]" "[[DOT]]" 2 0 "[43, CR, LF]"]
  by (simp add: chunk_ok_def dotted_def MAX_READ_AT_A_TIME_def)





end
