(* ===== verification/Smtp_Data.thy ===== *)
theory Smtp_Data
  imports DotTransfer
begin

text \<open>
  The transfer class of the SMTP proxy (\<^verbatim>\<open>modules/smtp/smtpdata.cc\<close>): the message a client sends after
  DATA, read line by line up to the closing dot and written to the server with its dots restored.
  The Received line the policy may generate is an answer given in advance.
\<close>

section \<open>State\<close>

datatype smtp_sr = SMTP_SR_INITIAL | SMTP_SR_DATA
datatype smtp_dw = SMTP_DW_INITIAL | SMTP_DW_TRANSFER | SMTP_DW_TRANSFER_LF | SMTP_DW_TRANSFER_DOT | SMTP_DW_REJECTED

definition SMTP_TRANSFER_SUSPEND_DATA :: int where "SMTP_TRANSFER_SUSPEND_DATA = 100"
definition SMTP_TRANSFER_SUSPEND_NOOP :: int where "SMTP_TRANSFER_SUSPEND_NOOP = 101"

record SmtpTransfer = ZTransfer2 +
  smtp_write_state :: smtp_dw
  smtp_read_state :: smtp_sr
  received_line :: "bytes option"
  received_line_pos :: nat
  smtp_line_split :: bool
  owner_add_received_header :: bool
  owner_generated :: "bytes option"

section \<open>Reading\<close>

text \<open>The lines of the message; an end of file of the client passes for the end of the message.\<close>

definition smtp_read_line :: "nat \<Rightarrow> 'a SmtpTransfer_scheme \<Rightarrow> (giostatus \<times> bytes) \<times> 'a SmtpTransfer_scheme" where
  "smtp_read_line buf_len self =
     (if buf_len < 2 then ((G_IO_STATUS_AGAIN, []), self)
      else case z_stream_read ZT2E_SOURCE (buf_len - 2) self of
        ((res, line), self1) \<Rightarrow>
          if res = G_IO_STATUS_NORMAL then
            (if \<not> smtp_line_split self1 \<and> line \<noteq> [] \<and> hd line = DOT then
               (if length line = 1 then ((G_IO_STATUS_EOF, []), self1)
                else ((G_IO_STATUS_NORMAL, tl line @ [CR, LF]), self1\<lparr>smtp_line_split := False\<rparr>))
             else ((G_IO_STATUS_NORMAL, line @ [CR, LF]), self1\<lparr>smtp_line_split := False\<rparr>))
          else if res = G_IO_STATUS_AGAIN \<and> line \<noteq> [] then
            ((G_IO_STATUS_NORMAL, line), self1\<lparr>smtp_line_split := True\<rparr>)
          else ((res, []), self1))"

definition smtp_transfer_src_read :: "nat \<Rightarrow> 'a SmtpTransfer_scheme \<Rightarrow> (giostatus \<times> bytes) \<times> 'a SmtpTransfer_scheme" where
  "smtp_transfer_src_read buf_len self =
     (if smtp_read_state self = SMTP_SR_INITIAL then
        (if owner_add_received_header self then
           (let self1 =
              (if received_line self = None then
                 (case owner_generated self of
                    None \<Rightarrow> self\<lparr>smtp_read_state := SMTP_SR_DATA\<rparr>
                  | Some line \<Rightarrow> self\<lparr>received_line := Some line\<rparr>)
               else self)
            in case received_line self1 of
                 None \<Rightarrow> smtp_read_line buf_len self1
               | Some line \<Rightarrow>
                   (let n = min buf_len (length line - received_line_pos self1);
                        self2 = self1\<lparr>received_line_pos := received_line_pos self1 + n\<rparr>
                    in ((G_IO_STATUS_NORMAL, take n (drop (received_line_pos self1) line)),
                        if received_line_pos self2 \<ge> length line then self2\<lparr>smtp_read_state := SMTP_SR_DATA\<rparr> else self2)))
         else smtp_read_line buf_len (self\<lparr>smtp_read_state := SMTP_SR_DATA\<rparr>))
      else smtp_read_line buf_len self)"

section \<open>Writing\<close>

function smtp_data_state ::
  "bytes \<Rightarrow> nat \<Rightarrow> 'a SmtpTransfer_scheme \<Rightarrow> (giostatus \<times> nat) \<times> 'a SmtpTransfer_scheme" where
  "smtp_data_state buf written self =
     (case find_dot (smtp_write_state self = SMTP_DW_TRANSFER_LF) (drop written buf) of
        (None, lf) \<Rightarrow>
          (case z_stream_write ZT2E_DEST (drop written buf)
                  (self\<lparr>smtp_write_state := if lf then SMTP_DW_TRANSFER_LF else SMTP_DW_TRANSFER\<rparr>) of
             ((res, bw), self1) \<Rightarrow> ((res, written + bw), self1))
      | (Some k, _) \<Rightarrow>
          (case z_stream_write ZT2E_DEST (take k (drop written buf)) self of
             ((res, bw), self1) \<Rightarrow>
               if res = G_IO_STATUS_NORMAL \<and> k = bw then
                 (case z_stream_write ZT2E_DEST [DOT] (self1\<lparr>smtp_write_state := SMTP_DW_TRANSFER_DOT\<rparr>) of
                    ((res', bw'), self2) \<Rightarrow>
                      if res' = G_IO_STATUS_NORMAL \<and> bw' = 1
                      then smtp_data_state buf (written + bw) (self2\<lparr>smtp_write_state := SMTP_DW_TRANSFER\<rparr>)
                      else ((res', written + bw), self2))
               else ((res, written + bw), self1\<lparr>smtp_write_state := SMTP_DW_TRANSFER\<rparr>)))"
  by pat_completeness auto
termination
proof (relation "measure (\<lambda>(buf, written, self).
    2 * (length buf - written) + (if smtp_write_state self = SMTP_DW_TRANSFER_LF then 1 else 0))", goal_cases)
  case (2 buf written self kl lf k w self1 res bw)
  then have find: "find_dot (smtp_write_state self = SMTP_DW_TRANSFER_LF) (drop written buf) = (Some k, lf)"
    and bw: "k = bw"
    by simp_all
  have "k < length (drop written buf)" "k = 0 \<longrightarrow> smtp_write_state self = SMTP_DW_TRANSFER_LF"
    using find_dot_bound [OF find] find_dot_first [of _ "drop written buf" lf] find by auto
  then show ?case using bw by auto
qed simp

declare smtp_data_state.simps [simp del]

definition smtp_transfer_dst_write ::
  "bytes \<Rightarrow> 'a SmtpTransfer_scheme \<Rightarrow> (giostatus \<times> nat) \<times> 'a SmtpTransfer_scheme" where
  "smtp_transfer_dst_write buf self =
     (case smtp_write_state self of
        SMTP_DW_INITIAL \<Rightarrow>
          ((G_IO_STATUS_AGAIN, 0), (z_transfer2_suspend SMTP_TRANSFER_SUSPEND_DATA self)\<lparr>smtp_write_state := SMTP_DW_TRANSFER\<rparr>)
      | SMTP_DW_TRANSFER \<Rightarrow> smtp_data_state buf 0 self
      | SMTP_DW_TRANSFER_LF \<Rightarrow> smtp_data_state buf 0 self
      | SMTP_DW_TRANSFER_DOT \<Rightarrow>
          (case z_stream_write ZT2E_DEST [DOT] self of
             ((res, bw), self1) \<Rightarrow>
               if res = G_IO_STATUS_NORMAL \<and> bw = 1
               then smtp_data_state buf 0 (self1\<lparr>smtp_write_state := SMTP_DW_TRANSFER\<rparr>) else ((res, 0), self1))
      | SMTP_DW_REJECTED \<Rightarrow> ((G_IO_STATUS_ERROR, 0), self))"

definition smtp_transfer_dst_shutdown :: "'a SmtpTransfer_scheme \<Rightarrow> 'a SmtpTransfer_scheme" where
  "smtp_transfer_dst_shutdown self =
     (if smtp_write_state self \<noteq> SMTP_DW_INITIAL then snd (z_stream_write ZT2E_DEST [CR, LF, DOT, CR, LF] self) else self)"

definition smtp_transfer_progress :: "'a SmtpTransfer_scheme \<Rightarrow> bool \<times> 'a SmtpTransfer_scheme" where
  "smtp_transfer_progress self =
     (True, if smtp_write_state self = SMTP_DW_INITIAL then z_transfer2_suspend SMTP_TRANSFER_SUSPEND_NOOP self else self)"

text \<open>Stacking asks the policy; what it answered (nothing stacked, stacked, or a failure) is a parameter.\<close>

definition smtp_transfer_funcs :: "(bool \<times> bool) \<Rightarrow> 'a SmtpTransfer_scheme ZTransfer2Funcs" where
  "smtp_transfer_funcs stacking = \<lparr>src_read = smtp_transfer_src_read, dst_write = smtp_transfer_dst_write,
     src_shutdown = (\<lambda>self. self), dst_shutdown = smtp_transfer_dst_shutdown,
     stack_proxy = (\<lambda>self. (fst stacking, self\<lparr>t_stacked := fst stacking \<and> snd stacking\<rparr>)),
     setup_transfer = (\<lambda>self. (True, self)), progress = smtp_transfer_progress\<rparr>"

section \<open>What is written\<close>

lemma smtp_emit_simps [simp]:
  fixes st :: "'a SmtpTransfer_scheme"
  shows "smtp_write_state (emit bs st) = smtp_write_state st"
    "(emit bs st)\<lparr>smtp_write_state := d\<rparr> = emit bs (st\<lparr>smtp_write_state := d\<rparr>)"
  by (simp_all add: emit_def)

text \<open>The scan and the reference: without two newlines in a row they agree.\<close>

fun no_double_lf :: "bool \<Rightarrow> bytes \<Rightarrow> bool" where
  "no_double_lf lf [] = True"
| "no_double_lf lf (b # bs) = (\<not> (lf \<and> b = LF) \<and> no_double_lf (b = LF) bs)"

lemma find_none_stuff:
  "no_double_lf lf bs \<Longrightarrow> find_dot lf bs = (None, lf') \<Longrightarrow>
   stuff lf bs = bs \<and> lf' = (if bs = [] then lf else last bs = LF)"
  by (induction lf bs arbitrary: lf' rule: find_dot.induct) (auto split: if_splits prod.splits)

lemma find_some_stuff:
  "no_double_lf lf bs \<Longrightarrow> find_dot lf bs = (Some k, lf') \<Longrightarrow>
   stuff lf bs = take k bs @ DOT # stuff False (drop k bs) \<and> no_double_lf False (drop k bs)"
proof (induction lf bs arbitrary: lf' k rule: find_dot.induct)
  case (2 lf b bs)
  show ?case
  proof (cases "lf \<and> b = DOT")
    case True
    with 2(2,3) show ?thesis by auto
  next
    case False
    then obtain j where j: "k = Suc j" "find_dot (\<not> lf \<and> b = LF) bs = (Some j, lf')"
      using 2(3) by (auto split: prod.splits)
    moreover have eq: "(\<not> lf \<and> b = LF) = (b = LF)" using 2(2) by auto
    ultimately show ?thesis using 2(1) [OF False, of j lf'] 2(2) False by auto
  qed
qed simp

text \<open>Whatever the buffer, the dots behind newlines are doubled, and the next call knows whether a line
  begins.\<close>

lemma smtp_data_stuffs:
  assumes "t_writes st ZT2E_DEST = []" and "no_double_lf (smtp_write_state st = SMTP_DW_TRANSFER_LF) (drop written buf)"
    and "written < length buf" and "smtp_write_state st \<in> {SMTP_DW_TRANSFER, SMTP_DW_TRANSFER_LF}"
  shows "smtp_data_state buf written st = ((G_IO_STATUS_NORMAL, length buf),
    emit (stuff (smtp_write_state st = SMTP_DW_TRANSFER_LF) (drop written buf))
      (st\<lparr>smtp_write_state := if last buf = LF then SMTP_DW_TRANSFER_LF else SMTP_DW_TRANSFER\<rparr>))"
  using assms
proof (induction buf written st rule: smtp_data_state.induct)
  case (1 buf written st)
  let ?lf = "smtp_write_state st = SMTP_DW_TRANSFER_LF"
  obtain kk lf' where find: "find_dot ?lf (drop written buf) = (kk, lf')" by fastforce
  show ?case
  proof (cases kk)
    case None
    from find_none_stuff [OF 1(3)] find None 1(4)
    have "stuff ?lf (drop written buf) = drop written buf" "lf' = (last buf = LF)"
      by (auto simp: last_drop)
    then show ?thesis
      using 1(2,4) find None by (simp add: smtp_data_state.simps [of _ _ st] open_write)
  next
    case (Some k)
    let ?st = "emit (take k (drop written buf) @ [DOT]) (st\<lparr>smtp_write_state := SMTP_DW_TRANSFER\<rparr>)"
    have k: "k < length (drop written buf)" using find_dot_bound find Some by blast
    from find_some_stuff [OF 1(3)] find Some
    have stuff: "stuff ?lf (drop written buf) = take k (drop written buf) @ DOT # stuff False (drop (written + k) buf)"
      and ok: "no_double_lf False (drop (written + k) buf)"
      by (auto simp: add.commute)
    have "smtp_data_state buf written st = smtp_data_state buf (written + k) ?st"
      using 1(2) find Some k by (simp add: smtp_data_state.simps [of _ written st] open_write min_absorb2)
    also have "\<dots> = ((G_IO_STATUS_NORMAL, length buf), emit (stuff False (drop (written + k) buf))
        (?st\<lparr>smtp_write_state := if last buf = LF then SMTP_DW_TRANSFER_LF else SMTP_DW_TRANSFER\<rparr>))"
      using 1 find Some k ok by (simp add: open_write min_absorb2)
    finally show ?thesis using stuff by simp
  qed
qed

section \<open>The class\<close>

lemma smtp_data_bounds:
  "smtp_data_state buf written self = ((res, n), self') \<Longrightarrow> written \<le> length buf \<Longrightarrow> n \<le> length buf \<and> zt2_frame self self'"
proof (induction buf written self arbitrary: res n self' rule: smtp_data_state.induct)
  case (1 buf written self)
  have state: "zt2_frame s (s\<lparr>smtp_write_state := d\<rparr>)" for s :: "'a SmtpTransfer_scheme" and d
    by (simp add: zt2_frame_def)
  obtain kk lf where find: "find_dot (smtp_write_state self = SMTP_DW_TRANSFER_LF) (drop written buf) = (kk, lf)" by fastforce
  show ?case
  proof (cases kk)
    case None
    let ?s = "self\<lparr>smtp_write_state := if lf then SMTP_DW_TRANSFER_LF else SMTP_DW_TRANSFER\<rparr>"
    obtain r bw self1 where w: "z_stream_write ZT2E_DEST (drop written buf) ?s = ((r, bw), self1)" by (metis surj_pair)
    then show ?thesis
      using 1(2,3) find None stream_bounds(2) [OF w] zt2_frame_trans [OF state zt2_frame_streams(2) [OF w]]
      by (auto simp: smtp_data_state.simps [of buf written self])
  next
    case (Some k)
    obtain res1 bw self1 where w: "z_stream_write ZT2E_DEST (take k (drop written buf)) self = ((res1, bw), self1)"
      by (metis surj_pair)
    obtain res2 bw2 self2 where w2: "z_stream_write ZT2E_DEST [DOT] (self1\<lparr>smtp_write_state := SMTP_DW_TRANSFER_DOT\<rparr>) =
        ((res2, bw2), self2)" by (metis surj_pair)
    have bw: "bw \<le> k" using stream_bounds(2) [OF w] by simp
    have k: "k < length (drop written buf)" using find_dot_bound find Some by blast
    have f1: "zt2_frame self self1" and f2: "zt2_frame self self2"
      using zt2_frame_streams(2) [OF w] zt2_frame_trans [OF state zt2_frame_streams(2) [OF w2]] zt2_frame_trans by blast+
    note step = 1(2) [unfolded smtp_data_state.simps [of buf written self] find Some option.case prod.case w w2]
    show ?thesis
    proof (cases "res1 = G_IO_STATUS_NORMAL \<and> k = bw \<and> res2 = G_IO_STATUS_NORMAL \<and> bw2 = 1")
      case True
      have "n \<le> length buf \<and> zt2_frame (self2\<lparr>smtp_write_state := SMTP_DW_TRANSFER\<rparr>) self'"
        using 1 find Some w w2 True step bw k by simp
      then show ?thesis using f2 state zt2_frame_trans by blast
    next
      case False
      then show ?thesis using step f1 f2 bw k zt2_frame_trans [OF f1 state] by (auto split: if_splits)
    qed
  qed
qed

lemma smtp_write_bounds:
  assumes "smtp_transfer_dst_write buf self = ((res, n), self')"
  shows "n \<le> length buf \<and> zt2_frame self self'"
proof (cases "smtp_write_state self")
  case SMTP_DW_TRANSFER_DOT
  obtain w self1 where w: "z_stream_write ZT2E_DEST [DOT] self = (w, self1)" by fastforce
  have f: "zt2_frame self self1" by (rule zt2_frame_streams(2) [OF w])
  have "zt2_frame self1 (self1\<lparr>smtp_write_state := SMTP_DW_TRANSFER\<rparr>)" by (simp add: zt2_frame_def)
  from zt2_frame_trans [OF f this] show ?thesis
    using assms SMTP_DW_TRANSFER_DOT w f smtp_data_bounds [of buf 0 _ res n self']
    by (auto simp: smtp_transfer_dst_write_def split: if_splits prod.splits intro: zt2_frame_trans)
qed (use assms smtp_data_bounds [of buf 0 self res n self'] in
    \<open>auto simp: smtp_transfer_dst_write_def zt2_frame_def z_transfer2_suspend_def z_transfer2_update_status_def\<close>)

lemma smtp_read_bounds:
  assumes "smtp_transfer_src_read count self = ((res, bs), self')"
  shows "length bs \<le> count \<and> zt2_frame self self'"
proof -
  have line: "length bs \<le> count \<and> zt2_frame s s'" if "smtp_read_line count s = ((r, bs), s')" for r bs and s s' :: "'a SmtpTransfer_scheme"
  proof -
    obtain r' line s1 where r: "z_stream_read ZT2E_SOURCE (count - 2) s = ((r', line), s1)" by (metis surj_pair)
    from stream_bounds(1) [OF r] zt2_frame_streams(1) [OF r] show ?thesis
      using that r by (auto simp: smtp_read_line_def zt2_frame_def split: if_splits)
  qed
  have state: "zt2_frame (s\<lparr>smtp_read_state := d\<rparr>) s' = zt2_frame s s'" for s s' :: "'a SmtpTransfer_scheme" and d
    by (simp add: zt2_frame_def)
  show ?thesis
    using assms by (auto simp: smtp_transfer_src_read_def Let_def state split: if_splits option.splits dest!: line)
      (auto simp: zt2_frame_def)
qed

interpretation smtp: transfer_class "smtp_transfer_funcs stacking" for stacking
proof unfold_locales
  show "zt2_frame self (dst_shutdown (smtp_transfer_funcs stacking) self)" for self :: "'a SmtpTransfer_scheme"
    using zt2_frame_streams(2) [of ZT2E_DEST "[CR, LF, DOT, CR, LF]" self "fst (z_stream_write ZT2E_DEST [CR, LF, DOT, CR, LF] self)"]
    by (auto simp: smtp_transfer_funcs_def smtp_transfer_dst_shutdown_def)
qed (auto simp: smtp_transfer_funcs_def smtp_transfer_progress_def zt2_frame_def z_transfer2_suspend_def
    z_transfer2_update_status_def dest: smtp_read_bounds smtp_write_bounds)

section \<open>Properties\<close>

text \<open>Buffer after buffer handed to the destination, as the transfer does while every write is taken.\<close>

fun smtp_write_all :: "bytes list \<Rightarrow> 'a SmtpTransfer_scheme \<Rightarrow> 'a SmtpTransfer_scheme" where
  "smtp_write_all [] self = self"
| "smtp_write_all (buf # bufs) self = smtp_write_all bufs (snd (smtp_transfer_dst_write buf self))"

lemma no_double_lf_append:
  "no_double_lf lf (bs @ cs) \<longleftrightarrow> no_double_lf lf bs \<and> no_double_lf (if bs = [] then lf else last bs = LF) cs"
  by (induction lf bs rule: no_double_lf.induct) auto

lemma stuff_append: "stuff lf (bs @ cs) = stuff lf bs @ stuff (if bs = [] then lf else last bs = LF) cs"
  by (induction lf bs rule: stuff.induct) auto


text \<open>A message of two buffers: the dot that opens it goes out alone, so its first line ends the mail for
  the server; the later one is doubled.\<close>

definition smtp_transfer_new :: "read_answers \<Rightarrow> write_answers \<Rightarrow> nat \<Rightarrow> bool \<Rightarrow> bytes option \<Rightarrow> SmtpTransfer" where
  "smtp_transfer_new reads writes buffer_size add_received_header generated = \<lparr>
     t_buffers = (\<lambda>_. z_transfer2_buffer_init 0), t_buffer_size = buffer_size,
     t_flags = ZT2F_COMPLETE_COPY, t_stacked = False, t_status = 0, t_suspend_reason = 0,
     t_stack_decision = ZV_ACCEPT, t_stack_info = [], t_cond_in = (\<lambda>_. False), t_cond_out = (\<lambda>_. False),
     t_reads = (\<lambda>_. [])(ZT2E_SOURCE := reads), t_writes = (\<lambda>_. [])(ZT2E_DEST := writes),
     t_sent = (\<lambda>_. []), t_shut = (\<lambda>_. False),
     smtp_write_state = SMTP_DW_INITIAL, smtp_read_state = SMTP_SR_INITIAL, received_line = None, received_line_pos = 0,
     smtp_line_split = False, owner_add_received_header = add_received_header, owner_generated = generated\<rparr>"


text \<open>Each time the proxy runs or resumes the transfer of a mail the run comes back, with the buffers
  within their size, whatever the two sides answer.\<close>

lemma smtp_run_ends:
  assumes "0 < room" and "z_transfer2_start (smtp_transfer_funcs stacking) (smtp_transfer_new reads writes room recv gen) = (True, st)"
  shows "\<exists>tr rounds' st'. z_transfer2_run_method (smtp_transfer_funcs stacking) rounds st = Some (tr, rounds', st') \<and> buffers_ok st'"
proof -
  have "buffers_ok st" by (rule smtp.start_ok [OF _ assms(2)]) (simp add: assms(1) smtp_transfer_new_def)
  then show ?thesis by (rule smtp.run_method_ok)
qed

end
