(* ===== verification/CString.thy ===== *)
theory CString
  imports Prelude
begin

text \<open>
  What the proxies use of the C library on byte strings: character classes, \<^verbatim>\<open>strtol\<close>, printing of
  numbers, and that reading back a printed number gives the number.
\<close>

definition isspace :: "byte \<Rightarrow> bool" where
  "isspace b \<longleftrightarrow> b = 32 \<or> 9 \<le> b \<and> b \<le> 13"

definition isdigit :: "byte \<Rightarrow> bool" where
  "isdigit b \<longleftrightarrow> 48 \<le> b \<and> b \<le> 57"

definition digits_value :: "bytes \<Rightarrow> int" where
  "digits_value ds = foldl (\<lambda>a d. 10 * a + (uint d - 48)) 0 ds"

definition LONG_MAX :: int where "LONG_MAX = 2 ^ 63 - 1"
definition LONG_MIN :: int where "LONG_MIN = - (2 ^ 63)"

text \<open>\<^verbatim>\<open>strtol\<close> in base ten: the value, whether it was out of range, and where it stopped; with no digits
  it stops where it began.\<close>

definition strtol :: "bytes \<Rightarrow> int \<times> bool \<times> bytes" where
  "strtol str =
     (let ws = dropWhile isspace str;
          (neg, body) = (case ws of [] \<Rightarrow> (False, [])
            | c # r \<Rightarrow> if c = 43 then (False, r) else if c = 45 then (True, r) else (False, ws));
          ds = takeWhile isdigit body;
          v = (if neg then - digits_value ds else digits_value ds)
      in if ds = [] then (0, False, str)
         else (max LONG_MIN (min LONG_MAX v), v < LONG_MIN \<or> LONG_MAX < v, drop (length ds) body))"

text \<open>\<^verbatim>\<open>strtoul\<close> takes a sign, too: a negative number counts from the top of the range.\<close>

definition ULONG_MAX :: int where "ULONG_MAX = 2 ^ 64 - 1"

definition strtoul :: "bytes \<Rightarrow> int \<times> bytes" where
  "strtoul str =
     (let ws = dropWhile isspace str;
          (neg, body) = (case ws of [] \<Rightarrow> (False, [])
            | c # r \<Rightarrow> if c = 43 then (False, r) else if c = 45 then (True, r) else (False, ws));
          ds = takeWhile isdigit body;
          v = digits_value ds
      in if ds = [] then (0, str)
         else (if ULONG_MAX < v then ULONG_MAX else if neg then (- v) mod (ULONG_MAX + 1) else v, drop (length ds) body))"

text \<open>\<^verbatim>\<open>%ld\<close>\<close>

definition print_ld :: "int \<Rightarrow> bytes" where
  "print_ld n = (if n < 0 then 45 # bytes_of (decimal (nat (- n))) else bytes_of (decimal (nat n)))"

definition ascii_up :: "byte \<Rightarrow> byte" where
  "ascii_up b = (if 97 \<le> b \<and> b \<le> 122 then b - 32 else b)"

definition CRLF :: bytes where "CRLF = [13, 10]"

definition isxdigit :: "byte \<Rightarrow> bool" where
  "isxdigit b \<longleftrightarrow> 48 \<le> b \<and> b \<le> 57 \<or> 97 \<le> b \<and> b \<le> 102 \<or> 65 \<le> b \<and> b \<le> 70"

lemma unat_of_char: "unat (of_char c :: byte) = of_char c"
proof -
  have "unat (of_char c :: byte) = unat (of_nat (of_char c) :: byte)" by (simp only: of_nat_of_char)
  also have "\<dots> = of_char c mod 256" by (simp only: unat_of_nat) simp
  finally show ?thesis by (simp only: of_char_mod_256)
qed

lemma print_digits: "list_all isdigit (bytes_of (decimal n))" "digits_value (bytes_of (decimal n)) = int n"
proof -
  have le: "(48 \<le> (of_char c :: byte)) = (48 \<le> (of_char c :: nat))" "((of_char c :: byte) \<le> 57) = ((of_char c :: nat) \<le> 57)" for c
    by (simp_all add: word_le_nat_alt unat_of_char)
  show "list_all isdigit (bytes_of (decimal n))"
    using decimal_digits [of _ n] by (fastforce simp: list_all_iff bytes_of_def isdigit_def le)
  have fold: "foldl (\<lambda>a d. 10 * a + (uint d - 48)) (int k) (bytes_of cs) = int (foldl (\<lambda>a c. 10 * a + (of_char c - 48)) k cs)"
    if "\<forall>c\<in>set cs. 48 \<le> (of_char c :: nat)" for cs k
    using that
  proof (induction cs arbitrary: k)
    case (Cons c cs)
    have "10 * int k + (uint (of_char c :: byte) - 48) = int (10 * k + (of_char c - 48))"
      using Cons.prems by (simp add: uint_nat unat_of_char of_nat_diff)
    moreover have "bytes_of (c # cs) = of_char c # bytes_of cs" by (simp add: bytes_of_def)
    ultimately show ?case using Cons.IH [of "10 * k + (of_char c - 48)"] Cons.prems by (simp only: foldl_Cons list.set) simp
  qed (simp add: bytes_of_def)
  show "digits_value (bytes_of (decimal n)) = int n"
    using fold [of "decimal n" 0] decimal_digits [of _ n] undecimal_decimal [of n]
    by (simp add: digits_value_def undecimal_def)
qed

lemma strtol_print:
  assumes "LONG_MIN \<le> n" and "n \<le> LONG_MAX"
  shows "strtol (print_ld n) = (n, False, [])"
proof -
  let ?ds = "\<lambda>k. bytes_of (decimal k)"
  have ds: "takeWhile isdigit (?ds k) = ?ds k" "?ds k \<noteq> []" for k
    using print_digits(1) [of k] by (simp_all add: takeWhile_eq_all_conv list_all_iff) (simp add: bytes_of_def)
  have hd: "isdigit (hd (?ds k))" for k
    using print_digits(1) [of k] ds(2) [of k] by (cases "?ds k") auto
  have first: "dropWhile isspace (?ds k) = ?ds k" "\<exists>d ds. ?ds k = d # ds \<and> d \<noteq> 43 \<and> d \<noteq> 45" for k
  proof -
    from hd [of k] ds(2) [of k] obtain d r where k: "?ds k = d # r" "isdigit d" by (cases "?ds k") auto
    then have "\<not> isspace d" "d \<noteq> 43" "d \<noteq> 45"
      by (auto simp: isdigit_def isspace_def word_le_nat_alt)
    with k show "dropWhile isspace (?ds k) = ?ds k" "\<exists>d ds. ?ds k = d # ds \<and> d \<noteq> 43 \<and> d \<noteq> 45" by auto
  qed
  show ?thesis
  proof (cases "n < 0")
    case True
    then show ?thesis using assms by (simp add: print_ld_def strtol_def Let_def isspace_def print_digits(2) ds)
  next
    case False
    obtain d r where dr: "?ds (nat n) = d # r" "d \<noteq> 43" "d \<noteq> 45" using first(2) by blast
    from first(1) [of "nat n"] have drop: "dropWhile isspace (d # r) = d # r" by (simp only: dr)
    from dr show ?thesis
      using False assms print_digits(2) [of "nat n"] ds(1) [of "nat n"]
      by (simp add: print_ld_def strtol_def Let_def drop del: dropWhile.simps)
  qed
qed

end
