(* ===== verification/Pop3_Proxy.thy ===== *)
theory Pop3_Proxy
  imports Policy CString
begin

text \<open>
  The state of the POP3 proxy (\<^verbatim>\<open>modules/pop3/pop3.h\<close>), what it calls outside itself, the C string
  functions it uses and its output (\<^verbatim>\<open>modules/pop3/pop3.cc\<close>). An outside call (a write, a policy
  callback, stacking) is a function of the whole state, which carries the history of such calls,
  so it may answer differently every time. A policy callback may assign the attributes
  registered with \<^verbatim>\<open>Z_VAR_SET\<close>, collected in \<open>pop3_vars\<close>. A memory error or a failed assertion of the
  C code sets \<open>p3_crashed\<close>.
\<close>

section \<open>Constants\<close>

definition POP3_STATE_LISTEN :: int where "POP3_STATE_LISTEN = 0"
definition POP3_STATE_AUTH :: int where "POP3_STATE_AUTH = 1"
definition POP3_STATE_AUTH_U :: int where "POP3_STATE_AUTH_U = 2"
definition POP3_STATE_AUTH_A :: int where "POP3_STATE_AUTH_A = 4"
definition POP3_STATE_AUTH_A_CANCEL :: int where "POP3_STATE_AUTH_A_CANCEL = 8"
definition POP3_STATE_TRANS :: int where "POP3_STATE_TRANS = 16"
definition POP3_STATE_QUIT :: int where "POP3_STATE_QUIT = 32"

datatype pop3_proxy_state = POP3_SERVER | POP3_CLIENT | POP3_SERVER_MULTILINE

definition POP3_REQ_ACCEPT :: int where "POP3_REQ_ACCEPT = 1"
definition POP3_REQ_REJECT :: int where "POP3_REQ_REJECT = 3"
definition POP3_REQ_ABORT :: int where "POP3_REQ_ABORT = 4"
definition POP3_REQ_POLICY :: int where "POP3_REQ_POLICY = 6"
definition POP3_REQ_ACCEPT_MLINE :: int where "POP3_REQ_ACCEPT_MLINE = 100"

definition POP3_RSP_ACCEPT :: int where "POP3_RSP_ACCEPT = 1"
definition POP3_RSP_REJECT :: int where "POP3_RSP_REJECT = 3"
definition POP3_RSP_ABORT :: int where "POP3_RSP_ABORT = 4"

definition POP3_STK_NONE :: int where "POP3_STK_NONE = 1"
definition POP3_STK_DATA :: int where "POP3_STK_DATA = 2"
definition POP3_STK_MIME :: int where "POP3_STK_MIME = 3"
definition POP3_STK_POLICY :: int where "POP3_STK_POLICY = 6"

lemmas pop3_states = POP3_STATE_LISTEN_def POP3_STATE_AUTH_def POP3_STATE_AUTH_U_def POP3_STATE_AUTH_A_def
  POP3_STATE_AUTH_A_CANCEL_def POP3_STATE_TRANS_def POP3_STATE_QUIT_def

lemmas pop3_verdicts = POP3_REQ_ACCEPT_def POP3_REQ_REJECT_def POP3_REQ_ABORT_def POP3_REQ_POLICY_def
  POP3_REQ_ACCEPT_MLINE_def POP3_RSP_ACCEPT_def POP3_RSP_REJECT_def POP3_RSP_ABORT_def

section \<open>State\<close>

text \<open>What policy callbacks may assign.\<close>

record pop3_vars =
  command :: bytes
  command_param :: bytes
  response :: bytes
  response_param :: bytes
  response_multiline :: bool

datatype p3_event =
  P3Read endpoint giostatus bytes
| P3Write endpoint bytes giostatus
| P3Relay bytes
| P3Call pyval
| P3Method string
| P3Stack pyval bool

record Pop3Proxy =
  p3_vars :: pop3_vars
  policy_enable_longline :: bool
  max_username_length :: "32 word"
  max_password_length :: "32 word"
  commands_policy :: "bytes \<rightharpoonup> pyval"
  command_stack :: "bytes \<rightharpoonup> pyval"
  max_request_length :: "32 word"
  max_reply_length :: "32 word"
  permit_unknown_command :: bool
  buffer_length :: "32 word"
  max_authline_count :: "32 word"
  reject_by_mail :: bool
  pop3_state :: int
  p3_state :: pop3_proxy_state
  p3_username :: bytes
  p3_password :: bytes
  request_line :: bytes
  reply_line :: bytes
  command_desc :: "bytes option"
  timestamp :: bytes
  auth_lines :: "32 word"
  mail_from :: "bytes option"
  mail_to :: "bytes option"
  mail_subject :: "bytes option"
  p3_cond :: "endpoint \<Rightarrow> bool"
  p3_hist :: "p3_event list"
  p3_crashed :: bool

type_synonym 'a p3m = "(Pop3Proxy, 'a) state"

section \<open>The outside\<close>

text \<open>
  \<open>px_call\<close> calls a policy function: the code passes it the address of a string object, so what it
  receives is no part of the state; it may read every attribute. \<open>px_errno\<close> tells whether an
  earlier library call left \<^verbatim>\<open>ERANGE\<close> in \<^verbatim>\<open>errno\<close>, which the code never resets.
\<close>

record pop3_ext =
  px_write :: "Pop3Proxy \<Rightarrow> endpoint \<Rightarrow> bytes \<Rightarrow> giostatus"
  px_call :: "Pop3Proxy \<Rightarrow> pyval \<Rightarrow> pyval option \<times> pop3_vars"
  px_method :: "Pop3Proxy \<Rightarrow> string \<Rightarrow> pop3_vars"
  px_stack_object :: "Pop3Proxy \<Rightarrow> pyval \<Rightarrow> bool"
  px_error_file :: "Pop3Proxy \<Rightarrow> bytes \<Rightarrow> bytes option"
  px_errno :: "Pop3Proxy \<Rightarrow> bool"

definition p3_log :: "p3_event \<Rightarrow> unit p3m" where
  "p3_log e = modify (\<lambda>s. s\<lparr>p3_hist := e # p3_hist s\<rparr>)"

definition p3_crash :: "unit p3m" where
  "p3_crash = modify (\<lambda>s. s\<lparr>p3_crashed := True\<rparr>)"

definition p3_upd :: "(pop3_vars \<Rightarrow> pop3_vars) \<Rightarrow> unit p3m" where
  "p3_upd f = modify (\<lambda>s. s\<lparr>p3_vars := f (p3_vars s)\<rparr>)"

definition set_pop3_state :: "int \<Rightarrow> unit p3m" where
  "set_pop3_state n = modify (\<lambda>s. s\<lparr>pop3_state := n\<rparr>)"

definition set_p3_state :: "pop3_proxy_state \<Rightarrow> unit p3m" where
  "set_p3_state n = modify (\<lambda>s. s\<lparr>p3_state := n\<rparr>)"

definition p3_call :: "pop3_ext \<Rightarrow> pyval \<Rightarrow> pyval option p3m" where
  "p3_call x f = do {
     s \<leftarrow> gets (\<lambda>s. s);
     p3_log (P3Call f);
     p3_upd (\<lambda>_. snd (px_call x s f));
     return (fst (px_call x s f))
   }"

definition p3_method :: "pop3_ext \<Rightarrow> string \<Rightarrow> unit p3m" where
  "p3_method x name = do {
     s \<leftarrow> gets (\<lambda>s. s);
     p3_log (P3Method name);
     p3_upd (\<lambda>_. px_method x s name)
   }"

definition p3_report_policy_abort :: "pop3_ext \<Rightarrow> unit p3m" where
  "p3_report_policy_abort x = p3_method x ''closedByAbort''"

definition p3_report_invalid_policy :: "pop3_ext \<Rightarrow> unit p3m" where
  "p3_report_invalid_policy x = p3_method x ''invalidPolicyCall''"

section \<open>C strings and numbers\<close>

text \<open>Formatting into a buffer of the given size: a size that wrapped around to zero leaves it without
  its terminating NUL, and the caller reads on behind it.\<close>

definition bounded_copy :: "32 word \<Rightarrow> bytes \<Rightarrow> bytes p3m" where
  "bounded_copy n bs =
     (if n = 0 then do { p3_crash; return [] } else return (take (unat n - 1) bs))"

section \<open>Output\<close>

definition p3_write :: "pop3_ext \<Rightarrow> endpoint \<Rightarrow> bytes \<Rightarrow> giostatus p3m" where
  "p3_write x ep msg = do {
     s \<leftarrow> gets (\<lambda>s. s);
     p3_log (P3Write ep (cstr msg) (px_write x s ep (cstr msg)));
     return (px_write x s ep (cstr msg))
   }"

definition pop3_write_client :: "pop3_ext \<Rightarrow> bytes \<Rightarrow> giostatus p3m" where
  "pop3_write_client x msg = p3_write x EP_CLIENT msg"

definition pop3_write_server :: "pop3_ext \<Rightarrow> bytes \<Rightarrow> giostatus p3m" where
  "pop3_write_server x msg = p3_write x EP_SERVER msg"

text \<open>A mail that tells the client that its contents were rejected. An empty error file makes the test
  for its last byte read in front of it.\<close>

definition pop3_error_msg :: "pop3_ext \<Rightarrow> bytes \<Rightarrow> unit p3m" where
  "pop3_error_msg x additional_info = do {
     s \<leftarrow> gets (\<lambda>s. s);
     case px_error_file x s additional_info of
       None \<Rightarrow> do { pop3_write_client x (bytes_of ''.'' @ CRLF); return () }
     | Some error_msg \<Rightarrow> do {
         rc \<leftarrow> pop3_write_client x
           (take 511 (bytes_of ''+OK '' @ bytes_of (decimal (length (cstr error_msg))) @ bytes_of '' octets'' @ CRLF));
         if rc \<noteq> G_IO_STATUS_NORMAL then return ()
         else do {
           rc \<leftarrow> pop3_write_client x error_msg;
           if rc \<noteq> G_IO_STATUS_NORMAL then return ()
           else if cstr error_msg = [] then p3_crash
           else if last (cstr error_msg) \<noteq> 10 then do {
             rc \<leftarrow> pop3_write_client x CRLF;
             if rc \<noteq> G_IO_STATUS_NORMAL then return ()
             else do { pop3_write_client x (bytes_of ''.'' @ CRLF); return () }
           }
           else do { pop3_write_client x (bytes_of ''.'' @ CRLF); return () }
         }
       }
   }"

definition pop3_response_write :: "pop3_ext \<Rightarrow> unit p3m" where
  "pop3_response_write x = do {
     v \<leftarrow> gets p3_vars;
     n \<leftarrow> gets max_reply_length;
     newline \<leftarrow> bounded_copy (n + 3)
       (if response_param v \<noteq> [] then cstr (response v) @ [32] @ cstr (response_param v) @ CRLF
        else cstr (response v) @ CRLF);
     pop3_write_client x newline;
     return ()
   }"

definition pop3_response_reject :: "pop3_ext \<Rightarrow> bytes option \<Rightarrow> unit p3m" where
  "pop3_response_reject x error_msg = do {
     pop3_write_client x
       (take 1023 (bytes_of ''-ERR '' @ cstr (case error_msg of None \<Rightarrow> bytes_of ''Error in protocol'' | Some m \<Rightarrow> m) @ CRLF));
     return ()
   }"

definition pop3_command_write :: "pop3_ext \<Rightarrow> unit p3m" where
  "pop3_command_write x = do {
     v \<leftarrow> gets p3_vars;
     n \<leftarrow> gets max_request_length;
     newline \<leftarrow> bounded_copy (n + 3)
       (if command_param v \<noteq> [] then cstr (command v) @ [32] @ cstr (command_param v) @ CRLF
        else cstr (command v) @ CRLF);
     pop3_write_server x newline;
     return ()
   }"

definition pop3_command_reject :: "pop3_ext \<Rightarrow> unit p3m" where
  "pop3_command_reject x = do {
     v \<leftarrow> gets p3_vars;
     n \<leftarrow> gets max_reply_length;
     newline \<leftarrow> bounded_copy (n + 1) (cstr (response v) @ [32] @ cstr (response_param v) @ CRLF);
     pop3_write_client x newline;
     return ()
   }"

section \<open>The state of a new proxy\<close>

definition pop3_set_defaults :: Pop3Proxy where
  "pop3_set_defaults = \<lparr>
     p3_vars = \<lparr>command = [], command_param = [], response = [], response_param = [], response_multiline = False\<rparr>,
     policy_enable_longline = True, max_username_length = 32, max_password_length = 32,
     commands_policy = Map.empty, command_stack = Map.empty, max_request_length = 90, max_reply_length = 512,
     permit_unknown_command = False, buffer_length = 4096, max_authline_count = 4, reject_by_mail = True,
     pop3_state = POP3_STATE_LISTEN, p3_state = POP3_SERVER, p3_username = [], p3_password = [],
     request_line = [], reply_line = [], command_desc = None, timestamp = [], auth_lines = 0,
     mail_from = None, mail_to = None, mail_subject = None, p3_cond = (\<lambda>_. False), p3_hist = [], p3_crashed = False\<rparr>"

text \<open>An outside that accepts every write and has a policy without functions, for samples.\<close>

definition quiet_pop3 :: pop3_ext where
  "quiet_pop3 = \<lparr>px_write = (\<lambda>_ _ _. G_IO_STATUS_NORMAL), px_call = (\<lambda>s _. (None, p3_vars s)), px_method = (\<lambda>s _. p3_vars s),
     px_stack_object = (\<lambda>_ _. True), px_error_file = (\<lambda>_ _. None), px_errno = (\<lambda>_. False)\<rparr>"

end
