(* ===== verification/Pop3_Cmd.thy ===== *)
theory Pop3_Cmd
  imports Pop3_Proxy
begin

text \<open>
  The commands of \<^verbatim>\<open>modules/pop3/pop3cmd.cc\<close>: how the parameters of a request are checked and
  rewritten, how a response moves the session on, and the table of known commands.
\<close>

unbundle bit_operations_syntax

section \<open>Requests\<close>

definition Pop3ParseNoarg :: "pop3_ext \<Rightarrow> int p3m" where
  "Pop3ParseNoarg x = do { p3_upd (\<lambda>v. v\<lparr>command_param := []\<rparr>); return POP3_REQ_ACCEPT }"

definition Pop3ParseNum_One :: "pop3_ext \<Rightarrow> int p3m" where
  "Pop3ParseNum_One x = do {
     s \<leftarrow> gets (\<lambda>s. s);
     let str = cstr (command_param (p3_vars s));
     case strtol str of (arg, erange, rest) \<Rightarrow>
       if rest = str then return POP3_REQ_ABORT
       else if erange \<or> px_errno x s then return POP3_REQ_ABORT
       else if arg < 0 then return POP3_REQ_ABORT
       else if arg = 0 then return POP3_REQ_ABORT
       else do { p3_upd (\<lambda>v. v\<lparr>command_param := print_ld arg\<rparr>); return POP3_REQ_ACCEPT }
   }"

definition Pop3ParseNum_OneOptional :: "pop3_ext \<Rightarrow> int p3m" where
  "Pop3ParseNum_OneOptional x = do {
     v \<leftarrow> gets p3_vars;
     if cstr (command_param v) = [] then return POP3_REQ_ACCEPT
     else do { p3_upd (\<lambda>v. v\<lparr>response_multiline := False\<rparr>); Pop3ParseNum_One x }
   }"

definition Pop3ParseNum_Two :: "pop3_ext \<Rightarrow> int p3m" where
  "Pop3ParseNum_Two x = do {
     s \<leftarrow> gets (\<lambda>s. s);
     case strtol (cstr (command_param (p3_vars s))) of (arg1, erange1, rest1) \<Rightarrow>
       if erange1 \<or> px_errno x s then return POP3_REQ_ABORT
       else if arg1 < 0 then return POP3_REQ_ABORT
       else if rest1 = [] then return POP3_REQ_REJECT
       else (case strtol rest1 of (arg2, erange2, rest2) \<Rightarrow>
         if erange2 then return POP3_REQ_ABORT
         else if arg2 < 0 then return POP3_REQ_ABORT
         else do {
           newline \<leftarrow> bounded_copy (max_reply_length s) (print_ld arg1 @ [32] @ print_ld arg2);
           p3_upd (\<lambda>v. v\<lparr>command_param := newline\<rparr>);
           return POP3_REQ_ACCEPT
         })
   }"

definition Pop3ParseRETR :: "pop3_ext \<Rightarrow> int p3m" where
  "Pop3ParseRETR x = Pop3ParseNum_One x"

definition Pop3ParseUSER :: "pop3_ext \<Rightarrow> int p3m" where
  "Pop3ParseUSER x = do {
     s \<leftarrow> gets (\<lambda>s. s);
     if length (command_param (p3_vars s)) \<le> unat (max_username_length s) then do {
       username \<leftarrow> bounded_copy (max_username_length s + 1) (cstr (command_param (p3_vars s)));
       modify (\<lambda>s. s\<lparr>p3_username := username\<rparr>);
       return POP3_REQ_ACCEPT
     }
     else return POP3_REQ_REJECT
   }"

definition Pop3ParsePASS :: "pop3_ext \<Rightarrow> int p3m" where
  "Pop3ParsePASS x = do {
     s \<leftarrow> gets (\<lambda>s. s);
     if length (command_param (p3_vars s)) \<le> unat (max_password_length s) then do {
       password \<leftarrow> bounded_copy (max_password_length s + 1) (cstr (command_param (p3_vars s)));
       modify (\<lambda>s. s\<lparr>p3_password := password\<rparr>);
       return POP3_REQ_ACCEPT
     }
     else return POP3_REQ_REJECT
   }"

text \<open>The name ends at the first blank or at its greatest length; a space must follow, then at least 32
  hexadecimal digits.\<close>

definition Pop3ParseAPOP :: "pop3_ext \<Rightarrow> int p3m" where
  "Pop3ParseAPOP x = do {
     s \<leftarrow> gets (\<lambda>s. s);
     let buf = cstr (command_param (p3_vars s));
     let name = take (unat (max_username_length s)) (takeWhile (\<lambda>b. b \<noteq> 32) buf);
     let rest = drop (length name) buf;
     (if max_username_length s + 1 = 0 then p3_crash else return ());
     if rest = [] \<or> hd rest \<noteq> 32 then return POP3_REQ_REJECT
     else do {
       modify (\<lambda>s. s\<lparr>p3_username := name\<rparr>);
       if length (takeWhile isxdigit (dropWhile (\<lambda>b. b = 32) rest)) < 32 then return POP3_REQ_REJECT
       else return POP3_REQ_ACCEPT
     }
   }"

definition Pop3ParseAUTH :: "pop3_ext \<Rightarrow> int p3m" where
  "Pop3ParseAUTH x = do {
     set_pop3_state POP3_STATE_AUTH_A;
     modify (\<lambda>s. s\<lparr>auth_lines := 0\<rparr>);
     return POP3_RSP_ACCEPT
   }"

section \<open>Responses\<close>

definition OK :: bytes where "OK = bytes_of ''+OK''"
definition ERR :: bytes where "ERR = bytes_of ''-ERR''"

definition Pop3AnswerParseUSER :: "pop3_ext \<Rightarrow> int p3m" where
  "Pop3AnswerParseUSER x = do {
     v \<leftarrow> gets p3_vars;
     (if cstr (response v) = OK then set_pop3_state POP3_STATE_AUTH_U else return ());
     return POP3_RSP_ACCEPT
   }"

definition Pop3AnswerParsePASS :: "pop3_ext \<Rightarrow> int p3m" where
  "Pop3AnswerParsePASS x = do {
     v \<leftarrow> gets p3_vars;
     set_pop3_state (if cstr (response v) = OK then POP3_STATE_TRANS else POP3_STATE_AUTH);
     return POP3_RSP_ACCEPT
   }"

definition Pop3AnswerParseAPOP :: "pop3_ext \<Rightarrow> int p3m" where
  "Pop3AnswerParseAPOP x = do {
     v \<leftarrow> gets p3_vars;
     set_pop3_state (if cstr (response v) = OK then POP3_STATE_TRANS else POP3_STATE_AUTH);
     return POP3_RSP_ACCEPT
   }"

definition Pop3AnswerParseQUIT :: "pop3_ext \<Rightarrow> int p3m" where
  "Pop3AnswerParseQUIT x = do { set_pop3_state POP3_STATE_QUIT; return POP3_RSP_ACCEPT }"

definition Pop3AnswerParseNum_One :: "pop3_ext \<Rightarrow> int p3m" where
  "Pop3AnswerParseNum_One x = do {
     s \<leftarrow> gets (\<lambda>s. s);
     let str = cstr (response_param (p3_vars s));
     if cstr (response (p3_vars s)) = ERR then return POP3_RSP_ACCEPT
     else (case strtol str of (arg, erange, rest) \<Rightarrow>
       if rest = str then return POP3_RSP_ABORT
       else if erange \<or> px_errno x s then return POP3_RSP_ABORT
       else if arg < 0 then return POP3_RSP_ABORT
       else do {
         newline \<leftarrow> bounded_copy (max_reply_length s) (print_ld arg);
         p3_upd (\<lambda>v. v\<lparr>response_param := newline\<rparr>);
         return POP3_RSP_ACCEPT
       })
   }"

definition Pop3AnswerParseNum_Two :: "pop3_ext \<Rightarrow> int p3m" where
  "Pop3AnswerParseNum_Two x = do {
     s \<leftarrow> gets (\<lambda>s. s);
     let str = cstr (response_param (p3_vars s));
     if cstr (response (p3_vars s)) = ERR then return POP3_RSP_ACCEPT
     else (case strtol str of (arg1, erange1, rest1) \<Rightarrow>
       if erange1 \<or> px_errno x s then return POP3_RSP_ABORT
       else if rest1 = str then return POP3_REQ_ABORT
       else if arg1 < 0 then return POP3_RSP_ABORT
       else (case strtol rest1 of (arg2, erange2, rest2) \<Rightarrow>
         if erange2 then return POP3_RSP_ABORT
         else if rest2 = rest1 then return POP3_REQ_ABORT
         else if arg2 < 0 then return POP3_RSP_ABORT
         else do {
           newline \<leftarrow> bounded_copy (max_reply_length s) (print_ld arg1 @ [32] @ print_ld arg2);
           p3_upd (\<lambda>v. v\<lparr>response_param := newline\<rparr>);
           return POP3_RSP_ACCEPT
         }))
   }"

section \<open>The table of known commands\<close>

record Pop3InternalCommands =
  command_parse :: "pop3_ext \<Rightarrow> int p3m"
  multi_line_response :: bool
  response_parse :: "(pop3_ext \<Rightarrow> int p3m) option"
  allowed_states :: int

definition known_commands :: "(bytes \<times> Pop3InternalCommands) list" where
  "known_commands = [
     (bytes_of ''APOP'', \<lparr>command_parse = Pop3ParseAPOP, multi_line_response = False,
        response_parse = Some Pop3AnswerParseAPOP, allowed_states = POP3_STATE_AUTH\<rparr>),
     (bytes_of ''DELE'', \<lparr>command_parse = Pop3ParseNum_One, multi_line_response = False,
        response_parse = None, allowed_states = POP3_STATE_TRANS\<rparr>),
     (bytes_of ''LIST'', \<lparr>command_parse = Pop3ParseNum_OneOptional, multi_line_response = True,
        response_parse = None, allowed_states = POP3_STATE_TRANS\<rparr>),
     (bytes_of ''LAST'', \<lparr>command_parse = Pop3ParseNoarg, multi_line_response = False,
        response_parse = Some Pop3AnswerParseNum_One, allowed_states = POP3_STATE_TRANS\<rparr>),
     (bytes_of ''NOOP'', \<lparr>command_parse = Pop3ParseNoarg, multi_line_response = False,
        response_parse = None, allowed_states = POP3_STATE_TRANS\<rparr>),
     (bytes_of ''PASS'', \<lparr>command_parse = Pop3ParsePASS, multi_line_response = False,
        response_parse = Some Pop3AnswerParsePASS, allowed_states = POP3_STATE_AUTH_U\<rparr>),
     (bytes_of ''QUIT'', \<lparr>command_parse = Pop3ParseNoarg, multi_line_response = False,
        response_parse = Some Pop3AnswerParseQUIT,
        allowed_states = POP3_STATE_AUTH OR POP3_STATE_AUTH_U OR POP3_STATE_TRANS\<rparr>),
     (bytes_of ''RETR'', \<lparr>command_parse = Pop3ParseRETR, multi_line_response = True,
        response_parse = None, allowed_states = POP3_STATE_TRANS\<rparr>),
     (bytes_of ''RSET'', \<lparr>command_parse = Pop3ParseNoarg, multi_line_response = False,
        response_parse = None, allowed_states = POP3_STATE_TRANS\<rparr>),
     (bytes_of ''STAT'', \<lparr>command_parse = Pop3ParseNoarg, multi_line_response = False,
        response_parse = Some Pop3AnswerParseNum_Two, allowed_states = POP3_STATE_TRANS\<rparr>),
     (bytes_of ''TOP'', \<lparr>command_parse = Pop3ParseNum_Two, multi_line_response = True,
        response_parse = None, allowed_states = POP3_STATE_TRANS\<rparr>),
     (bytes_of ''UIDL'', \<lparr>command_parse = Pop3ParseNum_OneOptional, multi_line_response = True,
        response_parse = None, allowed_states = POP3_STATE_TRANS\<rparr>),
     (bytes_of ''USER'', \<lparr>command_parse = Pop3ParseUSER, multi_line_response = False,
        response_parse = Some Pop3AnswerParseUSER, allowed_states = POP3_STATE_AUTH\<rparr>),
     (bytes_of ''AUTH'', \<lparr>command_parse = Pop3ParseAUTH, multi_line_response = False,
        response_parse = None, allowed_states = POP3_STATE_AUTH\<rparr>)]"

definition known_command :: "bytes \<Rightarrow> Pop3InternalCommands option" where
  "known_command name = map_of known_commands name"

section \<open>Numbers\<close>

text \<open>A message number is forwarded in one spelling only. When the argument of a command is accepted,
  \<^verbatim>\<open>strtol\<close> found a positive number in it, and the argument that goes to the server consists of the
  decimal digits of exactly this number: leading blanks, signs, zeros and whatever followed are gone,
  and a reader that parses the whole argument gets the same number.\<close>

theorem pop3_number_canonical:
  assumes "run_state (Pop3ParseNum_One x) s = (POP3_REQ_ACCEPT, s')"
  shows "\<exists>n rest. strtol (cstr (command_param (p3_vars s))) = (n, False, rest) \<and> 0 < n \<and> n \<le> LONG_MAX \<and>
    command_param (p3_vars s') \<noteq> [] \<and> list_all isdigit (command_param (p3_vars s')) \<and>
    strtol (command_param (p3_vars s')) = (n, False, [])"
proof -
  let ?str = "cstr (command_param (p3_vars s))"
  obtain n e rest where n: "strtol ?str = (n, e, rest)" by (metis surj_pair)
  have run: "\<not> e" "0 < n" "command_param (p3_vars s') = print_ld n"
    using assms n
    by (auto simp: Pop3ParseNum_One_def Let_def p3_upd_def pop3_verdicts split: if_splits)
  have "LONG_MIN \<le> n" "n \<le> LONG_MAX"
    using n by (auto simp: strtol_def Let_def LONG_MIN_def LONG_MAX_def split: if_splits list.splits)
  with run n print_digits(1) [of "nat n"] show ?thesis
    by (auto simp: strtol_print) (auto simp: print_ld_def bytes_of_def)
qed

theorem pop3_number_canonical_witness:
  "\<exists>s s'. cstr (command_param (p3_vars s)) = bytes_of '' +007,8'' \<and>
     run_state (Pop3ParseNum_One quiet_pop3) s = (POP3_REQ_ACCEPT, s') \<and> list_all isdigit (command_param (p3_vars s'))"
proof -
  let ?s = "pop3_set_defaults\<lparr>p3_vars := (p3_vars pop3_set_defaults)\<lparr>command_param := bytes_of '' +007,8''\<rparr>\<rparr>"
  have str: "cstr (command_param (p3_vars ?s)) = bytes_of '' +007,8''" by (simp add: cstr_def bytes_of_def)
  have "strtol (bytes_of '' +007,8'') = (7, False, bytes_of '',8'')"
    by (simp add: strtol_def isspace_def isdigit_def digits_value_def LONG_MIN_def LONG_MAX_def bytes_of_def Let_def)
  with str have "\<exists>s'. run_state (Pop3ParseNum_One quiet_pop3) ?s = (POP3_REQ_ACCEPT, s')"
    by (simp add: Pop3ParseNum_One_def quiet_pop3_def Let_def p3_upd_def) (simp add: bytes_of_def)
  then obtain s' where run: "run_state (Pop3ParseNum_One quiet_pop3) ?s = (POP3_REQ_ACCEPT, s')" by blast
  from pop3_number_canonical [OF this] str run show ?thesis by blast
qed

end
