(* ===== verification/Pop3_Policy.thy ===== *)
theory Pop3_Policy
  imports Pop3_Cmd
begin

text \<open>
  The policy decisions of \<^verbatim>\<open>modules/pop3/pop3policy.cc\<close>: on a request, on a response, and on what to
  stack for the data of a response.
\<close>

fun parse_iOO :: "pyval \<Rightarrow> (int \<times> pyval \<times> pyval) option" where
  "parse_iOO (PySeq [a, b, c]) = (case parse_i a of None \<Rightarrow> None | Some n \<Rightarrow> Some (n, b, c))"
| "parse_iOO _ = None"

definition pop3_policy_command_hash_search :: "bytes \<Rightarrow> Pop3Proxy \<Rightarrow> bool" where
  "pop3_policy_command_hash_search cmd s \<longleftrightarrow> commands_policy s cmd \<noteq> None"

text \<open>The type of an entry. The first item of an empty sequence is NULL, which is parsed all the same.\<close>

definition pop3_hash_get_type :: "pyval \<Rightarrow> int option p3m" where
  "pop3_hash_get_type tuple =
     (if \<not> seq_check tuple then return (parse_i tuple)
      else case seq_getitem0 tuple of
        None \<Rightarrow> do { p3_crash; return None }
      | Some item \<Rightarrow> return (parse_i item))"

text \<open>The two callbacks of a policy entry: \<open>(type, request)\<close> or \<open>(type, request, response)\<close>.\<close>

definition policy_callbacks :: "pyval \<Rightarrow> (pyval \<times> pyval option) option" where
  "policy_callbacks entry =
     (case parse_iOO entry of
        Some (_, command_where, answer_where) \<Rightarrow> Some (command_where, Some answer_where)
      | None \<Rightarrow> map_option (\<lambda>(_, command_where). (command_where, None)) (parse_iO entry))"

definition hash_entry :: "(bytes \<rightharpoonup> pyval) \<Rightarrow> bytes \<Rightarrow> pyval option" where
  "hash_entry hash name = (case hash name of None \<Rightarrow> hash (bytes_of ''*'') | Some e \<Rightarrow> Some e)"

section \<open>Requests\<close>

definition request_verdict :: "pop3_ext \<Rightarrow> pyval option \<Rightarrow> int p3m" where
  "request_verdict x res =
     (case res of
        None \<Rightarrow> do { p3_report_policy_abort x; return POP3_REQ_ABORT }
      | Some r \<Rightarrow>
          (case parse_i r of
             None \<Rightarrow> do { p3_report_policy_abort x; return POP3_REQ_ABORT }
           | Some rc \<Rightarrow>
               if rc = POP3_REQ_ACCEPT_MLINE then do {
                 p3_upd (\<lambda>v. v\<lparr>response_multiline := True\<rparr>);
                 return POP3_REQ_ACCEPT
               }
               else if rc = POP3_REQ_ACCEPT then return POP3_REQ_ACCEPT
               else if rc = zv_code ZV_UNSPEC \<or> rc = zv_code ZV_DROP \<or> rc = POP3_REQ_REJECT then return POP3_REQ_REJECT
               else do { p3_report_policy_abort x; return POP3_REQ_ABORT }))"

definition pop3_policy_command_hash_do :: "pop3_ext \<Rightarrow> int p3m" where
  "pop3_policy_command_hash_do x = do {
     s \<leftarrow> gets (\<lambda>s. s);
     case hash_entry (commands_policy s) (cstr (command (p3_vars s))) of
       None \<Rightarrow> return POP3_REQ_REJECT
     | Some tmp \<Rightarrow> do {
         command_do \<leftarrow> pop3_hash_get_type tmp;
         case command_do of
           None \<Rightarrow> do { p3_report_invalid_policy x; return POP3_REQ_ABORT }
         | Some command_do \<Rightarrow>
             if command_do = POP3_REQ_ACCEPT_MLINE then do {
               p3_upd (\<lambda>v. v\<lparr>response_multiline := True\<rparr>);
               return command_do
             }
             else if command_do = POP3_REQ_REJECT \<or> command_do = POP3_REQ_ACCEPT then return command_do
             else if command_do = POP3_REQ_POLICY then
               (case policy_callbacks tmp of
                  None \<Rightarrow> do { p3_report_invalid_policy x; return POP3_REQ_ABORT }
                | Some (command_where, _) \<Rightarrow> do {
                    res \<leftarrow> p3_call x command_where;
                    request_verdict x res
                  })
             else do { p3_report_policy_abort x; return POP3_REQ_ABORT }
       }
   }"

section \<open>Responses\<close>

definition response_verdict :: "pop3_ext \<Rightarrow> pyval option \<Rightarrow> int p3m" where
  "response_verdict x res =
     (case res of
        None \<Rightarrow> do { p3_report_policy_abort x; return POP3_RSP_ABORT }
      | Some r \<Rightarrow>
          (case parse_i r of
             None \<Rightarrow> do { p3_report_policy_abort x; return POP3_RSP_ABORT }
           | Some rc \<Rightarrow>
               if rc = POP3_RSP_ACCEPT then return rc
               else if rc = zv_code ZV_UNSPEC \<or> rc = POP3_RSP_REJECT then return POP3_RSP_REJECT
               else do { p3_report_policy_abort x; return POP3_RSP_ABORT }))"

definition pop3_policy_response_hash_do :: "pop3_ext \<Rightarrow> int p3m" where
  "pop3_policy_response_hash_do x = do {
     s \<leftarrow> gets (\<lambda>s. s);
     case hash_entry (commands_policy s)
            (if command (p3_vars s) \<noteq> [] then cstr (command (p3_vars s)) else bytes_of ''GREETING'') of
       None \<Rightarrow> return POP3_RSP_REJECT
     | Some tmp \<Rightarrow> do {
         command_do \<leftarrow> pop3_hash_get_type tmp;
         case command_do of
           None \<Rightarrow> do { p3_report_invalid_policy x; return POP3_RSP_ABORT }
         | Some command_do \<Rightarrow>
             if command_do = POP3_REQ_ACCEPT_MLINE \<or> command_do = POP3_REQ_ACCEPT then return POP3_RSP_ACCEPT
             else if command_do = POP3_REQ_POLICY then
               (case policy_callbacks tmp of
                  None \<Rightarrow> do { p3_report_invalid_policy x; return POP3_RSP_ABORT }
                | Some (_, None) \<Rightarrow> return POP3_RSP_ACCEPT
                | Some (_, Some answer_where) \<Rightarrow> do {
                    res \<leftarrow> p3_call x answer_where;
                    response_verdict x res
                  })
             else do { p3_report_policy_abort x; return POP3_RSP_ABORT }
       }
   }"

section \<open>Stacking\<close>

text \<open>What the callback of a stack entry answers: a type, or a type and what to stack.\<close>

definition parse_stack :: "pyval \<Rightarrow> (int \<times> pyval option) option" where
  "parse_stack res =
     (case parse_i res of
        Some rc \<Rightarrow> Some (rc, None)
      | None \<Rightarrow> map_option (\<lambda>(rc, stack_proxy). (rc, Some stack_proxy)) (parse_iO res))"

definition stack_object :: "pop3_ext \<Rightarrow> pyval \<Rightarrow> bool p3m" where
  "stack_object x stack_proxy = do {
     s \<leftarrow> gets (\<lambda>s. s);
     p3_log (P3Stack stack_proxy (px_stack_object x s stack_proxy));
     return (px_stack_object x s stack_proxy)
   }"

text \<open>Success, and whether something was stacked. An entry of another type stacks nothing.\<close>

definition pop3_policy_stack_hash_do :: "pop3_ext \<Rightarrow> (bool \<times> bool) p3m" where
  "pop3_policy_stack_hash_do x = do {
     s \<leftarrow> gets (\<lambda>s. s);
     case hash_entry (command_stack s) (cstr (command (p3_vars s))) of
       None \<Rightarrow> return (True, False)
     | Some tmp \<Rightarrow> do {
         command_do \<leftarrow> pop3_hash_get_type tmp;
         case command_do of
           None \<Rightarrow> do { p3_report_invalid_policy x; return (False, False) }
         | Some command_do \<Rightarrow>
             if command_do = POP3_STK_DATA \<or> command_do = POP3_STK_MIME then
               (case parse_iO tmp of
                  None \<Rightarrow> do { p3_report_invalid_policy x; return (False, False) }
                | Some (rc, stack_proxy) \<Rightarrow>
                    if rc \<noteq> POP3_STK_NONE then do { ok \<leftarrow> stack_object x stack_proxy; return (ok, ok) }
                    else return (True, False))
             else if command_do = POP3_STK_POLICY then
               (case parse_iO tmp of
                  None \<Rightarrow> do { p3_report_invalid_policy x; return (False, False) }
                | Some (_, command_where) \<Rightarrow> do {
                    res \<leftarrow> p3_call x command_where;
                    (case res of
                       None \<Rightarrow> do { p3_report_policy_abort x; return (False, False) }
                     | Some r \<Rightarrow>
                         (case parse_stack r of
                            None \<Rightarrow> do { p3_report_policy_abort x; return (False, False) }
                          | Some (rc, Some stack_proxy) \<Rightarrow>
                              if rc \<noteq> POP3_STK_NONE then do { ok \<leftarrow> stack_object x stack_proxy; return (ok, ok) }
                              else return (True, False)
                          | Some (rc, None) \<Rightarrow> return (True, False)))
                  })
             else return (True, False)
       }
   }"

end
