(* ===== verification/Transfer_Refine.thy ===== *)
theory Transfer_Refine
  imports Transfer2
begin

text \<open>
  Transfer classes that extend another one (\<^verbatim>\<open>Z_CLASS_DEF\<close> with a superclass): when the functions of
  the extended class agree with those of the superclass on the superclass' part of the state, a
  whole transfer does. The projection acts on the extension part of the record.
\<close>

definition zt2_map :: "('a \<Rightarrow> 'b) \<Rightarrow> 'a ZTransfer2_scheme \<Rightarrow> 'b ZTransfer2_scheme" where
  "zt2_map m s = ZTransfer2.extend (ZTransfer2.truncate s) (m (ZTransfer2.more s))"

lemma zt2_map_fields [simp]:
  "t_buffers (zt2_map m s) = t_buffers s" "t_buffer_size (zt2_map m s) = t_buffer_size s"
  "t_flags (zt2_map m s) = t_flags s" "t_stacked (zt2_map m s) = t_stacked s" "t_status (zt2_map m s) = t_status s"
  "t_cond_in (zt2_map m s) = t_cond_in s" "t_cond_out (zt2_map m s) = t_cond_out s"
  "t_reads (zt2_map m s) = t_reads s" "t_writes (zt2_map m s) = t_writes s" "t_sent (zt2_map m s) = t_sent s"
  "t_shut (zt2_map m s) = t_shut s"
  by (simp_all add: zt2_map_def ZTransfer2.defs)

lemma zt2_map_updates [simp]:
  "zt2_map m (s\<lparr>t_buffers := b\<rparr>) = (zt2_map m s)\<lparr>t_buffers := b\<rparr>"
  "zt2_map m (s\<lparr>t_status := st\<rparr>) = (zt2_map m s)\<lparr>t_status := st\<rparr>"
  "zt2_map m (s\<lparr>t_cond_in := ci, t_cond_out := co\<rparr>) = (zt2_map m s)\<lparr>t_cond_in := ci, t_cond_out := co\<rparr>"
  "zt2_map m (s\<lparr>t_reads := r\<rparr>) = (zt2_map m s)\<lparr>t_reads := r\<rparr>"
  "zt2_map m (s\<lparr>t_writes := w, t_sent := sn\<rparr>) = (zt2_map m s)\<lparr>t_writes := w, t_sent := sn\<rparr>"
  "zt2_map m (s\<lparr>t_shut := sh\<rparr>) = (zt2_map m s)\<lparr>t_shut := sh\<rparr>"
  by (simp_all add: zt2_map_def ZTransfer2.defs)

text \<open>The operations that do not depend on the class commute with the projection.\<close>

lemma zt2_map_base [simp]:
  "zt2_map m (z_transfer2_update_status bits e s) = z_transfer2_update_status bits e (zt2_map m s)"
  "z_transfer2_get_status (zt2_map m s) bits = z_transfer2_get_status s bits"
  "zt2_map m (upd_buffer i f s) = upd_buffer i f (zt2_map m s)"
  "zt2_map m (z_stream_shutdown ep s) = z_stream_shutdown ep (zt2_map m s)"
  "zt2_map m (copy_reset i s) = copy_reset i (zt2_map m s)"
  "zt2_map m (set_conds ci co s) = set_conds ci co (zt2_map m s)"
  "zt2_map m (z_transfer2_update_cond s) = z_transfer2_update_cond (zt2_map m s)"
  "run_result (zt2_map m s) = run_result s"
  by (simp_all add: z_transfer2_update_status_def z_transfer2_get_status_def upd_buffer_def z_stream_shutdown_def
      copy_reset_def set_conds_def z_transfer2_update_cond_def run_result_def Let_def)

lemma zt2_map_streams [simp]:
  "z_stream_read ep n (zt2_map m s) = map_prod id (zt2_map m) (z_stream_read ep n s)"
  "z_stream_write ep bs (zt2_map m s) = map_prod id (zt2_map m) (z_stream_write ep bs s)"
  by (simp_all add: z_stream_read_def z_stream_write_def split: prod.splits)

locale transfer_subclass =
  fixes c :: "'a ZTransfer2_scheme ZTransfer2Funcs" and d :: "'b ZTransfer2_scheme ZTransfer2Funcs" and m :: "'a \<Rightarrow> 'b"
  assumes src_read_sub: "src_read d n (zt2_map m s) = map_prod id (zt2_map m) (src_read c n s)"
    and dst_write_sub: "dst_write d bs (zt2_map m s) = map_prod id (zt2_map m) (dst_write c bs s)"
    and shutdown_sub: "src_shutdown d (zt2_map m s) = zt2_map m (src_shutdown c s)"
      "dst_shutdown d (zt2_map m s) = zt2_map m (dst_shutdown c s)"
    and stack_sub: "stack_proxy d (zt2_map m s) = map_prod id (zt2_map m) (stack_proxy c s)"
    and setup_sub: "setup_transfer d (zt2_map m s) = map_prod id (zt2_map m) (setup_transfer c s)"
    and progress_sub: "progress d (zt2_map m s) = map_prod id (zt2_map m) (progress c s)"
begin

lemma eof_sub: "z_transfer2_eof d ep (zt2_map m s) = zt2_map m (z_transfer2_eof c ep s)"
proof -
  have stream: "z_stream_shutdown ep (zt2_map m s) = zt2_map m (z_stream_shutdown ep s)" for ep s by simp
  have status: "z_transfer2_update_status bits e (zt2_map m s) = zt2_map m (z_transfer2_update_status bits e s)" for bits e s
    by simp
  show ?thesis
    by (simp add: z_transfer2_eof_def Let_def shutdown_sub status stream if_distrib del: zt2_map_base(1,4)
        cong: if_cong)
qed

lemma read_source_sub:
  "z_transfer2_read_source d ep (zt2_map m s) = map_prod id (zt2_map m) (z_transfer2_read_source c ep s)"
  by (auto simp: z_transfer2_read_source_def Let_def src_read_sub split: prod.splits)

lemma write_dest_sub:
  "z_transfer2_write_dest d ep i (zt2_map m s) = map_prod id (zt2_map m) (z_transfer2_write_dest c ep i s)"
  by (auto simp: z_transfer2_write_dest_def Let_def dst_write_sub upd_buffer_def split: prod.splits)

lemma copy_write_sub:
  "copy_write d ep i (zt2_map m s) = map_prod id (map_prod id (zt2_map m)) (copy_write c ep i s)"
  by (auto simp: copy_write_def Let_def write_dest_sub z_transfer2_update_status_def split: prod.splits)

lemma read_loop_sub:
  "read_loop d ep pkt res (zt2_map m s) = map_prod id (map_prod id (map_prod id (zt2_map m))) (read_loop c ep pkt res s)"
proof (induction "MAX_READ_AT_A_TIME - pkt" arbitrary: pkt res s rule: less_induct)
  case less
  obtain res1 s1 where r: "z_transfer2_read_source c ep s = (res1, s1)" by fastforce
  have "read_loop d ep (pkt + 1) res1 (zt2_map m s1) =
      map_prod id (map_prod id (map_prod id (zt2_map m))) (read_loop c ep (pkt + 1) res1 s1)" if "pkt < MAX_READ_AT_A_TIME"
    using less.hyps [of "pkt + 1" res1 s1] that by simp
  with r show ?case
    by (subst read_loop.simps, subst (2) read_loop.simps)
      (auto simp: Let_def read_source_sub eof_sub simp del: zt2_map_base(1) simp: zt2_map_base(1) [symmetric])
qed

text \<open>A run of the extended class that comes back is a run of the superclass on its part.\<close>

lemma copy_loop_sub:
  assumes "copy_loop c from_ep to_ep pkt s = Some y"
  shows "copy_loop d from_ep to_ep pkt (zt2_map m s) = Some (map_prod id (zt2_map m) y)"
proof -
  let ?P = "\<lambda>c' f t p s y. c' = c \<longrightarrow> copy_loop d f t p (zt2_map m s) = Some (map_prod id (zt2_map m) y)"
  have "?P c from_ep to_ep pkt s y"
  proof (rule copy_loop.raw_induct [where P = ?P, OF _ assms], rule impI)
    fix loop c' f t p s y
    assume IH: "\<And>c' f t p s y. loop c' f t p s = Some y \<Longrightarrow> ?P c' f t p s y"
      and body: "(case copy_write c' t (buffer_of f) s of (stop, res, s1) \<Rightarrow>
        if stop then Some (res, s1)
        else case read_loop c' f p res (copy_reset (buffer_of f) s1) of
          (leave, p', res', s2) \<Rightarrow> if p' < MAX_READ_AT_A_TIME \<and> \<not> leave then loop c' f t p' s2 else Some (res', s2)) = Some y"
      and c': "c' = c"
    obtain stop res s1 where w: "copy_write c t (buffer_of f) s = (stop, res, s1)" by (metis prod_cases3)
    obtain leave p' res' s2 where r: "read_loop c f p res (copy_reset (buffer_of f) s1) = (leave, p', res', s2)"
      by (metis prod_cases4)
    have "read_loop d f p res (copy_reset (buffer_of f) (zt2_map m s1)) = (leave, p', res', zt2_map m s2)"
      using read_loop_sub [of f p res "copy_reset (buffer_of f) s1"] r by simp
    with IH [of c f t p' s2 y] body c' w r show "copy_loop d f t p (zt2_map m s) = Some (map_prod id (zt2_map m) y)"
      by (subst copy_loop.simps) (auto simp: copy_write_sub split: if_splits)
  qed
  then show ?thesis by simp
qed

lemma copy_data_sub:
  "z_transfer2_copy_data c from_ep to_ep s = Some y \<Longrightarrow>
   z_transfer2_copy_data d from_ep to_ep (zt2_map m s) = Some (map_prod id (zt2_map m) y)"
  by (auto simp: z_transfer2_copy_data_def dest!: copy_loop_sub split: prod.splits)

lemma callback_sub:
  "run_callback c cb s = Some s' \<Longrightarrow> run_callback d cb (zt2_map m s) = Some (zt2_map m s')"
  by (auto simp: run_callback_def dest!: copy_data_sub split: option.splits prod.splits)

lemma fire_sub: "fire c f s = Some s' \<Longrightarrow> fire d f (zt2_map m s) = Some (zt2_map m s')"
  by (cases f) (auto simp: callback_sub z_transfer2_timeout_def z_transfer2_timed_progress_def progress_sub
      split: if_splits prod.splits)

lemma fire_all_sub: "fire_all c fs s = Some s' \<Longrightarrow> fire_all d fs (zt2_map m s) = Some (zt2_map m s')"
proof (induction fs arbitrary: s)
  case (Cons f fs)
  then show ?case using fire_sub [of f s] by (auto split: option.splits)
qed simp

lemma run_loop_sub:
  "run_loop c rounds s = Some (rounds', s') \<Longrightarrow> run_loop d rounds (zt2_map m s) = Some (rounds', zt2_map m s')"
proof (induction rounds arbitrary: s)
  case (Cons r rs)
  show ?case
  proof (cases "t_status s AND (ZT2S_FINISHED + ZT2S_SUSPENDED) \<noteq> 0")
    case True
    with Cons.prems have "rounds' = r # rs" "s' = s" by auto
    with True show ?thesis by simp
  next
    case False
    with Cons.prems obtain s1 where s1: "fire_all c (zr_fires r) s = Some s1" by (auto split: option.splits)
    from fire_all_sub [OF this] Cons False s1 show ?thesis by (auto split: if_splits)
  qed
qed simp

lemma run_method_sub:
  "z_transfer2_run_method c rounds s = Some (tr, rounds', s') \<Longrightarrow>
   z_transfer2_run_method d rounds (zt2_map m s) = Some (tr, rounds', zt2_map m s')"
  by (auto simp: z_transfer2_run_method_def dest!: run_loop_sub)

lemma run_unsuspended_sub:
  assumes "run_unsuspended c rounds s = Some (tr, rounds', s')"
  shows "run_unsuspended d rounds (zt2_map m s) = Some (tr, rounds', zt2_map m s')"
proof -
  let ?P = "\<lambda>c' rounds s y. c' = c \<longrightarrow> run_unsuspended d rounds (zt2_map m s) = Some (map_prod id (map_prod id (zt2_map m)) y)"
  have "?P c rounds s (tr, rounds', s')"
  proof (rule run_unsuspended.raw_induct [where P = ?P, OF _ assms], rule impI)
    fix run c' rounds s y
    assume IH: "\<And>c' rounds s y. run c' rounds s = Some y \<Longrightarrow> ?P c' rounds s y"
      and body: "(case z_transfer2_run_method c' rounds s of None \<Rightarrow> None
        | Some (tr, rounds', s1) \<Rightarrow> if tr = ZT2_RESULT_SUSPENDED then run c' rounds' s1 else Some (tr, rounds', s1)) = Some y"
      and c': "c' = c"
    then obtain tr rounds' s1 where run1: "z_transfer2_run_method c rounds s = Some (tr, rounds', s1)"
      by (auto split: option.splits)
    from run_method_sub [OF run1] IH [of c rounds' s1 y] body c' run1
    show "run_unsuspended d rounds (zt2_map m s) = Some (map_prod id (map_prod id (zt2_map m)) y)"
      by (subst run_unsuspended.simps) (auto split: if_splits)
  qed
  then show ?thesis by simp
qed

lemma rollback_sub:
  "z_transfer2_rollback c rounds s = Some (rounds', s') \<Longrightarrow>
   z_transfer2_rollback d rounds (zt2_map m s) = Some (rounds', zt2_map m s')"
  by (auto simp: z_transfer2_rollback_def dest!: run_unsuspended_sub split: if_splits)

lemma start_sub: "z_transfer2_start d (zt2_map m s) = map_prod id (zt2_map m) (z_transfer2_start c s)"
proof -
  obtain ok s1 where st: "stack_proxy c s = (ok, s1)" by fastforce
  let ?b = "z_transfer2_buffer_init (t_buffer_size s1)"
  let ?s2 = "s1\<lparr>t_buffers := (if t_stacked s1 then (\<lambda>_. ?b) else (t_buffers s1)(EP_CLIENT := ?b))\<rparr>"
  let ?s3 = "set_conds (\<lambda>ep. ep = ZT2E_SOURCE \<or> t_stacked s1 \<and> ep = ZT2E_DOWN_DEST \<or> t_cond_in ?s2 ep) (t_cond_out ?s2) ?s2"
  show ?thesis
    using st setup_sub [of ?s3] by (cases "t_stacked s1") (simp_all add: z_transfer2_start_def stack_sub Let_def)
qed

lemma simple_run_sub:
  assumes "z_transfer2_simple_run c rounds s = Some (ok, s')"
  shows "z_transfer2_simple_run d rounds (zt2_map m s) = Some (ok, zt2_map m s')"
proof -
  obtain started s1 where st: "z_transfer2_start c s = (started, s1)" by fastforce
  show ?thesis
  proof (cases started)
    case False
    with assms st show ?thesis by (simp add: z_transfer2_simple_run_def start_sub)
  next
    case True
    with assms st obtain tr rounds' s2 where run: "run_unsuspended c rounds s1 = Some (tr, rounds', s2)"
      by (auto simp: z_transfer2_simple_run_def split: option.splits)
    from run_unsuspended_sub [OF run] assms st True run show ?thesis
      by (auto simp: z_transfer2_simple_run_def start_sub split: if_splits dest!: rollback_sub)
  qed
qed

end

end
