(* ===== verification/Pop3_Data.thy ===== *)
theory Pop3_Data
  imports Pop3_Policy Transfer_Refine DotTransfer
begin

text \<open>
  The transfer of multi-line responses (\<^verbatim>\<open>modules/pop3/pop3data.cc\<close>): a dot transfer from the server
  to the client that looks for the From, To and Subject lines on the way. The scan works on the
  transfer's buffer, in which the line just read stands behind what was read before; trimming
  the end of a blank line runs on into that older data.
\<close>

section \<open>State\<close>

datatype pop3_header = POP3_HEADER_NONE | POP3_HEADER_INSIDE | POP3_HEADER_END

datatype header_name = HdrFrom | HdrTo | HdrSubject

record Pop3Transfer = ZDotTransfer +
  header_state :: pop3_header
  actual_header :: "header_name option"
  p3t_headers :: "header_name \<Rightarrow> bytes option"
  p3t_overread :: bool

fun header_text :: "header_name \<Rightarrow> bytes" where
  "header_text HdrFrom = bytes_of ''From: ''"
| "header_text HdrTo = bytes_of ''To: ''"
| "header_text HdrSubject = bytes_of ''Subject: ''"

section \<open>The header scan\<close>

definition trimmed :: "byte \<Rightarrow> bool" where
  "trimmed b \<longleftrightarrow> b = 10 \<or> b = 13 \<or> b = 32"

text \<open>How many bytes of the line remain after trimming, negative when the trimming went on into the
  bytes in front; nothing when it left the buffer.\<close>

definition bytes_needed :: "bytes \<Rightarrow> bytes \<Rightarrow> int option" where
  "bytes_needed prior line =
     (let blanks = length (takeWhile trimmed (rev (prior @ line)))
      in if blanks = length (prior @ line) then None else Some (int (length line) - int blanks))"

text \<open>The comparison takes the count as an unsigned number.\<close>

definition header_match :: "bytes \<Rightarrow> int \<Rightarrow> header_name \<Rightarrow> bool" where
  "header_match line need h \<longleftrightarrow>
     (let n = (if need < 0 then length (header_text h) else min (length (header_text h)) (nat need))
      in map ascii_up (take n line) = map ascii_up (take n (header_text h)))"

text \<open>The value of a header; a negative length makes the string constructor look for a NUL that the
  buffer need not have.\<close>

definition header_value :: "bytes \<Rightarrow> int \<Rightarrow> header_name \<Rightarrow> bytes option" where
  "header_value line need h =
     (let len = need - int (length (header_text h))
      in if len < 0 then None else Some (take (nat len) (drop (length (header_text h)) line)))"

definition start_header :: "bytes \<Rightarrow> int \<Rightarrow> header_name \<Rightarrow> 'a Pop3Transfer_scheme \<Rightarrow> 'a Pop3Transfer_scheme" where
  "start_header line need h self =
     (if p3t_headers self h = None then
        (case header_value line need h of
           None \<Rightarrow> self\<lparr>p3t_overread := True\<rparr>
         | Some v \<Rightarrow> self\<lparr>header_state := POP3_HEADER_INSIDE, p3t_headers := (p3t_headers self)(h := Some v),
                        actual_header := Some h\<rparr>)
      else self)"

definition append_header :: "bytes \<Rightarrow> int \<Rightarrow> 'a Pop3Transfer_scheme \<Rightarrow> 'a Pop3Transfer_scheme" where
  "append_header line need self =
     (if need < 0 then self\<lparr>p3t_overread := True\<rparr>
      else case actual_header self of
        None \<Rightarrow> self\<lparr>p3t_overread := True\<rparr>
      | Some h \<Rightarrow> self\<lparr>p3t_headers := (p3t_headers self)
          (h := map_option (\<lambda>v. v @ CRLF @ take (nat need) line) (p3t_headers self h))\<rparr>)"

definition scan_line :: "bytes \<Rightarrow> bytes \<Rightarrow> 'a Pop3Transfer_scheme \<Rightarrow> 'a Pop3Transfer_scheme" where
  "scan_line prior line self =
     (let self1 = (if hd line \<noteq> 32 \<and> hd line \<noteq> 9
                   then self\<lparr>header_state := POP3_HEADER_NONE, actual_header := None\<rparr> else self)
      in case bytes_needed prior line of
           None \<Rightarrow> self1\<lparr>p3t_overread := True\<rparr>
         | Some need \<Rightarrow>
             if header_state self1 = POP3_HEADER_NONE then
               (if header_match line need HdrFrom then start_header line need HdrFrom self1
                else if header_match line need HdrTo then start_header line need HdrTo self1
                else if header_match line need HdrSubject then start_header line need HdrSubject self1
                else self1)
             else append_header line need self1)"

definition pop3_transfer_src_read ::
  "nat \<Rightarrow> 'a Pop3Transfer_scheme \<Rightarrow> (giostatus \<times> bytes) \<times> 'a Pop3Transfer_scheme" where
  "pop3_transfer_src_read count self =
     (case z_dot_transfer_src_read count self of
        ((ret, line), self1) \<Rightarrow>
          ((ret, line),
           if header_state self1 \<noteq> POP3_HEADER_END \<and>
              (ret = G_IO_STATUS_NORMAL \<or> ret = G_IO_STATUS_AGAIN \<and> line \<noteq> []) then
             (if line = [] then self1\<lparr>header_state := POP3_HEADER_END\<rparr>
              else scan_line (tb_data (t_buffers self EP_CLIENT)) line self1)
           else self1))"

text \<open>The other functions are those of the dot transfer; what the stack policy decided is a parameter.\<close>

definition pop3_transfer_funcs :: "(bool \<times> bool) \<Rightarrow> 'a Pop3Transfer_scheme ZTransfer2Funcs" where
  "pop3_transfer_funcs stacking = z_dot_transfer_funcs\<lparr>src_read := pop3_transfer_src_read,
     stack_proxy := (\<lambda>self. (fst stacking, if fst stacking \<and> snd stacking then self\<lparr>t_stacked := True\<rparr> else self))\<rparr>"

section \<open>The class\<close>

lemma header_frame:
  fixes s :: "'a Pop3Transfer_scheme"
  shows "zt2_frame s (start_header line need h s)" "zt2_frame s (append_header line need s)"
  by (cases "header_value line need h"; simp add: start_header_def zt2_frame_def)
    (cases "actual_header s"; simp add: append_header_def zt2_frame_def)

lemma scan_frame: "zt2_frame s (scan_line prior line s)" for s :: "'a Pop3Transfer_scheme"
proof -
  have reset: "zt2_frame s (s\<lparr>header_state := h, actual_header := a\<rparr>)" for h a by (simp add: zt2_frame_def)
  show ?thesis
    using header_frame [of s] zt2_frame_trans [OF reset header_frame(1)] zt2_frame_trans [OF reset header_frame(2)] reset
    by (cases "bytes_needed prior line") (simp_all add: scan_line_def Let_def zt2_frame_def)
qed

lemma pop3_read_bounds:
  assumes "pop3_transfer_src_read count self = ((res, bs), self')"
  shows "length bs \<le> count \<and> zt2_frame self self'"
proof -
  obtain r line self1 where d: "z_dot_transfer_src_read count self = ((r, line), self1)" by (metis surj_pair)
  have "zt2_frame self1 self'"
    using assms d scan_frame [of self1] by (auto simp: pop3_transfer_src_read_def zt2_frame_def split: if_splits)
  with dot_read_bounds [OF d] assms d show ?thesis
    by (auto simp: pop3_transfer_src_read_def intro: zt2_frame_trans split: if_splits)
qed

interpretation pop3: transfer_class "pop3_transfer_funcs stacking" for stacking
proof unfold_locales
  show "zt2_frame self (dst_shutdown (pop3_transfer_funcs stacking) self)" for self :: "'a Pop3Transfer_scheme"
    using dot.shutdown_law(2) [of self] by (simp add: pop3_transfer_funcs_def)
  show "bw \<le> length bs \<and> zt2_frame self self'"
    if "dst_write (pop3_transfer_funcs stacking) bs self = ((res, bw), self')" for bs self res bw and self' :: "'a Pop3Transfer_scheme"
    using dot.dst_write_law [of bs self res bw self'] that by (simp add: pop3_transfer_funcs_def)
qed (auto simp: pop3_transfer_funcs_def z_dot_transfer_funcs_def zt2_frame_def dest: pop3_read_bounds [unfolded zt2_frame_def])

section \<open>The scan does not disturb the transfer\<close>

text \<open>Forgetting the header fields.\<close>

definition forget :: "'a Pop3Transfer_ext ZDotTransfer_ext \<Rightarrow> unit ZDotTransfer_ext" where
  "forget e = ZTransfer2.more (ZDotTransfer.truncate
     (ZTransfer2.extend (ZTransfer2.truncate (z_dot_transfer_new [] [] 0 0 [])) e))"

lemma forget_truncate: "zt2_map forget s = ZDotTransfer.truncate s" for s :: "'a Pop3Transfer_scheme"
  by (cases s) (simp add: zt2_map_def forget_def ZTransfer2.defs ZDotTransfer.defs)

lemma forget_fields [simp]:
  fixes s :: "'a Pop3Transfer_scheme"
  shows "previous_line_split (zt2_map forget s) = previous_line_split s" "preamble (zt2_map forget s) = preamble s"
    "preamble_ofs (zt2_map forget s) = preamble_ofs s" "dst_write_state (zt2_map forget s) = dst_write_state s"
    "zt2_map forget (s\<lparr>previous_line_split := p\<rparr>) = (zt2_map forget s)\<lparr>previous_line_split := p\<rparr>"
    "zt2_map forget (s\<lparr>preamble_ofs := n\<rparr>) = (zt2_map forget s)\<lparr>preamble_ofs := n\<rparr>"
    "zt2_map forget (s\<lparr>dst_write_state := d\<rparr>) = (zt2_map forget s)\<lparr>dst_write_state := d\<rparr>"
    "zt2_map forget (s\<lparr>header_state := h\<rparr>) = zt2_map forget s" "zt2_map forget (s\<lparr>actual_header := a\<rparr>) = zt2_map forget s"
    "zt2_map forget (s\<lparr>p3t_headers := hs\<rparr>) = zt2_map forget s" "zt2_map forget (s\<lparr>p3t_overread := e\<rparr>) = zt2_map forget s"
  by (simp_all add: forget_truncate ZDotTransfer.defs)

lemma forget_header [simp]:
  fixes s :: "'a Pop3Transfer_scheme"
  shows "zt2_map forget (start_header line need h s) = zt2_map forget s"
    "zt2_map forget (append_header line need s) = zt2_map forget s"
  by (cases "header_value line need h"; simp add: start_header_def)
    (cases "actual_header s"; simp add: append_header_def)

lemma forget_scan [simp]: "zt2_map forget (scan_line prior line s) = zt2_map forget s" for s :: "'a Pop3Transfer_scheme"
  by (cases "bytes_needed prior line") (simp_all add: scan_line_def Let_def)

lemma forget_read:
  "z_dot_transfer_src_read n (zt2_map forget s) = map_prod id (zt2_map forget) (z_dot_transfer_src_read n s)"
  for s :: "'a Pop3Transfer_scheme"
proof -
  obtain r line s1 where r: "z_stream_read ZT2E_SOURCE (n - 2) s = ((r, line), s1)" by (metis surj_pair)
  then show ?thesis by (cases r) (simp_all add: z_dot_transfer_src_read_def)
qed

lemma forget_data:
  "dot_data_state buf written (zt2_map forget s) = map_prod id (zt2_map forget) (dot_data_state buf written s)"
  for s :: "'a Pop3Transfer_scheme"
proof (induction buf written s rule: dot_data_state.induct)
  case (1 buf written s)
  obtain kk lf where find: "find_dot (dst_write_state s = DOT_DW_DATA_LF) (drop written buf) = (kk, lf)" by fastforce
  have write': "z_stream_write ep bs ((zt2_map forget s)\<lparr>dst_write_state := d\<rparr>) =
      map_prod id (zt2_map forget) (z_stream_write ep bs (s\<lparr>dst_write_state := d\<rparr>))" for ep bs d and s :: "'a Pop3Transfer_scheme"
    using zt2_map_streams(2) [of ep bs forget "s\<lparr>dst_write_state := d\<rparr>"] by simp
  show ?case
  proof (cases kk)
    case None
    then show ?thesis
      using find by (auto simp: dot_data_state.simps [of buf written] write' split: prod.split)
  next
    case (Some k)
    obtain res bw s1 where w: "z_stream_write ZT2E_DEST (take k (drop written buf)) s = ((res, bw), s1)" by (metis surj_pair)
    obtain res2 bw2 s2 where w2: "z_stream_write ZT2E_DEST [DOT] (s1\<lparr>dst_write_state := DOT_DW_DATA_DOT\<rparr>) = ((res2, bw2), s2)"
      by (metis surj_pair)
    have IH: "res = G_IO_STATUS_NORMAL \<and> written + k = bw \<Longrightarrow> res2 = G_IO_STATUS_NORMAL \<and> bw2 = 1 \<Longrightarrow>
        dot_data_state buf (written + bw) ((zt2_map forget s2)\<lparr>dst_write_state := DOT_DW_DATA\<rparr>) =
        map_prod id (zt2_map forget) (dot_data_state buf (written + bw) (s2\<lparr>dst_write_state := DOT_DW_DATA\<rparr>))"
      using 1 find Some w w2 by (simp add: id_def)
    show ?thesis
      using find Some w w2 IH by (auto simp: dot_data_state.simps [of buf written] write' id_def)
  qed
qed

lemma forget_write:
  "z_dot_transfer_dst_write buf (zt2_map forget s) = map_prod id (zt2_map forget) (z_dot_transfer_dst_write buf s)"
  for s :: "'a Pop3Transfer_scheme"
proof -
  have data: "dot_data_state buf 0 ((zt2_map forget s)\<lparr>dst_write_state := d\<rparr>) =
      map_prod id (zt2_map forget) (dot_data_state buf 0 (s\<lparr>dst_write_state := d\<rparr>))" for s :: "'a Pop3Transfer_scheme" and d
    using forget_data [of buf 0 "s\<lparr>dst_write_state := d\<rparr>"] by simp
  have pre: "dot_data_state buf 0 ((zt2_map forget s)\<lparr>preamble_ofs := n, dst_write_state := d\<rparr>) =
      map_prod id (zt2_map forget) (dot_data_state buf 0 (s\<lparr>preamble_ofs := n, dst_write_state := d\<rparr>))"
    for s :: "'a Pop3Transfer_scheme" and d n
    using forget_data [of buf 0 "s\<lparr>preamble_ofs := n, dst_write_state := d\<rparr>"] by simp
  show ?thesis
  proof (cases "dst_write_state s")
    case DOT_DW_PREAMBLE
    obtain res bw s1 where "z_stream_write ZT2E_DEST (drop (preamble_ofs s) (preamble s)) s = ((res, bw), s1)" by (metis surj_pair)
    with DOT_DW_PREAMBLE show ?thesis
      by (simp add: z_dot_transfer_dst_write_def z_dot_transfer_dst_write_preamble_def Let_def pre)
  next
    case DOT_DW_DATA_DOT
    obtain res bw s1 where "z_stream_write ZT2E_DEST [DOT] s = ((res, bw), s1)" by (metis surj_pair)
    with DOT_DW_DATA_DOT show ?thesis by (simp add: z_dot_transfer_dst_write_def data)
  qed (simp_all add: z_dot_transfer_dst_write_def forget_data)
qed

interpretation pop3_dot: transfer_subclass "pop3_transfer_funcs (True, False)" z_dot_transfer_funcs forget
proof unfold_locales
  fix s :: "'a Pop3Transfer_scheme" and n bs
  show "src_read z_dot_transfer_funcs n (zt2_map forget s) =
      map_prod id (zt2_map forget) (src_read (pop3_transfer_funcs (True, False)) n s)"
    by (auto simp: pop3_transfer_funcs_def z_dot_transfer_funcs_def pop3_transfer_src_read_def forget_read split: prod.split)
  show "dst_write z_dot_transfer_funcs bs (zt2_map forget s) =
      map_prod id (zt2_map forget) (dst_write (pop3_transfer_funcs (True, False)) bs s)"
    by (simp add: pop3_transfer_funcs_def z_dot_transfer_funcs_def forget_write)
  show "dst_shutdown z_dot_transfer_funcs (zt2_map forget s) =
      zt2_map forget (dst_shutdown (pop3_transfer_funcs (True, False)) s)"
    by (simp add: pop3_transfer_funcs_def z_dot_transfer_funcs_def z_dot_transfer_dst_shutdown_def)
qed (simp_all add: pop3_transfer_funcs_def z_dot_transfer_funcs_def)

section \<open>The transfer of a response\<close>

text \<open>What the outside does during one transfer: the server's lines, the client's answers to writes, the
  two ends of a stacked proxy, the poll rounds and the verdict of the stacked proxy.\<close>

record pop3_xfer =
  xf_reads :: read_answers
  xf_writes :: write_answers
  xf_down_reads :: read_answers
  xf_down_writes :: write_answers
  xf_rounds :: "zt2_round list"
  xf_verdict :: "(ZVerdict \<times> bytes) option"

definition pop3_transfer_new :: "nat \<Rightarrow> bytes \<Rightarrow> pop3_xfer \<Rightarrow> Pop3Transfer" where
  "pop3_transfer_new buffer_size pre xf = \<lparr>
     t_buffers = (\<lambda>_. z_transfer2_buffer_init 0), t_buffer_size = buffer_size,
     t_flags = ZT2F_COMPLETE_COPY OR (ZT2F_COMPLETE_COPY OR ZT2F_PROXY_STREAMS_POLLED), t_stacked = False, t_status = 0, t_suspend_reason = 0,
     t_stack_decision = ZV_ACCEPT, t_stack_info = [], t_cond_in = (\<lambda>_. False), t_cond_out = (\<lambda>_. False),
     t_reads = (\<lambda>_. [])(ZT2E_SOURCE := xf_reads xf, ZT2E_DOWN_DEST := xf_down_reads xf),
     t_writes = (\<lambda>_. [])(ZT2E_DEST := xf_writes xf, ZT2E_DOWN_SOURCE := xf_down_writes xf),
     t_sent = (\<lambda>_. []), t_shut = (\<lambda>_. False),
     previous_line_split = False, preamble = pre, preamble_ofs = 0, dst_write_state = DOT_DW_PREAMBLE,
     header_state = POP3_HEADER_NONE, actual_header = None, p3t_headers = (\<lambda>_. None), p3t_overread = False\<rparr>"

definition transfer_preamble :: "pop3_vars \<Rightarrow> bytes" where
  "transfer_preamble v =
     cstr (response v) @ (if response_param v \<noteq> [] then [32] @ cstr (response_param v) else []) @ CRLF"

definition set_mail_headers :: "(header_name \<Rightarrow> bytes option) \<Rightarrow> unit p3m" where
  "set_mail_headers h = modify (\<lambda>s. s\<lparr>mail_from := h HdrFrom, mail_to := h HdrTo, mail_subject := h HdrSubject\<rparr>)"

text \<open>How a transfer ends for the client: nothing written yet (the stacked proxy's verdict decides), or
  the closing dot, whether or not the transfer succeeded.\<close>

definition finish_transfer :: "pop3_ext \<Rightarrow> Pop3Transfer \<Rightarrow> unit p3m" where
  "finish_transfer x t =
     (if dst_write_state t = DOT_DW_PREAMBLE then
        (if t_stack_decision t = ZV_REJECT then do {
           by_mail \<leftarrow> gets reject_by_mail;
           let buf = take 255 (bytes_of ''Content rejected ('' @ cstr (t_stack_info t) @ bytes_of '')'');
           if by_mail then pop3_error_msg x buf else pop3_response_reject x (Some buf)
         }
         else if t_stack_decision t = ZV_ERROR then do {
           pop3_response_reject x (Some (take 255
             (bytes_of ''Error occurred while transferring data ('' @ cstr (t_stack_info t) @ bytes_of '')'')));
           set_pop3_state POP3_STATE_QUIT
         }
         else do {
           pop3_response_write x;
           pop3_write_client x (bytes_of ''.'' @ CRLF);
           return ()
         })
      else do { pop3_write_client x (bytes_of ''.'' @ CRLF); return () })"

text \<open>A transfer that never comes back is a crash, too.\<close>

definition pop3_data_transfer :: "pop3_ext \<Rightarrow> pop3_xfer \<Rightarrow> bool p3m" where
  "pop3_data_transfer x xf = do {
     v \<leftarrow> gets p3_vars;
     n \<leftarrow> gets buffer_length;
     stacking \<leftarrow> pop3_policy_stack_hash_do x;
     case z_transfer2_simple_run (pop3_transfer_funcs stacking) (xf_rounds xf)
            (pop3_transfer_new (unat n) (transfer_preamble v) xf) of
       None \<Rightarrow> do { p3_crash; return False }
     | Some (success, t) \<Rightarrow> do {
         let t = (case xf_verdict xf of
             Some (verdict, info) \<Rightarrow> if t_stacked t then z_transfer2_ps_iface_set_stacked_verdict verdict info t else t
           | None \<Rightarrow> t);
         p3_log (P3Relay (t_sent t ZT2E_DEST));
         (if p3t_overread t then p3_crash else return ());
         set_mail_headers (p3t_headers t);
         finish_transfer x t;
         set_mail_headers (\<lambda>_. None);
         return success
       }
   }"

section \<open>A mail through the proxy\<close>

lemma pop3_transfer_forget:
  "xf_down_reads xf = [] \<Longrightarrow> xf_down_writes xf = [] \<Longrightarrow> zt2_map forget (pop3_transfer_new room pre xf) =
     z_dot_transfer_new (xf_reads xf) (xf_writes xf) room (ZT2F_COMPLETE_COPY OR ZT2F_PROXY_STREAMS_POLLED) pre"
  by (simp add: forget_truncate pop3_transfer_new_def z_dot_transfer_new_def ZDotTransfer.defs fun_upd_idem)

definition plain_xfer :: "bytes list list \<Rightarrow> bytes list \<Rightarrow> nat \<Rightarrow> pop3_xfer" where
  "plain_xfer chunks final n = \<lparr>xf_reads = arrivals chunks final, xf_writes = [], xf_down_reads = [], xf_down_writes = [],
     xf_rounds = replicate n busy, xf_verdict = None\<rparr>"

lemma pop3_run_faithful:
  assumes "list_all (chunk_ok room) chunks" and "chunk_ok room final" and "length chunks < n"
  shows "\<exists>t. z_transfer2_simple_run (pop3_transfer_funcs (True, False)) (replicate n busy)
      (pop3_transfer_new room pre (plain_xfer chunks final n)) = Some (True, t) \<and>
    t_sent t ZT2E_DEST = (if concat chunks @ final = [] then [] else pre @ stuff True (content (concat chunks @ final))) \<and>
    (dst_write_state t = DOT_DW_PREAMBLE \<longrightarrow> t_sent t ZT2E_DEST = [])"
proof -
  let ?new = "pop3_transfer_new room pre (plain_xfer chunks final n)"
  have "0 < t_buffer_size ?new" using assms(2) by (simp add: pop3_transfer_new_def chunk_ok_def)
  then obtain ok t where run: "z_transfer2_simple_run (pop3_transfer_funcs (True, False)) (replicate n busy) ?new = Some (ok, t)"
    using pop3.simple_run_ends by blast
  have new: "zt2_map forget ?new =
      z_dot_transfer_new (arrivals chunks final) [] room (ZT2F_COMPLETE_COPY OR ZT2F_PROXY_STREAMS_POLLED) pre"
    by (simp add: pop3_transfer_forget plain_xfer_def)
  have "\<exists>dt. z_transfer2_simple_run z_dot_transfer_funcs (replicate n busy) (zt2_map forget ?new) = Some (True, dt) \<and>
      t_sent dt ZT2E_DEST = (if concat chunks @ final = [] then [] else pre @ stuff True (content (concat chunks @ final))) \<and>
      (dst_write_state dt = DOT_DW_PREAMBLE \<longrightarrow> t_sent dt ZT2E_DEST = [])"
    unfolding new by (rule dot_faithful [OF assms])
  then obtain dt where "z_transfer2_simple_run z_dot_transfer_funcs (replicate n busy) (zt2_map forget ?new) = Some (True, dt)"
    and dt: "t_sent dt ZT2E_DEST = (if concat chunks @ final = [] then [] else pre @ stuff True (content (concat chunks @ final)))"
      "dst_write_state dt = DOT_DW_PREAMBLE \<longrightarrow> t_sent dt ZT2E_DEST = []"
    by blast
  with pop3_dot.simple_run_sub [OF run] have ok: "ok = True" "dt = zt2_map forget t" by auto
  show ?thesis
    by (intro exI [of _ t] conjI run [unfolded ok] dt [unfolded ok zt2_map_fields forget_fields])
qed

section \<open>Properties\<close>

text \<open>The text of a line without the blanks at its end.\<close>

definition line_core :: "bytes \<Rightarrow> bytes" where
  "line_core line = rev (dropWhile trimmed (rev line))"

lemma bytes_needed_cases:
  assumes "prior = [] \<or> trimmed (last prior)"
  shows "bytes_needed prior line =
    (if list_all trimmed (prior @ line) then None
     else if line_core line \<noteq> [] then Some (int (length (line_core line)))
     else Some (int (length line) - int (length (takeWhile trimmed (rev (prior @ line))))))"
    and "\<not> list_all trimmed (prior @ line) \<Longrightarrow> line_core line = [] \<Longrightarrow> bytes_needed prior line = Some need \<Longrightarrow> need < 0"
proof -
  let ?blanks = "length (takeWhile trimmed (rev (prior @ line)))"
  have all: "?blanks = length (prior @ line) \<longleftrightarrow> list_all trimmed (prior @ line)"
  proof
    assume "?blanks = length (prior @ line)"
    then have "takeWhile trimmed (rev (prior @ line)) = rev (prior @ line)"
      by (metis length_rev takeWhile_eq_take take_all order_refl)
    then show "list_all trimmed (prior @ line)" by (metis list_all_iff set_rev set_takeWhileD)
  next
    assume "list_all trimmed (prior @ line)"
    then have "takeWhile trimmed (rev (prior @ line)) = rev (prior @ line)"
      by (simp only: takeWhile_eq_all_conv) (auto simp: list_all_iff)
    then show "?blanks = length (prior @ line)" by (simp only: length_rev)
  qed
  have core: "line_core line \<noteq> [] \<Longrightarrow> int (length line) - int ?blanks = int (length (line_core line))"
  proof -
    assume "line_core line \<noteq> []"
    then obtain b where "b \<in> set (rev line)" "\<not> trimmed b" by (auto simp: line_core_def dropWhile_eq_Nil_conv)
    then have "takeWhile trimmed (rev (prior @ line)) = takeWhile trimmed (rev line)"
      by (simp add: takeWhile_append1)
    moreover have "length (takeWhile trimmed (rev line)) + length (dropWhile trimmed (rev line)) = length line"
      by (metis length_append length_rev takeWhile_dropWhile_id)
    ultimately show ?thesis by (simp add: line_core_def)
  qed
  show "bytes_needed prior line =
    (if list_all trimmed (prior @ line) then None
     else if line_core line \<noteq> [] then Some (int (length (line_core line)))
     else Some (int (length line) - int ?blanks))"
    using all core by (simp add: bytes_needed_def Let_def)
  assume more: "\<not> list_all trimmed (prior @ line)" and blank: "line_core line = []"
    and need: "bytes_needed prior line = Some need"
  from blank have line: "\<forall>b\<in>set (rev line). trimmed b" by (simp add: line_core_def dropWhile_eq_Nil_conv)
  then have "prior \<noteq> []" using more by (auto simp: list_all_iff)
  with assms obtain b bs where b: "prior = bs @ [b]" "trimmed b" by (metis append_butlast_last_id last_snoc)
  from line have "takeWhile trimmed (rev (prior @ line)) = rev line @ takeWhile trimmed (rev prior)"
    using takeWhile_append2 [of "rev line" trimmed "rev prior"] by auto
  with b have "?blanks > length line" by simp
  with need show "need < 0" by (auto simp: bytes_needed_def Let_def split: if_splits)
qed

text \<open>Two header names never fit the same line, since they begin with different letters.\<close>

lemma header_match_core:
  assumes "line_core line \<noteq> []"
  shows "header_match line (int (length (line_core line))) h \<longleftrightarrow>
    map ascii_up (take (length (header_text h)) (line_core line)) = map ascii_up (take (length (line_core line)) (header_text h))"
proof -
  have "take n line = take n (line_core line)" if "n \<le> length (line_core line)" for n
  proof -
    have "line = line_core line @ rev (takeWhile trimmed (rev line))"
      by (metis line_core_def rev_append rev_rev_ident takeWhile_dropWhile_id)
    then show ?thesis using that by (metis append_Nil2 diff_is_0_eq take0 take_append)
  qed
  moreover have "min (length (header_text h)) (length (line_core line)) \<le> length (line_core line)" by simp
  moreover have "take (min a b) xs = take a xs" if "length xs = b" for a b and xs :: bytes
    using that by (simp add: min_def)
  ultimately show ?thesis by (simp add: header_match_def Let_def min_def)
qed

lemma header_first:
  "map ascii_up (take (length (header_text h)) core) = map ascii_up (take (length core) (header_text h)) \<Longrightarrow> core \<noteq> [] \<Longrightarrow>
   ascii_up (hd core) = ascii_up (hd (header_text h))"
  by (cases core; cases h) (auto simp: bytes_of_def)

lemma header_unique:
  assumes "core \<noteq> []"
    and "map ascii_up (take (length (header_text h)) core) = map ascii_up (take (length core) (header_text h))"
    and "map ascii_up (take (length (header_text h')) core) = map ascii_up (take (length core) (header_text h'))"
  shows "h = h'"
  using header_first [OF assms(2,1)] header_first [OF assms(3,1)] by (cases h; cases h') (auto simp: bytes_of_def ascii_up_def)

definition short_header :: "bytes \<Rightarrow> header_name \<Rightarrow> bool" where
  "short_header core h \<longleftrightarrow> core \<noteq> [] \<and> length core < length (header_text h) \<and>
     map ascii_up core = map ascii_up (take (length core) (header_text h))"

lemma scan_header:
  assumes "header_match line need h" and "\<And>h'. header_match line need h' \<Longrightarrow> h' = h"
    and "hd line \<noteq> 32" and "hd line \<noteq> 9" and "bytes_needed prior line = Some need"
  shows "scan_line prior line t = start_header line need h (t\<lparr>header_state := POP3_HEADER_NONE, actual_header := None\<rparr>)"
  using assms by (cases h) (auto simp: scan_line_def Let_def)





end
