(* ===== verification/Pop3_Main.thy ===== *)
theory Pop3_Main
  imports Pop3_Data
begin

text \<open>
  The session of the POP3 proxy (\<^verbatim>\<open>modules/pop3/pop3.cc\<close>, \<^verbatim>\<open>pop3auth.cc\<close>, \<^verbatim>\<open>pop3misc.cc\<close>): a request is read
  from the client, parsed, judged and forwarded, its response read from the server, judged and
  returned; in the middle of an AUTH exchange lines are passed through. One iteration of the
  main loop is a function of what the poll reported.
\<close>

section \<open>The AUTH exchange\<close>

definition is_prefix :: "bytes \<Rightarrow> bytes \<Rightarrow> bool" where
  "is_prefix p bs \<longleftrightarrow> take (length p) bs = p"

definition auth_count_check :: "int p3m" where
  "auth_count_check = do {
     s \<leftarrow> gets (\<lambda>s. s);
     if max_authline_count s < auth_lines s then do { set_pop3_state POP3_STATE_AUTH; return POP3_REQ_REJECT }
     else return POP3_REQ_ACCEPT
   }"

definition pop3_auth_parse :: "endpoint \<Rightarrow> int p3m" where
  "pop3_auth_parse side = do {
     modify (\<lambda>s. s\<lparr>auth_lines := auth_lines s + 1\<rparr>);
     s \<leftarrow> gets (\<lambda>s. s);
     if side = EP_CLIENT then do {
       p3_upd (\<lambda>v. v\<lparr>command := request_line s, command_param := []\<rparr>);
       if request_line s = bytes_of ''*'' then do {
         set_pop3_state POP3_STATE_AUTH_A_CANCEL;
         return POP3_RSP_ACCEPT
       }
       else auth_count_check
     }
     else do {
       p3_upd (\<lambda>v. v\<lparr>response := reply_line s, response_param := []\<rparr>);
       if is_prefix (bytes_of ''+OK '') (cstr (reply_line s)) \<and> pop3_state s \<noteq> POP3_STATE_AUTH_A_CANCEL then do {
         set_pop3_state POP3_STATE_TRANS;
         return POP3_RSP_ACCEPT
       }
       else if is_prefix (bytes_of ''-ERR '') (cstr (reply_line s)) then do {
         set_pop3_state POP3_STATE_AUTH;
         return POP3_RSP_ACCEPT
       }
       else if length (reply_line s) < 3 \<or> \<not> is_prefix (bytes_of ''+ '') (reply_line s) then return POP3_RSP_ABORT
       else if pop3_state s = POP3_STATE_AUTH_A_CANCEL then do {
         p3_upd (\<lambda>v. v\<lparr>response := bytes_of ''-ERR Error in protocol''\<rparr>);
         return POP3_RSP_ABORT
       }
       else auth_count_check
     }
   }"

section \<open>Responses\<close>

text \<open>The timestamp of the greeting: from the first left to the first right angle bracket.\<close>

definition pop3_get_timestamp :: "unit p3m" where
  "pop3_get_timestamp = do {
     v \<leftarrow> gets p3_vars;
     let str = cstr (response_param v);
     let left = length (takeWhile (\<lambda>b. b \<noteq> 60) str);
     let right = length (takeWhile (\<lambda>b. b \<noteq> 62) str);
     modify (\<lambda>s. s\<lparr>timestamp := (if left = length str \<or> right = length str \<or> left \<ge> right then []
       else take (right - left + 1) (drop left str))\<rparr>)
   }"

definition pop3_response_read :: "giostatus \<Rightarrow> bytes \<Rightarrow> giostatus p3m" where
  "pop3_response_read res line = do {
     p3_log (P3Read EP_SERVER res line);
     (if res = G_IO_STATUS_NORMAL then modify (\<lambda>s. s\<lparr>reply_line := line\<rparr>) else return ());
     return res
   }"

definition first_word :: "nat \<Rightarrow> bytes \<Rightarrow> bytes" where
  "first_word n line = take n (takeWhile (\<lambda>b. b \<noteq> 32) line)"

definition pop3_response_parse :: "int p3m" where
  "pop3_response_parse = do {
     s \<leftarrow> gets (\<lambda>s. s);
     let line = reply_line s;
     let i = length (first_word 4 line);
     let resp = cstr (first_word 4 line);
     if unat (max_reply_length s) < length line then return POP3_RSP_ABORT
     else if resp \<noteq> OK \<and> resp \<noteq> ERR then return POP3_RSP_REJECT
     else do {
       (if resp \<noteq> OK then p3_upd (\<lambda>v. v\<lparr>response_multiline := False\<rparr>) else return ());
       p3_upd (\<lambda>v. v\<lparr>response := resp, response_param := drop (i + 1) line\<rparr>);
       return POP3_RSP_ACCEPT
     }
   }"

definition pop3_response_process :: "pop3_ext \<Rightarrow> int p3m" where
  "pop3_response_process x = do {
     st \<leftarrow> gets pop3_state;
     (if st = POP3_STATE_LISTEN then do { pop3_get_timestamp; set_pop3_state POP3_STATE_AUTH } else return ());
     ret \<leftarrow> pop3_policy_response_hash_do x;
     if ret = POP3_RSP_ACCEPT then do {
       desc \<leftarrow> gets command_desc;
       (case Option.bind desc known_command of
          None \<Rightarrow> return ret
        | Some d \<Rightarrow> (case response_parse d of None \<Rightarrow> return ret | Some f \<Rightarrow> f x))
     }
     else return ret
   }"

definition pop3_response_multiline :: "pop3_ext \<Rightarrow> pop3_xfer \<Rightarrow> bool p3m" where
  "pop3_response_multiline x xf = do {
     res \<leftarrow> pop3_data_transfer x xf;
     set_p3_state POP3_CLIENT;
     return res
   }"

definition response_action :: "pop3_ext \<Rightarrow> int \<Rightarrow> unit p3m" where
  "response_action x resp =
     (if resp = POP3_RSP_ACCEPT then do {
        v \<leftarrow> gets p3_vars;
        if response_multiline v then set_p3_state POP3_SERVER_MULTILINE
        else do { pop3_response_write x; set_p3_state POP3_CLIENT }
      }
      else if resp = POP3_RSP_REJECT then do { pop3_response_reject x None; set_p3_state POP3_CLIENT }
      else if resp = POP3_RSP_ABORT then do {
        pop3_response_reject x None;
        set_pop3_state POP3_STATE_QUIT;
        set_p3_state POP3_CLIENT
      }
      else do { set_pop3_state POP3_STATE_QUIT; set_p3_state POP3_CLIENT })"

definition pop3_server_to_client :: "pop3_ext \<Rightarrow> giostatus \<Rightarrow> bytes \<Rightarrow> unit p3m" where
  "pop3_server_to_client x res line = do {
     rc \<leftarrow> pop3_response_read res line;
     if rc \<noteq> G_IO_STATUS_NORMAL then do {
       (if rc \<noteq> G_IO_STATUS_EOF then pop3_response_reject x None else return ());
       set_pop3_state POP3_STATE_QUIT
     }
     else do {
       st \<leftarrow> gets pop3_state;
       resp \<leftarrow>
         (if st \<noteq> POP3_STATE_AUTH_A \<and> st \<noteq> POP3_STATE_AUTH_A_CANCEL then do {
            resp \<leftarrow> pop3_response_parse;
            if resp = POP3_RSP_ACCEPT then pop3_response_process x else return resp
          }
          else pop3_auth_parse EP_SERVER);
       response_action x resp
     }
   }"

section \<open>Requests\<close>

definition pop3_command_read :: "pop3_ext \<Rightarrow> giostatus \<Rightarrow> bytes \<Rightarrow> bool p3m" where
  "pop3_command_read x res line = do {
     p3_upd (\<lambda>v. v\<lparr>response_multiline := False\<rparr>);
     p3_log (P3Read EP_CLIENT res line);
     if res \<noteq> G_IO_STATUS_NORMAL then do {
       (if res \<noteq> G_IO_STATUS_EOF then pop3_command_reject x else return ());
       return False
     }
     else do { modify (\<lambda>s. s\<lparr>request_line := line\<rparr>); return True }
   }"

definition request_name :: "bytes \<Rightarrow> bytes" where
  "request_name line = map ascii_up (cstr (first_word 9 line))"

definition pop3_command_parse :: "int p3m" where
  "pop3_command_parse = do {
     s \<leftarrow> gets (\<lambda>s. s);
     let line = request_line s;
     let name = request_name line;
     let i = length (first_word 9 line);
     if unat (max_request_length s) < length line then return POP3_REQ_ABORT
     else do {
       p3_upd (\<lambda>v. v\<lparr>command := name, command_param := drop (i + 1) line\<rparr>);
       modify (\<lambda>s. s\<lparr>command_desc := (if known_command name = None then None else Some name)\<rparr>);
       if known_command name = None \<and> \<not> permit_unknown_command s \<and> \<not> pop3_policy_command_hash_search name s
       then return POP3_REQ_ABORT
       else (case known_command name of
          None \<Rightarrow> return POP3_REQ_ACCEPT
        | Some d \<Rightarrow> if allowed_states d AND pop3_state s = 0 then return POP3_REQ_REJECT else return POP3_REQ_ACCEPT)
     }
   }"

definition pop3_command_process :: "pop3_ext \<Rightarrow> int p3m" where
  "pop3_command_process x = do {
     res \<leftarrow> pop3_policy_command_hash_do x;
     if res = POP3_REQ_ACCEPT then do {
       desc \<leftarrow> gets command_desc;
       (case Option.bind desc known_command of
          None \<Rightarrow> return res
        | Some d \<Rightarrow> do {
            p3_upd (\<lambda>v. v\<lparr>response_multiline := multi_line_response d\<rparr>);
            command_parse d x
          })
     }
     else return res
   }"

definition request_action :: "pop3_ext \<Rightarrow> int \<Rightarrow> unit p3m" where
  "request_action x resp =
     (if resp = POP3_REQ_ACCEPT then do { pop3_command_write x; set_p3_state POP3_SERVER }
      else if resp = POP3_REQ_REJECT then pop3_command_reject x
      else if resp = POP3_REQ_ABORT then do { pop3_command_reject x; set_pop3_state POP3_STATE_QUIT }
      else set_pop3_state POP3_STATE_QUIT)"

definition pop3_client_to_server :: "pop3_ext \<Rightarrow> giostatus \<Rightarrow> bytes \<Rightarrow> unit p3m" where
  "pop3_client_to_server x res line = do {
     p3_upd (\<lambda>v. v\<lparr>response := ERR, response_param := bytes_of ''Invalid command.''\<rparr>);
     ok \<leftarrow> pop3_command_read x res line;
     if \<not> ok then set_pop3_state POP3_STATE_QUIT
     else do {
       st \<leftarrow> gets pop3_state;
       resp \<leftarrow>
         (if st \<noteq> POP3_STATE_AUTH_A then do {
            resp \<leftarrow> pop3_command_parse;
            if resp = POP3_REQ_ACCEPT then pop3_command_process x else return resp
          }
          else pop3_auth_parse EP_CLIENT);
       request_action x resp
     }
   }"

section \<open>Configuration and main loop\<close>

record pop3_cfg =
  cf_longline :: bool
  cf_username_length :: "32 word"
  cf_password_length :: "32 word"
  cf_request_length :: "32 word"
  cf_reply_length :: "32 word"
  cf_unknown_command :: bool
  cf_buffer_length :: "32 word"
  cf_authline_count :: "32 word"
  cf_reject_by_mail :: bool
  cf_request :: "bytes \<rightharpoonup> pyval"
  cf_response_stack :: "bytes \<rightharpoonup> pyval"

definition pop3_default_cfg :: pop3_cfg where
  "pop3_default_cfg = \<lparr>cf_longline = True, cf_username_length = 32, cf_password_length = 32, cf_request_length = 90,
     cf_reply_length = 512, cf_unknown_command = False, cf_buffer_length = 4096, cf_authline_count = 4,
     cf_reject_by_mail = True, cf_request = Map.empty, cf_response_stack = Map.empty\<rparr>"

definition pop3_register_vars :: "pop3_cfg \<Rightarrow> Pop3Proxy \<Rightarrow> Pop3Proxy" where
  "pop3_register_vars cfg s = s\<lparr>policy_enable_longline := cf_longline cfg, max_username_length := cf_username_length cfg,
     max_password_length := cf_password_length cfg, max_request_length := cf_request_length cfg,
     max_reply_length := cf_reply_length cfg, permit_unknown_command := cf_unknown_command cfg,
     buffer_length := cf_buffer_length cfg, max_authline_count := cf_authline_count cfg,
     reject_by_mail := cf_reject_by_mail cfg, commands_policy := cf_request cfg, command_stack := cf_response_stack cfg\<rparr>"

text \<open>The second adjustment takes the request length for the reply length, as the code does.\<close>

definition pop3_config_init :: "Pop3Proxy \<Rightarrow> Pop3Proxy" where
  "pop3_config_init s =
     (let s1 = (if buffer_length s < max_request_length s + 1 then s\<lparr>buffer_length := max_request_length s + 1\<rparr> else s)
      in if buffer_length s1 < max_reply_length s1 + 1 then s1\<lparr>buffer_length := max_request_length s1 + 1\<rparr> else s1)"

definition pop3_config :: "pop3_cfg \<Rightarrow> Pop3Proxy" where
  "pop3_config cfg = pop3_config_init (pop3_register_vars cfg pop3_set_defaults)"

record pop3_round =
  rd_running :: bool
  rd_loop :: bool
  rd_client :: "(giostatus \<times> bytes) option"
  rd_server :: "(giostatus \<times> bytes) option"
  rd_poll :: bool
  rd_xfer :: pop3_xfer

definition poll_fires :: "pop3_ext \<Rightarrow> pop3_round \<Rightarrow> unit p3m" where
  "poll_fires x r = do {
     cond \<leftarrow> gets p3_cond;
     (case rd_client r of
        None \<Rightarrow> return ()
      | Some (res, line) \<Rightarrow> if cond EP_CLIENT then pop3_client_to_server x res line else return ());
     (case rd_server r of
        None \<Rightarrow> return ()
      | Some (res, line) \<Rightarrow> if cond EP_SERVER then pop3_server_to_client x res line else return ());
     (if \<not> rd_poll r then set_pop3_state POP3_STATE_QUIT else return ())
   }"

definition pop3_main_iteration :: "pop3_ext \<Rightarrow> pop3_round \<Rightarrow> unit p3m" where
  "pop3_main_iteration x r =
     (if \<not> rd_loop r then set_pop3_state POP3_STATE_QUIT
      else do {
        st \<leftarrow> gets p3_state;
        (case st of
           POP3_CLIENT \<Rightarrow> do { modify (\<lambda>s. s\<lparr>p3_cond := (\<lambda>ep. ep = EP_CLIENT)\<rparr>); poll_fires x r }
         | POP3_SERVER \<Rightarrow> do { modify (\<lambda>s. s\<lparr>p3_cond := (\<lambda>ep. ep = EP_SERVER)\<rparr>); poll_fires x r }
         | POP3_SERVER_MULTILINE \<Rightarrow> do { pop3_response_multiline x (rd_xfer r); return () })
      })"

fun pop3_main_loop :: "pop3_ext \<Rightarrow> pop3_round list \<Rightarrow> unit p3m" where
  "pop3_main_loop x [] = return ()"
| "pop3_main_loop x (r # rs) = do {
     st \<leftarrow> gets pop3_state;
     if st = POP3_STATE_QUIT \<or> \<not> rd_running r then return ()
     else do { pop3_main_iteration x r; pop3_main_loop x rs }
   }"

text \<open>The session of a proxy whose server connection and streams were set up.\<close>

definition pop3_main :: "pop3_ext \<Rightarrow> pop3_cfg \<Rightarrow> bool \<Rightarrow> pop3_round list \<Rightarrow> Pop3Proxy" where
  "pop3_main x cfg connected rounds =
     (if \<not> connected then pop3_config cfg
      else snd (run_state (pop3_main_loop x rounds)
        ((pop3_config cfg)\<lparr>pop3_state := POP3_STATE_LISTEN, p3_state := POP3_SERVER, p3_cond := (\<lambda>ep. ep = EP_SERVER)\<rparr>)))"

section \<open>What the handlers leave alone\<close>

text \<open>Policy functions that do not rewrite the status of a response (they may rewrite everything else).\<close>

definition keeps_response :: "pop3_ext \<Rightarrow> bool" where
  "keeps_response x \<longleftrightarrow> (\<forall>s f. response (snd (px_call x s f)) = response (p3_vars s)) \<and>
     (\<forall>s name. response (px_method x s name) = response (p3_vars s))"

locale pop3_frame =
  fixes x :: pop3_ext and I :: "Pop3Proxy \<Rightarrow> bool"
  assumes log: "I s \<Longrightarrow> I (s\<lparr>p3_hist := e # p3_hist s\<rparr>)"
    and vars: "I s \<Longrightarrow> (keeps_response x \<Longrightarrow> response v = response (p3_vars s)) \<Longrightarrow> I (s\<lparr>p3_vars := v\<rparr>)"
    and crash: "I s \<Longrightarrow> I (s\<lparr>p3_crashed := True\<rparr>)"
    and names: "I s \<Longrightarrow> I (s\<lparr>p3_username := u\<rparr>)" "I s \<Longrightarrow> I (s\<lparr>p3_password := p\<rparr>)"
begin

lemma keeps_log: "keeps I (p3_log e)"
  by (simp add: p3_log_def keeps_modify log)

lemma keeps_crash: "keeps I p3_crash"
  by (simp add: p3_crash_def keeps_modify crash)

lemma keeps_upd: "(\<And>v. response (f v) = response v) \<Longrightarrow> keeps I (p3_upd f)"
  by (simp add: p3_upd_def keeps_modify vars)

lemma keeps_names: "keeps I (modify (\<lambda>s. s\<lparr>p3_username := u\<rparr>))" "keeps I (modify (\<lambda>s. s\<lparr>p3_password := p\<rparr>))"
  by (simp_all add: keeps_modify names)

lemma keeps_calls: "keeps I (p3_call x f)" "keeps I (p3_method x name)"
  using vars [OF log]
  by (auto intro!: keepsI simp: keeps_response_def p3_call_def p3_method_def p3_log_def p3_upd_def)

lemma keeps_reports: "keeps I (p3_report_policy_abort x)" "keeps I (p3_report_invalid_policy x)"
  by (simp_all add: p3_report_policy_abort_def p3_report_invalid_policy_def keeps_calls)

lemma keeps_copy: "keeps I (bounded_copy n bs)"
  unfolding bounded_copy_def by (intro keeps_intros keeps_crash)

lemma keeps_writes: "keeps I (p3_write x ep msg)" "keeps I (pop3_write_client x msg)" "keeps I (pop3_write_server x msg)"
  unfolding pop3_write_client_def pop3_write_server_def p3_write_def by (intro keeps_intros keeps_log)+

lemma keeps_output:
  "keeps I (pop3_error_msg x info)" "keeps I (pop3_response_write x)" "keeps I (pop3_response_reject x m)"
  "keeps I (pop3_command_write x)" "keeps I (pop3_command_reject x)"
  unfolding pop3_error_msg_def pop3_response_write_def pop3_response_reject_def pop3_command_write_def
    pop3_command_reject_def
  by (intro keeps_intros keeps_writes keeps_copy keeps_crash)+

lemma keeps_hash_type: "keeps I (pop3_hash_get_type e)"
  unfolding pop3_hash_get_type_def by (intro keeps_intros keeps_crash)

lemma keeps_verdicts: "keeps I (request_verdict x r)" "keeps I (response_verdict x r)"
  unfolding request_verdict_def response_verdict_def by (intro keeps_intros keeps_reports keeps_upd; simp)+

lemma keeps_policy:
  "keeps I (pop3_policy_command_hash_do x)" "keeps I (pop3_policy_response_hash_do x)" "keeps I (pop3_policy_stack_hash_do x)"
  unfolding pop3_policy_command_hash_do_def pop3_policy_response_hash_do_def pop3_policy_stack_hash_do_def stack_object_def
  by (intro keeps_intros keeps_reports keeps_calls keeps_hash_type keeps_verdicts keeps_upd keeps_log; simp)+

lemma keeps_parsers:
  "keeps I (Pop3ParseNoarg x)" "keeps I (Pop3ParseNum_One x)" "keeps I (Pop3ParseNum_OneOptional x)"
  "keeps I (Pop3ParseNum_Two x)" "keeps I (Pop3ParseRETR x)" "keeps I (Pop3ParseUSER x)" "keeps I (Pop3ParsePASS x)"
  "keeps I (Pop3ParseAPOP x)" "keeps I (Pop3AnswerParseNum_One x)" "keeps I (Pop3AnswerParseNum_Two x)"
  unfolding Pop3ParseNoarg_def Pop3ParseNum_OneOptional_def Pop3ParseNum_One_def Pop3ParseNum_Two_def
    Pop3ParseRETR_def Pop3ParseUSER_def Pop3ParsePASS_def Pop3ParseAPOP_def Pop3AnswerParseNum_One_def
    Pop3AnswerParseNum_Two_def
  by (intro keeps_intros keeps_upd keeps_copy keeps_crash keeps_names; simp)+

end

section \<open>Logging in\<close>

definition PASS :: bytes where "PASS = bytes_of ''PASS''"
definition APOP :: bytes where "APOP = bytes_of ''APOP''"
definition AUTH :: bytes where "AUTH = bytes_of ''AUTH''"

text \<open>The client has sent a request that logs in; the server has answered one with \<^verbatim>\<open>+OK\<close>.\<close>

definition asked :: "p3_event list \<Rightarrow> bool" where
  "asked h \<longleftrightarrow> (\<exists>line. P3Read EP_CLIENT G_IO_STATUS_NORMAL line \<in> set h \<and> request_name line \<in> {PASS, APOP, AUTH})"

definition logged_in :: "p3_event list \<Rightarrow> bool" where
  "logged_in h \<longleftrightarrow> (\<exists>h1 line h2. h = h1 @ P3Read EP_SERVER G_IO_STATUS_NORMAL line # h2 \<and> is_prefix OK line \<and> asked h2)"

lemma asked_Cons: "asked h \<Longrightarrow> asked (e # h)"
  by (auto simp: asked_def)

lemma logged_in_Cons: "logged_in h \<Longrightarrow> logged_in (e # h)"
  unfolding logged_in_def by (metis append_Cons)

text \<open>What decides: the command whose response is awaited, and the state.\<close>

definition login_pending :: "Pop3Proxy \<Rightarrow> bool" where
  "login_pending s \<longleftrightarrow> command_desc s \<in> {Some PASS, Some APOP} \<or> pop3_state s \<in> {POP3_STATE_AUTH_A, POP3_STATE_AUTH_A_CANCEL}"

definition login_inv :: "Pop3Proxy \<Rightarrow> bool" where
  "login_inv s \<longleftrightarrow> (login_pending s \<longrightarrow> asked (p3_hist s)) \<and> (pop3_state s = POP3_STATE_TRANS \<longrightarrow> logged_in (p3_hist s))"

text \<open>While a request is handled: the line it came in is on record.\<close>

definition request_inv :: "Pop3Proxy \<Rightarrow> bool" where
  "request_inv s \<longleftrightarrow> login_inv s \<and> P3Read EP_CLIENT G_IO_STATUS_NORMAL (request_line s) \<in> set (p3_hist s) \<and>
     (\<forall>n. command_desc s = Some n \<longrightarrow> n = request_name (request_line s))"

text \<open>While a response is handled: it came after what asked for it, and its status is the one received.\<close>

definition response_read :: "Pop3Proxy \<Rightarrow> bool" where
  "response_read s \<longleftrightarrow> login_inv s \<and> (\<exists>h1 h2. p3_hist s = h1 @ P3Read EP_SERVER G_IO_STATUS_NORMAL (reply_line s) # h2 \<and>
     (login_pending s \<longrightarrow> asked h2))"

definition response_inv :: "Pop3Proxy \<Rightarrow> bool" where
  "response_inv s \<longleftrightarrow> response_read s \<and> (cstr (response (p3_vars s)) = OK \<longrightarrow> is_prefix OK (reply_line s))"

lemma login_inv_updates [simp]:
  "login_inv s \<Longrightarrow> login_inv (s\<lparr>p3_hist := e # p3_hist s\<rparr>)" "login_inv (s\<lparr>p3_vars := v\<rparr>) = login_inv s"
  "login_inv s \<Longrightarrow> login_inv (s\<lparr>p3_vars := v, p3_hist := e # p3_hist s\<rparr>)"
  "login_inv (s\<lparr>p3_crashed := c\<rparr>) = login_inv s" "login_inv (s\<lparr>p3_username := u\<rparr>) = login_inv s"
  "login_inv (s\<lparr>p3_password := u\<rparr>) = login_inv s" "login_inv (s\<lparr>request_line := l\<rparr>) = login_inv s"
  "login_inv (s\<lparr>reply_line := l\<rparr>) = login_inv s" "login_inv (s\<lparr>auth_lines := n\<rparr>) = login_inv s"
  "login_inv (s\<lparr>p3_state := ps\<rparr>) = login_inv s" "login_inv (s\<lparr>p3_cond := cs\<rparr>) = login_inv s"
  "login_inv (s\<lparr>timestamp := tm\<rparr>) = login_inv s"
  "login_inv (s\<lparr>mail_from := a, mail_to := b, mail_subject := d\<rparr>) = login_inv s"
  by (auto simp: login_inv_def login_pending_def asked_Cons logged_in_Cons)

lemma login_pending_updates [simp]:
  "login_pending (s\<lparr>p3_hist := h\<rparr>) = login_pending s" "login_pending (s\<lparr>p3_vars := v\<rparr>) = login_pending s"
  "login_pending (s\<lparr>p3_crashed := c\<rparr>) = login_pending s" "login_pending (s\<lparr>p3_username := u\<rparr>) = login_pending s"
  "login_pending (s\<lparr>p3_password := u\<rparr>) = login_pending s" "login_pending (s\<lparr>reply_line := l\<rparr>) = login_pending s"
  "login_pending (s\<lparr>timestamp := t\<rparr>) = login_pending s" "login_pending (s\<lparr>auth_lines := n\<rparr>) = login_pending s"
  by (simp_all add: login_pending_def)

lemma response_read_Cons: "response_read s \<Longrightarrow> response_read (s\<lparr>p3_hist := e # p3_hist s\<rparr>)"
  unfolding response_read_def by (simp, metis append_Cons)

interpretation login: pop3_frame x "\<lambda>s. keeps_response x \<longrightarrow> login_inv s" for x
  by unfold_locales auto

interpretation request: pop3_frame x "\<lambda>s. keeps_response x \<longrightarrow> request_inv s" for x
  by unfold_locales (auto simp: request_inv_def)

interpretation answer: pop3_frame x "\<lambda>s. keeps_response x \<longrightarrow> response_inv s" for x
  by unfold_locales (auto simp: response_inv_def response_read_Cons, auto simp: response_read_def)

text \<open>Requests.\<close>

lemma bytes_of_inject [simp]: "bytes_of a = bytes_of b \<longleftrightarrow> a = b"
proof -
  have "inj (of_char :: char \<Rightarrow> byte)"
    by (metis injI of_char_eq_iff unat_of_char)
  then show ?thesis by (simp add: bytes_of_def inj_map_eq_map)
qed

lemma known_command_in: "known_command n = Some d \<Longrightarrow> (n, d) \<in> set known_commands"
  unfolding known_command_def by (rule map_of_SomeD)

lemma login_states [simp]:
  "login_inv (s\<lparr>pop3_state := POP3_STATE_QUIT\<rparr>) \<longleftrightarrow> (command_desc s \<in> {Some PASS, Some APOP} \<longrightarrow> asked (p3_hist s))"
  "login_inv (s\<lparr>pop3_state := POP3_STATE_AUTH\<rparr>) \<longleftrightarrow> (command_desc s \<in> {Some PASS, Some APOP} \<longrightarrow> asked (p3_hist s))"
  "login_inv (s\<lparr>pop3_state := POP3_STATE_AUTH_U\<rparr>) \<longleftrightarrow> (command_desc s \<in> {Some PASS, Some APOP} \<longrightarrow> asked (p3_hist s))"
  by (auto simp: login_inv_def login_pending_def pop3_states)

lemma login_inv_desc: "login_inv s \<Longrightarrow> command_desc s \<in> {Some PASS, Some APOP} \<Longrightarrow> asked (p3_hist s)"
  by (auto simp: login_inv_def login_pending_def)

lemma keeps_login_base: "keeps login_inv (p3_upd f)" "keeps login_inv (p3_log e)"
  by (simp_all add: p3_upd_def p3_log_def keeps_modify)

lemma keeps_login_states:
  "keeps login_inv (set_pop3_state POP3_STATE_QUIT)" "keeps login_inv (set_pop3_state POP3_STATE_AUTH)"
  "keeps login_inv (set_p3_state ps)"
  by (simp_all add: set_pop3_state_def set_p3_state_def keeps_modify login_inv_desc)

lemma request_asked:
  "P3Read EP_CLIENT G_IO_STATUS_NORMAL line \<in> set h \<Longrightarrow> request_name line \<in> {PASS, APOP, AUTH} \<Longrightarrow> asked h"
  unfolding asked_def by blast

lemma request_parsed:
  "hoare (\<lambda>s. login_inv s \<and> P3Read EP_CLIENT G_IO_STATUS_NORMAL (request_line s) \<in> set (p3_hist s))
     pop3_command_parse (\<lambda>r s. if r = POP3_REQ_ACCEPT then request_inv s else login_inv s)"
proof (rule hoareI)
  fix s r s'
  assume pre: "login_inv s \<and> P3Read EP_CLIENT G_IO_STATUS_NORMAL (request_line s) \<in> set (p3_hist s)"
    and run: "run_state pop3_command_parse s = (r, s')"
  let ?n = "request_name (request_line s)"
  let ?u = "\<lambda>v. s\<lparr>p3_vars := v, command_desc := (if known_command ?n = None then None else Some ?n)\<rparr>"
  have "?n \<in> {PASS, APOP} \<Longrightarrow> asked (p3_hist s)"
    using request_asked [of "request_line s" "p3_hist s"] pre by blast
  then have "request_inv (?u v)" for v
    using pre by (auto simp: request_inv_def login_inv_def login_pending_def split: if_splits)
  moreover have "request_inv t \<Longrightarrow> login_inv t" for t by (simp add: request_inv_def)
  moreover have "(r = POP3_REQ_ABORT \<and> s' = s) \<or> (\<exists>v. s' = ?u v)"
    using run by (cases "known_command ?n") (auto simp: pop3_command_parse_def p3_upd_def Let_def split: if_splits)
  ultimately show "if r = POP3_REQ_ACCEPT then request_inv s' else login_inv s'"
    using pre by (auto simp: pop3_verdicts)
qed

lemma command_parse_login:
  assumes "keeps_response x" and "known_command n = Some d"
  shows "hoare (\<lambda>s. request_inv s \<and> command_desc s = Some n) (command_parse d x) (\<lambda>_. login_inv)"
proof (cases "n = AUTH")
  case True
  then have "command_parse d = Pop3ParseAUTH"
    using assms(2) by (simp add: known_command_def known_commands_def AUTH_def) auto
  moreover have "login_inv (s\<lparr>pop3_state := POP3_STATE_AUTH_A, auth_lines := 0\<rparr>)"
    if "request_inv s" "command_desc s = Some n" for s
    using that True request_asked [of "request_line s" "p3_hist s"]
    by (auto simp: request_inv_def login_inv_def login_pending_def pop3_states)
  ultimately show ?thesis
    by (auto intro!: hoareI simp: Pop3ParseAUTH_def set_pop3_state_def)
next
  case False
  have "keeps request_inv (command_parse d x)"
    using known_command_in [OF assms(2)] False request.keeps_parsers [of x] assms(1)
    by (auto simp: known_commands_def AUTH_def)
  then show ?thesis by (rule hoare_weaken [OF keeps_hoare]) (auto simp: request_inv_def)
qed

lemma request_processed:
  assumes "keeps_response x"
  shows "hoare request_inv (pop3_command_process x) (\<lambda>_. login_inv)"
  unfolding pop3_command_process_def
proof (rule hoare_keeps_bind)
  show "keeps request_inv (pop3_policy_command_hash_do x)" using request.keeps_policy(1) [of x] assms by simp
next
  fix res :: int
  have weak: "hoare request_inv (return res) (\<lambda>_. login_inv)"
    by (rule hoare_return) (simp add: request_inv_def)
  have cmd: "hoare (\<lambda>s. request_inv s \<and> command_desc s = desc)
      (case Option.bind desc known_command of
         None \<Rightarrow> return res
       | Some d \<Rightarrow> do { p3_upd (\<lambda>v. v\<lparr>response_multiline := multi_line_response d\<rparr>); command_parse d x })
      (\<lambda>_. login_inv)" for desc
  proof (cases "Option.bind desc known_command")
    case None
    then show ?thesis using weak by (auto intro: hoare_weaken)
  next
    case (Some d)
    then obtain n where n: "desc = Some n" "known_command n = Some d" by (auto simp: Option.bind_eq_Some_conv)
    have "hoare (\<lambda>s. request_inv s \<and> command_desc s = desc) (p3_upd (\<lambda>v. v\<lparr>response_multiline := multi_line_response d\<rparr>))
        (\<lambda>_ s. request_inv s \<and> command_desc s = Some n)"
      using n(1) by (auto intro!: hoareI simp: p3_upd_def request_inv_def)
    from hoare_bind [OF this command_parse_login [OF assms n(2)]] Some show ?thesis by simp
  qed
  show "hoare request_inv (if res = POP3_REQ_ACCEPT then do {
      desc \<leftarrow> gets command_desc;
      case Option.bind desc known_command of
        None \<Rightarrow> return res
      | Some d \<Rightarrow> do { p3_upd (\<lambda>v. v\<lparr>response_multiline := multi_line_response d\<rparr>); command_parse d x }
    } else return res) (\<lambda>_. login_inv)"
    by (intro hoare_if hoare_gets_bind cmd weak)
qed

lemma auth_client_login:
  "hoare (\<lambda>s. login_inv s \<and> pop3_state s = POP3_STATE_AUTH_A) (pop3_auth_parse EP_CLIENT) (\<lambda>_. login_inv)"
  by (rule hoareI) (auto simp: pop3_auth_parse_def auth_count_check_def p3_upd_def set_pop3_state_def Let_def login_inv_def
      login_pending_def pop3_states split: if_splits)

lemma keeps_request_action:
  assumes "keeps_response x"
  shows "keeps login_inv (request_action x resp)"
  using login.keeps_output [of x] assms unfolding request_action_def
  by (auto intro!: keeps_intros keeps_login_states)

lemma keeps_client_to_server:
  assumes "keeps_response x"
  shows "keeps login_inv (pop3_client_to_server x res line)"
proof -
  let ?J = "\<lambda>s. login_inv s \<and> P3Read EP_CLIENT G_IO_STATUS_NORMAL (request_line s) \<in> set (p3_hist s)"
  have read1: "hoare login_inv (pop3_command_read x res line) (\<lambda>ok s. if ok then ?J s else login_inv s)"
  proof (cases "res = G_IO_STATUS_NORMAL")
    case True
    then show ?thesis by (auto intro!: hoareI simp: pop3_command_read_def p3_upd_def p3_log_def)
  next
    case False
    have "keeps login_inv (pop3_command_read x res line)"
      using login.keeps_output(5) [of x] assms False
      unfolding pop3_command_read_def by (auto intro!: keeps_intros keeps_login_base)
    moreover have "hoare (\<lambda>_. True) (pop3_command_read x res line) (\<lambda>ok _. \<not> ok)"
      using False by (auto intro!: hoareI simp: pop3_command_read_def split: prod.splits)
    ultimately show ?thesis by (intro hoareI) (auto dest: keepsD hoareD)
  qed
  have parse1: "hoare ?J (do { resp \<leftarrow> pop3_command_parse;
      if resp = POP3_REQ_ACCEPT then pop3_command_process x else return resp }) (\<lambda>_. login_inv)"
    by (rule hoare_bind [OF request_parsed])
      (use request_processed [OF assms] in \<open>auto intro: hoare_return\<close>)
  have act: "hoare (\<lambda>s. ?J s \<and> pop3_state s = st) (do {
      resp \<leftarrow> (if st \<noteq> POP3_STATE_AUTH_A then do {
        resp \<leftarrow> pop3_command_parse;
        if resp = POP3_REQ_ACCEPT then pop3_command_process x else return resp
      } else pop3_auth_parse EP_CLIENT);
      request_action x resp }) (\<lambda>_. login_inv)" for st
  proof (rule hoare_bind [where R = "\<lambda>_. login_inv"])
    show "hoare (\<lambda>s. ?J s \<and> pop3_state s = st) (if st \<noteq> POP3_STATE_AUTH_A then do {
        resp \<leftarrow> pop3_command_parse;
        if resp = POP3_REQ_ACCEPT then pop3_command_process x else return resp
      } else pop3_auth_parse EP_CLIENT) (\<lambda>_. login_inv)"
      by (rule hoare_if) (rule hoare_weaken [OF parse1] hoare_weaken [OF auth_client_login]; simp)+
    show "hoare login_inv (request_action x resp) (\<lambda>_. login_inv)" for resp
      using keeps_request_action [OF assms] by (simp add: keeps_def)
  qed
  have body: "hoare login_inv (pop3_command_read x res line \<bind> (\<lambda>ok.
      if \<not> ok then set_pop3_state POP3_STATE_QUIT
      else do {
        st \<leftarrow> gets pop3_state;
        resp \<leftarrow> (if st \<noteq> POP3_STATE_AUTH_A then do {
          resp \<leftarrow> pop3_command_parse;
          if resp = POP3_REQ_ACCEPT then pop3_command_process x else return resp
        } else pop3_auth_parse EP_CLIENT);
        request_action x resp })) (\<lambda>_. login_inv)"
    by (rule hoare_bool_bind [OF read1])
      (use hoare_gets_bind [OF act] keeps_login_states(1) in \<open>simp_all add: keeps_def\<close>)
  show ?thesis
    unfolding pop3_client_to_server_def keeps_def
    by (rule hoare_keeps_bind [OF keeps_login_base(1) body])
qed

text \<open>Responses.\<close>

lemma is_prefix_iff: "is_prefix p bs \<longleftrightarrow> (\<exists>r. bs = p @ r)"
  unfolding is_prefix_def by (metis append_eq_conv_conj append_take_drop_id)

lemma prefix_word: "is_prefix (cstr (first_word n line)) line"
proof -
  have "\<exists>ys. xs = takeWhile P xs @ ys" "\<exists>ys. xs = take n xs @ ys" for P and xs :: bytes
    by (metis takeWhile_dropWhile_id, metis append_take_drop_id)
  then obtain a b c where "first_word n line = cstr (first_word n line) @ a"
      "takeWhile (\<lambda>b. b \<noteq> 32) line = first_word n line @ b" "line = takeWhile (\<lambda>b. b \<noteq> 32) line @ c"
    unfolding cstr_def first_word_def by metis
  then show ?thesis unfolding is_prefix_iff by (metis append.assoc)
qed

lemma response_logged_in:
  "response_read s \<Longrightarrow> login_pending s \<Longrightarrow> is_prefix OK (reply_line s) \<Longrightarrow> logged_in (p3_hist s)"
  unfolding response_read_def logged_in_def by blast

lemma response_parsed:
  "hoare response_read pop3_response_parse (\<lambda>r s. if r = POP3_RSP_ACCEPT then response_inv s else login_inv s)"
proof (rule hoareI)
  fix s r s'
  assume pre: "response_read s" and run: "run_state pop3_response_parse s = (r, s')"
  have vars: "response_read (s\<lparr>p3_vars := v\<rparr>)" for v using pre by (simp add: response_read_def)
  have "login_inv s" using pre by (simp add: response_read_def)
  moreover have "cstr (first_word 4 (reply_line s)) = ERR \<Longrightarrow> cstr ERR = ERR" by (metis cstr_idem)
  ultimately show "if r = POP3_RSP_ACCEPT then response_inv s' else login_inv s'"
    using run vars prefix_word [of 4 "reply_line s"]
    by (auto simp: pop3_response_parse_def p3_upd_def Let_def response_inv_def pop3_verdicts split: if_splits)
qed

lemma answer_login:
  assumes "keeps_response x" and "known_command n = Some d" and "response_parse d = Some f"
  shows "hoare (\<lambda>s. response_inv s \<and> command_desc s = Some n) (f x) (\<lambda>_. login_inv)"
proof -
  have inv: "response_inv s \<Longrightarrow> login_inv s" for s by (simp add: response_inv_def response_read_def)
  have weak: "keeps response_inv m \<Longrightarrow> hoare (\<lambda>s. response_inv s \<and> command_desc s = Some n) m (\<lambda>_. login_inv)" for m :: "int p3m"
    by (rule hoare_weaken [OF keeps_hoare [of response_inv m login_inv]]) (auto dest: inv)
  have trans: "login_inv (s\<lparr>pop3_state := (if cstr (response (p3_vars s)) = OK then POP3_STATE_TRANS else POP3_STATE_AUTH)\<rparr>)"
    if "response_inv s" "command_desc s = Some n" "n \<in> {PASS, APOP}" for s
  proof -
    have "login_pending s" using that by (auto simp: login_pending_def)
    with that response_logged_in [of s] login_inv_desc [OF inv [OF that(1)]] show ?thesis
      by (auto simp: response_inv_def login_inv_def login_pending_def pop3_states)
  qed
  have desc: "command_desc s \<in> {Some PASS, Some APOP} \<longrightarrow> asked (p3_hist s)" if "response_inv s" for s
    using login_inv_desc [OF inv [OF that]] by blast
  have "(n \<in> {PASS, APOP} \<and> f \<in> {Pop3AnswerParsePASS, Pop3AnswerParseAPOP}) \<or> f \<in> {Pop3AnswerParseUSER, Pop3AnswerParseQUIT,
      Pop3AnswerParseNum_One, Pop3AnswerParseNum_Two}"
    using known_command_in [OF assms(2)] assms(3) by (auto simp: known_commands_def PASS_def APOP_def)
  then consider (login) "n \<in> {PASS, APOP}" "f \<in> {Pop3AnswerParsePASS, Pop3AnswerParseAPOP}"
    | (state) "f \<in> {Pop3AnswerParseUSER, Pop3AnswerParseQUIT}" | (num) "f \<in> {Pop3AnswerParseNum_One, Pop3AnswerParseNum_Two}"
    by blast
  then show ?thesis
  proof cases
    case login
    then show ?thesis
      by (intro hoareI) (auto simp: Pop3AnswerParsePASS_def Pop3AnswerParseAPOP_def set_pop3_state_def simp del: login_states
          dest!: trans)
  next
    case state
    then show ?thesis
      by (intro hoareI) (auto simp: Pop3AnswerParseUSER_def Pop3AnswerParseQUIT_def set_pop3_state_def inv dest: desc split: if_splits)
  next
    case num
    then show ?thesis using answer.keeps_parsers(9,10) [of x] assms(1) by (auto intro!: weak)
  qed
qed

lemma response_processed:
  assumes "keeps_response x"
  shows "hoare response_inv (pop3_response_process x) (\<lambda>_. login_inv)"
proof -
  have inv: "response_inv s \<Longrightarrow> login_inv s" for s by (simp add: response_inv_def response_read_def)
  have weak: "hoare response_inv (return ret) (\<lambda>_. login_inv)" for ret :: int
    by (rule hoare_return) (rule inv)
  have greet: "keeps response_inv (do { pop3_get_timestamp; set_pop3_state POP3_STATE_AUTH })"
  proof (rule keeps_bind)
    have "response_inv (s\<lparr>timestamp := t\<rparr>) = response_inv s" for s t
      by (simp add: response_inv_def response_read_def)
    then show "keeps response_inv pop3_get_timestamp"
      by (intro keepsI) (auto simp: pop3_get_timestamp_def Let_def)
    have "response_inv (s\<lparr>pop3_state := POP3_STATE_AUTH\<rparr>)" if "response_inv s" for s
    proof -
      have "login_pending (s\<lparr>pop3_state := POP3_STATE_AUTH\<rparr>) \<Longrightarrow> login_pending s"
        by (auto simp: login_pending_def pop3_states)
      with that login_inv_desc [OF inv [OF that]] show ?thesis
        unfolding response_inv_def response_read_def by auto
    qed
    then show "keeps response_inv (set_pop3_state POP3_STATE_AUTH)"
      by (simp add: set_pop3_state_def keeps_modify)
  qed
  have cmd: "hoare (\<lambda>s. response_inv s \<and> command_desc s = desc)
      (case Option.bind desc known_command of None \<Rightarrow> return ret
       | Some d \<Rightarrow> (case response_parse d of None \<Rightarrow> return ret | Some f \<Rightarrow> f x)) (\<lambda>_. login_inv)" for desc and ret :: int
  proof (cases "Option.bind desc known_command")
    case None
    then show ?thesis using weak by (auto intro: hoare_weaken)
  next
    case (Some d)
    then obtain n where n: "desc = Some n" "known_command n = Some d" by (auto simp: Option.bind_eq_Some_conv)
    show ?thesis
    proof (cases "response_parse d")
      case None
      then show ?thesis using Some weak [of ret] by (auto intro: hoare_weaken)
    next
      case f: (Some f)
      from answer_login [OF assms n(2) f] show ?thesis using Some f n(1) by simp
    qed
  qed
  have rest: "hoare response_inv (pop3_policy_response_hash_do x \<bind> (\<lambda>ret.
      if ret = POP3_RSP_ACCEPT then gets command_desc \<bind> (\<lambda>desc.
        case Option.bind desc known_command of None \<Rightarrow> return ret
        | Some d \<Rightarrow> (case response_parse d of None \<Rightarrow> return ret | Some f \<Rightarrow> f x))
      else return ret)) (\<lambda>_. login_inv)"
    using answer.keeps_policy(2) [of x] assms
    by (intro hoare_keeps_bind hoare_if hoare_gets_bind cmd weak) simp
  show ?thesis
    unfolding pop3_response_process_def
    by (intro hoare_keeps_bind [OF keeps_gets] hoare_keeps_bind [OF keeps_if] rest)
      (use greet keeps_return in \<open>simp_all add: keeps_def\<close>)
qed

lemma auth_server_login:
  "hoare (\<lambda>s. response_read s \<and> pop3_state s \<in> {POP3_STATE_AUTH_A, POP3_STATE_AUTH_A_CANCEL}) (pop3_auth_parse EP_SERVER)
     (\<lambda>_. login_inv)"
proof (rule hoareI)
  fix s r s'
  assume pre: "response_read s \<and> pop3_state s \<in> {POP3_STATE_AUTH_A, POP3_STATE_AUTH_A_CANCEL}"
    and run: "run_state (pop3_auth_parse EP_SERVER) s = (r, s')"
  then have pend: "login_pending s" "login_inv s" "asked (p3_hist s)"
    by (auto simp: login_pending_def response_read_def login_inv_def)
  have "is_prefix (bytes_of ''+OK '') (cstr (reply_line s)) \<Longrightarrow> is_prefix OK (reply_line s)"
  proof -
    assume "is_prefix (bytes_of ''+OK '') (cstr (reply_line s))"
    then obtain r where "cstr (reply_line s) = OK @ [32] @ r"
      by (auto simp: is_prefix_iff OK_def bytes_of_def)
    moreover obtain t where "reply_line s = cstr (reply_line s) @ t" by (metis cstr_def takeWhile_dropWhile_id)
    ultimately show ?thesis by (auto simp: is_prefix_iff)
  qed
  then have "is_prefix (bytes_of ''+OK '') (cstr (reply_line s)) \<Longrightarrow> logged_in (p3_hist s)"
    using response_logged_in [of s] pre pend(1) by blast
  then show "login_inv s'"
    using run pend by (auto simp: pop3_auth_parse_def auth_count_check_def p3_upd_def set_pop3_state_def Let_def
        login_inv_def login_pending_def pop3_states split: if_splits)
qed

lemma keeps_server_to_client:
  assumes "keeps_response x"
  shows "keeps login_inv (pop3_server_to_client x res line)"
proof (cases "res = G_IO_STATUS_NORMAL")
  case False
  then show ?thesis
    using login.keeps_output(3) [of x] assms unfolding pop3_server_to_client_def pop3_response_read_def
    by (auto intro!: keeps_intros keeps_login_base keeps_login_states)
next
  case True
  let ?body = "\<lambda>st. if st \<noteq> POP3_STATE_AUTH_A \<and> st \<noteq> POP3_STATE_AUTH_A_CANCEL then do {
      resp \<leftarrow> pop3_response_parse;
      if resp = POP3_RSP_ACCEPT then pop3_response_process x else return resp
    } else pop3_auth_parse EP_SERVER"
  have read1: "hoare login_inv (pop3_response_read res line) (\<lambda>rc s. rc = res \<and> response_read s)"
  proof -
    have "response_read (s\<lparr>p3_hist := P3Read EP_SERVER G_IO_STATUS_NORMAL line # p3_hist s, reply_line := line\<rparr>)"
      if "login_inv s" for s
    proof -
      have "P3Read EP_SERVER G_IO_STATUS_NORMAL line # p3_hist s = [] @ P3Read EP_SERVER G_IO_STATUS_NORMAL line # p3_hist s \<and>
          (login_pending s \<longrightarrow> asked (p3_hist s))"
        using that by (simp add: login_inv_def)
      with that show ?thesis unfolding response_read_def by (simp only: login_inv_updates login_pending_updates) (simp, blast)
    qed
    then show ?thesis using True by (auto intro!: hoareI simp: pop3_response_read_def p3_log_def)
  qed
  have parse1: "hoare response_read (do { resp \<leftarrow> pop3_response_parse;
      if resp = POP3_RSP_ACCEPT then pop3_response_process x else return resp }) (\<lambda>_. login_inv)"
    by (rule hoare_bind [OF response_parsed]) (use response_processed [OF assms] in \<open>auto intro: hoare_return\<close>)
  have body: "hoare (\<lambda>s. response_read s \<and> pop3_state s = st) (?body st) (\<lambda>_. login_inv)" for st
    by (rule hoare_if) (rule hoare_weaken [OF parse1] hoare_weaken [OF auth_server_login]; auto)+
  have act: "keeps login_inv (response_action x resp)" for resp
    using login.keeps_output [of x] assms unfolding response_action_def
    by (auto intro!: keeps_intros keeps_login_states)
  have "hoare response_read (do { st \<leftarrow> gets pop3_state; resp \<leftarrow> ?body st; response_action x resp }) (\<lambda>_. login_inv)"
    by (intro hoare_gets_bind hoare_bind [OF body]) (use act in \<open>simp add: keeps_def\<close>)
  then have "hoare (\<lambda>s. rc = res \<and> response_read s) (if rc \<noteq> G_IO_STATUS_NORMAL then do {
        (if rc \<noteq> G_IO_STATUS_EOF then pop3_response_reject x None else return ());
        set_pop3_state POP3_STATE_QUIT
      } else do { st \<leftarrow> gets pop3_state; resp \<leftarrow> ?body st; response_action x resp }) (\<lambda>_. login_inv)" for rc
    using True by (auto intro: hoare_weaken simp: hoare_def)
  then show ?thesis
    unfolding pop3_server_to_client_def keeps_def by (rule hoare_bind [OF read1])
qed

lemma keeps_multiline:
  assumes "keeps_response x"
  shows "keeps login_inv (pop3_response_multiline x xf)"
proof -
  have headers: "keeps login_inv (set_mail_headers h)" for h
    by (simp add: set_mail_headers_def keeps_modify)
  have crash: "keeps login_inv p3_crash" by (simp add: p3_crash_def keeps_modify)
  have finish: "keeps login_inv (finish_transfer x t)" for t
    using login.keeps_output [of x] login.keeps_writes [of x] assms unfolding finish_transfer_def
    by (auto intro!: keeps_intros keeps_login_states simp: Let_def)
  have "keeps login_inv (pop3_data_transfer x xf)"
    using login.keeps_policy(3) [of x] assms unfolding pop3_data_transfer_def
    by (auto intro!: keeps_intros keeps_login_base headers crash finish simp: Let_def)
  then show ?thesis
    unfolding pop3_response_multiline_def by (intro keeps_intros keeps_login_states)
qed

lemma keeps_iteration:
  assumes "keeps_response x"
  shows "keeps login_inv (pop3_main_iteration x r)"
proof -
  have cond: "keeps login_inv (modify (\<lambda>s. s\<lparr>p3_cond := c\<rparr>))" for c by (simp add: keeps_modify)
  have fires: "keeps login_inv (poll_fires x r)"
    using keeps_client_to_server [OF assms] keeps_server_to_client [OF assms] unfolding poll_fires_def
    by (auto intro!: keeps_intros keeps_login_states)
  have case3: "keeps login_inv (case st of POP3_CLIENT \<Rightarrow> a | POP3_SERVER \<Rightarrow> b | POP3_SERVER_MULTILINE \<Rightarrow> c)"
    if "keeps login_inv a" "keeps login_inv b" "keeps login_inv c" for st and a b c :: "unit p3m"
    using that by (cases st) simp_all
  show ?thesis
    unfolding pop3_main_iteration_def
    by (intro keeps_intros keeps_login_states case3 cond fires keeps_multiline [OF assms])
qed

section \<open>Sessions\<close>

text \<open>The sessions of a proxy as a transition system: start-up, then iterations of the main loop.\<close>

definition pop3_starts :: "Pop3Proxy \<Rightarrow> bool" where
  "pop3_starts s \<longleftrightarrow> (\<exists>cfg. s = (pop3_config cfg)\<lparr>pop3_state := POP3_STATE_LISTEN, p3_state := POP3_SERVER,
     p3_cond := (\<lambda>ep. ep = EP_SERVER)\<rparr>)"

definition pop3_step :: "pop3_ext \<Rightarrow> Pop3Proxy \<Rightarrow> Pop3Proxy \<Rightarrow> bool" where
  "pop3_step x s t \<longleftrightarrow> pop3_state s \<noteq> POP3_STATE_QUIT \<and> (\<exists>r. run_state (pop3_main_iteration x r) s = ((), t))"

interpretation login_sessions: invariant_system pop3_starts "pop3_step x" "\<lambda>s. keeps_response x \<longrightarrow> login_inv s" for x
proof
  have "command_desc (pop3_config cfg) = None" for cfg
    by (simp add: pop3_config_def pop3_config_init_def pop3_register_vars_def pop3_set_defaults_def Let_def)
  then show "pop3_starts s \<Longrightarrow> keeps_response x \<longrightarrow> login_inv s" for s
    by (auto simp: pop3_starts_def login_inv_def login_pending_def pop3_states)
  show "keeps_response x \<longrightarrow> login_inv t" if "keeps_response x \<longrightarrow> login_inv s" and "pop3_step x s t" for s t
    using that keepsD [OF keeps_iteration] by (auto simp: pop3_step_def)
qed

text \<open>The main loop is a path of this system.\<close>

lemma main_reaches:
  "reach pop3_starts (pop3_step x) s \<Longrightarrow> reach pop3_starts (pop3_step x) (snd (run_state (pop3_main_loop x rounds) s))"
proof (induction rounds arbitrary: s)
  case (Cons r rs)
  show ?case
  proof (cases "pop3_state s = POP3_STATE_QUIT \<or> \<not> rd_running r")
    case True
    with Cons.prems show ?thesis by auto
  next
    case False
    obtain t where t: "run_state (pop3_main_iteration x r) s = ((), t)" by (metis (full_types) old.unit.exhaust surj_pair)
    then have "pop3_step x s t" using False by (auto simp: pop3_step_def)
    with Cons.prems have "reach pop3_starts (pop3_step x) t" by (rule reach_step)
    from Cons.IH [OF this] t False show ?thesis by simp
  qed
qed simp

section \<open>Sample sessions\<close>

definition open_cfg :: pop3_cfg where
  "open_cfg = pop3_default_cfg\<lparr>cf_request := [bytes_of ''*'' \<mapsto> PyInt 1]\<rparr>"

definition round_of :: "(giostatus \<times> bytes) option \<Rightarrow> (giostatus \<times> bytes) option \<Rightarrow> pop3_round" where
  "round_of c sv = \<lparr>rd_running = True, rd_loop = True, rd_client = c, rd_server = sv, rd_poll = True, rd_xfer = plain_xfer [] [] 0\<rparr>"

abbreviation client_says :: "string \<Rightarrow> pop3_round" where
  "client_says l \<equiv> round_of (Some (G_IO_STATUS_NORMAL, bytes_of l)) None"

abbreviation server_says :: "string \<Rightarrow> pop3_round" where
  "server_says l \<equiv> round_of None (Some (G_IO_STATUS_NORMAL, bytes_of l))"

definition pop3_login :: "pop3_round list" where
  "pop3_login = [server_says ''+OK hi'', client_says ''USER joe'', server_says ''+OK'', client_says ''pass x'', server_says ''+OK in'']"

lemmas pop3_eval = pop3_main_iteration_def poll_fires_def round_of_def
  pop3_server_to_client_def pop3_response_read_def p3_log_def pop3_response_parse_def first_word_def cstr_def
  bytes_of_def OK_def ERR_def p3_upd_def pop3_response_process_def pop3_get_timestamp_def set_pop3_state_def
  pop3_policy_response_hash_do_def hash_entry_def pop3_hash_get_type_def response_action_def pop3_response_write_def
  bounded_copy_def pop3_write_client_def pop3_write_server_def p3_write_def set_p3_state_def
  pop3_client_to_server_def pop3_command_read_def pop3_command_parse_def request_name_def ascii_up_def
  pop3_command_process_def pop3_policy_command_hash_do_def request_action_def pop3_command_write_def
  known_command_def known_commands_def Pop3ParseUSER_def Pop3ParsePASS_def Pop3AnswerParseUSER_def Pop3AnswerParsePASS_def
  quiet_pop3_def CRLF_def Let_def


section \<open>Properties\<close>

lemma session_login_inv:
  assumes "keeps_response x"
  shows "login_inv (pop3_main x cfg True rounds)"
proof -
  let ?start = "(pop3_config cfg)\<lparr>pop3_state := POP3_STATE_LISTEN, p3_state := POP3_SERVER, p3_cond := (\<lambda>ep. ep = EP_SERVER)\<rparr>"
  have "pop3_starts ?start" unfolding pop3_starts_def by (rule exI) (rule refl)
  then have "reach pop3_starts (pop3_step x) ?start" by (rule reach_init)
  then have "reach pop3_starts (pop3_step x) (pop3_main x cfg True rounds)"
    by (simp add: pop3_main_def main_reaches)
  from login_sessions.reach_inv [OF this] assms show ?thesis by blast
qed



text \<open>C13: A request the session is not ready for never reaches the server. In every state but the middle
  of an AUTH exchange, a known command whose table entry does not list the state is answered by
  \<^verbatim>\<open>-ERR Invalid command.\<close> (when the reply length has room for it), nothing else is written, no
  policy function runs and the session goes on in the same state.\<close>

theorem pop3_wrong_state_rejected:
  assumes "known_command (request_name line) = Some d" and "allowed_states d AND pop3_state s = 0"
    and "pop3_state s \<noteq> POP3_STATE_AUTH_A" and "length line \<le> unat (max_request_length s)"
    and "24 \<le> unat (max_reply_length s)" and "unat (max_reply_length s) < 2 ^ 32 - 1"
  shows "\<exists>res s'. run_state (pop3_client_to_server x G_IO_STATUS_NORMAL line) s = ((), s') \<and>
      p3_hist s' = P3Write EP_CLIENT (bytes_of ''-ERR Invalid command.'' @ CRLF) res #
        P3Read EP_CLIENT G_IO_STATUS_NORMAL line # p3_hist s \<and>
      pop3_state s' = pop3_state s \<and> p3_state s' = p3_state s \<and> p3_crashed s' = p3_crashed s"
proof -
  have len: "\<not> unat (max_request_length s) < length line" using assms(4) by simp
  have "unat (max_reply_length s + 1) = unat (max_reply_length s) + 1"
    using assms(6) by (simp add: unat_word_ariths)
  then have room: "max_reply_length s + 1 \<noteq> 0" "unat (max_reply_length s + 1) - 1 = unat (max_reply_length s)"
    by auto
  define reply where "reply = bytes_of ''-ERR Invalid command.'' @ CRLF"
  have reply: "cstr ERR @ 32 # cstr (bytes_of ''Invalid command.'') @ CRLF = reply" "cstr reply = reply"
    by (simp_all add: reply_def cstr_def ERR_def bytes_of_def CRLF_def)
  have full: "take (unat (max_reply_length s)) reply = reply"
    using assms(5) by (simp add: reply_def bytes_of_def CRLF_def)
  show ?thesis
    unfolding reply_def [symmetric] using assms(1-3) len room
    by (simp add: pop3_client_to_server_def pop3_command_read_def pop3_command_parse_def p3_upd_def p3_log_def
        request_action_def pop3_command_reject_def bounded_copy_def pop3_write_client_def p3_write_def pop3_verdicts
        Let_def reply full take_append [symmetric] del: take_append take_Cons' cong: bind_weak_cong)
qed

theorem pop3_wrong_state_rejected_witness:
  "\<exists>res s'. run_state (pop3_client_to_server quiet_pop3 G_IO_STATUS_NORMAL (bytes_of ''retr 1''))
      (pop3_set_defaults\<lparr>pop3_state := POP3_STATE_AUTH\<rparr>) = ((), s') \<and>
    p3_hist s' = [P3Write EP_CLIENT (bytes_of ''-ERR Invalid command.'' @ CRLF) res,
      P3Read EP_CLIENT G_IO_STATUS_NORMAL (bytes_of ''retr 1'')]"
proof -
  let ?s = "pop3_set_defaults\<lparr>pop3_state := POP3_STATE_AUTH\<rparr>"
  obtain d where d: "known_command (request_name (bytes_of ''retr 1'')) = Some d" "allowed_states d AND POP3_STATE_AUTH = 0"
    by (simp add: request_name_def first_word_def cstr_def ascii_up_def bytes_of_def known_command_def known_commands_def pop3_states)
  from pop3_wrong_state_rejected [OF d(1), of ?s quiet_pop3] d(2) show ?thesis
    by (auto simp: pop3_set_defaults_def bytes_of_def pop3_states)
qed

end
