(* ===== verification/Http_Url.thy ===== *)
theory Http_Url
  imports CString
begin

text \<open>
  URLs as \<^verbatim>\<open>modules/http/httpmisc.cc\<close> takes them apart and puts them together again: decoding and
  encoding of escapes, canonical form of queries, parsing and formatting. A source string is the rest
  of a C string, of which \<open>left\<close> bytes belong to the part that is decoded; bytes behind its end read
  as the terminating NUL.
\<close>

unbundle bit_operations_syntax

section \<open>Results\<close>

text \<open>A result, a refusal with its reason, or a read behind the part, which the code does not notice.\<close>

datatype 'a parsed = Parsed 'a | Refused string | Overrun

fun bind_parsed :: "'a parsed \<Rightarrow> ('a \<Rightarrow> 'b parsed) \<Rightarrow> 'b parsed" where
  "bind_parsed (Parsed a) f = f a"
| "bind_parsed (Refused r) f = Refused r"
| "bind_parsed Overrun f = Overrun"

abbreviation emit_before :: "bytes \<Rightarrow> bytes parsed \<Rightarrow> bytes parsed" where
  "emit_before bs r \<equiv> bind_parsed r (\<lambda>rest. Parsed (bs @ rest))"

definition at :: "bytes \<Rightarrow> nat \<Rightarrow> byte" where
  "at src i = (if i < length src then src ! i else 0)"

definition strchr :: "bytes \<Rightarrow> byte \<Rightarrow> bool" where
  "strchr chars c \<longleftrightarrow> c \<in> set chars \<or> c = 0"

section \<open>Hexadecimal digits\<close>

definition xdigit_value :: "byte \<Rightarrow> int" where
  "xdigit_value c =
     (let c = (if 65 \<le> c \<and> c \<le> 90 then c + 32 else c)
      in if 48 \<le> c \<and> c \<le> 57 then uint c - 48
         else if 97 \<le> c \<and> c \<le> 102 then uint c - 97 + 10
         else - 1)"

definition xdigit_char :: "int \<Rightarrow> byte" where
  "xdigit_char nibble =
     (if 0 \<le> nibble \<and> nibble \<le> 9 then word_of_int (nibble + 48)
      else if 10 \<le> nibble \<and> nibble \<le> 15 then word_of_int (nibble - 10 + 65)
      else 63)"

definition http_string_url_decode_hex_byte :: "bytes \<Rightarrow> byte option" where
  "http_string_url_decode_hex_byte src =
     (if isxdigit (at src 0) \<and> isxdigit (at src 1)
      then Some (word_of_int (xdigit_value (at src 0) * 16 + xdigit_value (at src 1)))
      else None)"

definition PERCENT :: byte where "PERCENT = 37"

definition hex_escape :: "byte \<Rightarrow> bytes" where
  "hex_escape c = [PERCENT, xdigit_char (uint ((c AND 0xf0) div 16)), xdigit_char (uint (c AND 0x0f))]"

definition too_short :: string where "too_short = ''Hexadecimal encoding too short''"
definition invalid_hex :: string where "invalid_hex = ''Invalid hexadecimal encoding''"
definition unicode_too_short :: string where "unicode_too_short = ''Unicode hexa encoding too short''"
definition not_ucs2 :: string where "not_ucs2 = ''Error recoding character, value not fitting into UCS2 found''"

section \<open>Decoding\<close>

fun http_string_assign_url_decode :: "bool \<Rightarrow> bytes \<Rightarrow> nat \<Rightarrow> bytes parsed" where
  "http_string_assign_url_decode permit_invalid src left =
     (if left = 0 then Parsed []
      else if at src 0 = PERCENT then
        (if left < 2 then
           (if permit_invalid then emit_before [PERCENT] (http_string_assign_url_decode permit_invalid (drop 1 src) (left - 1))
            else Refused too_short)
         else case http_string_url_decode_hex_byte (drop 1 src) of
           None \<Rightarrow>
             (if permit_invalid then emit_before [PERCENT] (http_string_assign_url_decode permit_invalid (drop 1 src) (left - 1))
              else Refused invalid_hex)
         | Some c \<Rightarrow>
             if left < 3 then Overrun
             else emit_before [c] (http_string_assign_url_decode permit_invalid (drop 3 src) (left - 3)))
      else emit_before [at src 0] (http_string_assign_url_decode permit_invalid (drop 1 src) (left - 1)))"

text \<open>A code unit as UTF-8.\<close>

definition unichar_to_utf8 :: "nat \<Rightarrow> bytes" where
  "unichar_to_utf8 c =
     (if c < 0x80 then [of_nat c]
      else if c < 0x800 then [of_nat (0xc0 + c div 0x40), of_nat (0x80 + c mod 0x40)]
      else [of_nat (0xe0 + c div 0x1000), of_nat (0x80 + c div 0x40 mod 0x40), of_nat (0x80 + c mod 0x40)])"

text \<open>The character an escape stands for: the value and how many bytes behind the percent sign it takes.\<close>

definition unicode_escape :: "bytes \<Rightarrow> nat \<Rightarrow> string + nat \<times> nat" where
  "unicode_escape src left =
     (if at src 1 \<noteq> 117 then
        (if left < 2 then Inl too_short
         else case http_string_url_decode_hex_byte (drop 1 src) of
           None \<Rightarrow> Inl invalid_hex
         | Some cb \<Rightarrow> Inr (unat cb, 2))
      else
        (if left < 4 then Inl unicode_too_short
         else case http_string_url_decode_hex_byte (drop 2 src) of
           None \<Rightarrow> Inl invalid_hex
         | Some cbhi \<Rightarrow>
             (case http_string_url_decode_hex_byte (drop 4 src) of
                None \<Rightarrow> Inl invalid_hex
              | Some cblo \<Rightarrow> Inr (unat cbhi * 256 + unat cblo, 5))))"

fun http_string_assign_url_decode_unicode :: "bool \<Rightarrow> bytes \<Rightarrow> nat \<Rightarrow> bytes parsed" where
  "http_string_assign_url_decode_unicode permit_invalid src left =
     (if left = 0 then Parsed []
      else if at src 0 = PERCENT then
        (case unicode_escape src left of
           Inl reason \<Rightarrow>
             (if permit_invalid
              then emit_before [PERCENT] (http_string_assign_url_decode_unicode permit_invalid (drop 1 src) (left - 1))
              else Refused reason)
         | Inr (c, n) \<Rightarrow>
             if left < n + 1 then Overrun
             else emit_before (unichar_to_utf8 c)
               (http_string_assign_url_decode_unicode permit_invalid (drop (n + 1) src) (left - (n + 1))))
      else emit_before (unichar_to_utf8 (unat (at src 0)))
        (http_string_assign_url_decode_unicode permit_invalid (drop 1 src) (left - 1)))"

declare http_string_assign_url_decode.simps [simp del] http_string_assign_url_decode_unicode.simps [simp del]

section \<open>Encoding\<close>

text \<open>The source is read up to its NUL.\<close>

definition escaped :: "bytes \<Rightarrow> byte \<Rightarrow> bool" where
  "escaped unsafe c \<longleftrightarrow> c \<le> 0x1f \<or> 0x7f < c \<or> strchr unsafe c"

definition http_string_append_url_encode :: "bytes \<Rightarrow> bytes \<Rightarrow> bytes" where
  "http_string_append_url_encode unsafe str =
     concat (map (\<lambda>c. if escaped unsafe c then hex_escape c else [c]) (cstr str))"

text \<open>The first character of a UTF-8 string of code units, and the rest; anything else has no defined
  meaning for the library.\<close>

fun utf8_get_char :: "bytes \<Rightarrow> (nat \<times> bytes) option" where
  "utf8_get_char [] = None"
| "utf8_get_char (a # r) =
     (if a < 0x80 then Some (unat a, r)
      else if a AND 0xe0 = 0xc0 then
        (case r of b # r' \<Rightarrow> if b AND 0xc0 = 0x80 then Some ((unat a - 0xc0) * 0x40 + (unat b - 0x80), r') else None | [] \<Rightarrow> None)
      else if a AND 0xf0 = 0xe0 then
        (case r of b # d # r' \<Rightarrow>
           if b AND 0xc0 = 0x80 \<and> d AND 0xc0 = 0x80
           then Some ((unat a - 0xe0) * 0x1000 + (unat b - 0x80) * 0x40 + (unat d - 0x80), r') else None
         | _ \<Rightarrow> None)
      else None)"

definition unicode_hex :: "nat \<Rightarrow> bytes" where
  "unicode_hex c = [PERCENT, 117, xdigit_char (int (c div 0x1000 mod 16)), xdigit_char (int (c div 0x100 mod 16)),
     xdigit_char (int (c div 0x10 mod 16)), xdigit_char (int (c mod 16))]"

text \<open>The low byte of a character, which is what the test against the unsafe characters and the short
  form of an escape look at.\<close>

definition low_byte :: "nat \<Rightarrow> byte" where
  "low_byte c = of_nat c"

definition encode_unichar :: "bytes \<Rightarrow> nat \<Rightarrow> bytes parsed" where
  "encode_unichar unsafe c =
     (if c \<le> 0x1f \<or> 0x7f < c \<and> c < 0x100 \<or> strchr unsafe (low_byte c) then Parsed (hex_escape (low_byte c))
      else if 0xff < c \<and> c < 0x10000 then Parsed (unicode_hex c)
      else if 0xffff < c then Refused not_ucs2
      else Parsed [low_byte c])"

function http_string_append_url_encode_unicode :: "bytes \<Rightarrow> bytes \<Rightarrow> bytes parsed" where
  "http_string_append_url_encode_unicode unsafe str =
     (if at str 0 = 0 then Parsed []
      else case utf8_get_char str of
        None \<Rightarrow> Overrun
      | Some (c, rest) \<Rightarrow>
          bind_parsed (encode_unichar unsafe c) (\<lambda>bs. emit_before bs (http_string_append_url_encode_unicode unsafe rest)))"
  by pat_completeness auto

lemma utf8_get_char_shrinks: "utf8_get_char str = Some (c, rest) \<Longrightarrow> length rest < length str"
  by (induction str rule: utf8_get_char.induct) (auto split: if_splits list.splits)

termination http_string_append_url_encode_unicode
  by (relation "measure (\<lambda>(_, str). length str)") (auto dest!: utf8_get_char_shrinks)

declare http_string_append_url_encode_unicode.simps [simp del]

section \<open>Canonical form\<close>

definition canonical_store :: "bytes \<Rightarrow> byte \<Rightarrow> bool \<Rightarrow> bytes" where
  "canonical_store unsafe c was_encoded =
     (if c \<le> 0x1f \<or> 0x7f < c \<or> was_encoded \<and> strchr unsafe c then hex_escape c else [c])"

fun http_string_assign_url_canonicalize :: "bool \<Rightarrow> bytes \<Rightarrow> bytes \<Rightarrow> nat \<Rightarrow> bytes parsed" where
  "http_string_assign_url_canonicalize permit_invalid unsafe src left =
     (if left = 0 then Parsed []
      else if at src 0 = PERCENT then
        (if left < 2 then
           (if permit_invalid then emit_before (canonical_store unsafe PERCENT False)
              (http_string_assign_url_canonicalize permit_invalid unsafe (drop 1 src) (left - 1))
            else Refused too_short)
         else case http_string_url_decode_hex_byte (drop 1 src) of
           None \<Rightarrow>
             (if permit_invalid then emit_before (canonical_store unsafe PERCENT False)
                (http_string_assign_url_canonicalize permit_invalid unsafe (drop 1 src) (left - 1))
              else Refused invalid_hex)
         | Some c \<Rightarrow>
             if left < 3 then Overrun
             else emit_before (canonical_store unsafe c True)
               (http_string_assign_url_canonicalize permit_invalid unsafe (drop 3 src) (left - 3)))
      else emit_before (canonical_store unsafe (at src 0) False)
        (http_string_assign_url_canonicalize permit_invalid unsafe (drop 1 src) (left - 1)))"

text \<open>With unicode escapes; here an invalid escape counts as encoded, too.\<close>

definition canonical_unichar :: "bytes \<Rightarrow> nat \<Rightarrow> bool \<Rightarrow> bytes parsed" where
  "canonical_unichar unsafe c was_encoded =
     (if c \<le> 0x1f \<or> 0x7f < c \<and> c < 0x100 then Parsed (hex_escape (low_byte c))
      else if c < 0x100 \<and> strchr unsafe (low_byte c) then
        Parsed (if was_encoded then hex_escape (low_byte c) else [low_byte c])
      else if 0xff < c \<and> c < 0x10000 then Parsed (unicode_hex c)
      else if 0xffff < c then Refused not_ucs2
      else Parsed [low_byte c])"

fun http_string_assign_url_canonicalize_unicode :: "bool \<Rightarrow> bytes \<Rightarrow> bytes \<Rightarrow> nat \<Rightarrow> bytes parsed" where
  "http_string_assign_url_canonicalize_unicode permit_invalid unsafe src left =
     (if left = 0 then Parsed []
      else if at src 0 = PERCENT then
        (case unicode_escape src left of
           Inl reason \<Rightarrow>
             (if permit_invalid
              then bind_parsed (canonical_unichar unsafe (unat PERCENT) True) (\<lambda>bs. emit_before bs
                (http_string_assign_url_canonicalize_unicode permit_invalid unsafe (drop 1 src) (left - 1)))
              else Refused reason)
         | Inr (c, n) \<Rightarrow>
             if left < n + 1 then Overrun
             else bind_parsed (canonical_unichar unsafe c True) (\<lambda>bs. emit_before bs
               (http_string_assign_url_canonicalize_unicode permit_invalid unsafe (drop (n + 1) src) (left - (n + 1)))))
      else bind_parsed (canonical_unichar unsafe (unat (at src 0)) False) (\<lambda>bs. emit_before bs
        (http_string_assign_url_canonicalize_unicode permit_invalid unsafe (drop 1 src) (left - 1))))"

declare http_string_assign_url_canonicalize.simps [simp del] http_string_assign_url_canonicalize_unicode.simps [simp del]

section \<open>Parsing\<close>

record HttpURL =
  url_original_local :: bytes
  url_scheme :: bytes
  url_user :: bytes
  url_passwd :: bytes
  url_host :: bytes
  url_port :: "32 word"
  url_file :: bytes
  url_query :: bytes
  url_fragment :: bytes
  url_need_brackets :: bool

definition http_init_url :: HttpURL where
  "http_init_url = \<lparr>url_original_local = [], url_scheme = [], url_user = [], url_passwd = [], url_host = [], url_port = 0,
     url_file = [], url_query = [], url_fragment = [], url_need_brackets = False\<rparr>"

definition HTTP_URL_HOST_ESCAPE_CHARS :: bytes where
  "HTTP_URL_HOST_ESCAPE_CHARS = bytes_of (''/$&+,;=?@ '' @ [CHR 0x22, CHR 0x27] @ ''<>#%{}|'' @ [CHR 0x5C] @ ''^~[]'' @ [CHR 0x60])"

definition HTTP_URL_USER_ESCAPE_CHARS :: bytes where
  "HTTP_URL_USER_ESCAPE_CHARS = bytes_of (''/$&+,:;=?@ '' @ [CHR 0x22, CHR 0x27] @ ''<>#%{}|'' @ [CHR 0x5C] @ ''^~[]'' @ [CHR 0x60])"

definition HTTP_URL_PASSWD_ESCAPE_CHARS :: bytes where
  "HTTP_URL_PASSWD_ESCAPE_CHARS = HTTP_URL_USER_ESCAPE_CHARS"

definition HTTP_URL_FILE_ESCAPE_CHARS :: bytes where
  "HTTP_URL_FILE_ESCAPE_CHARS = bytes_of (''?#% '' @ [CHR 0x22] @ ''<>'')"

definition HTTP_URL_QUERY_ESCAPE_CHARS :: bytes where
  "HTTP_URL_QUERY_ESCAPE_CHARS = HTTP_URL_USER_ESCAPE_CHARS"

definition HTTP_URL_FRAGMENT_ESCAPE_CHARS :: bytes where
  "HTTP_URL_FRAGMENT_ESCAPE_CHARS = HTTP_URL_USER_ESCAPE_CHARS"

definition COLON :: byte where "COLON = 58"
definition SLASH :: byte where "SLASH = 47"
definition AT :: byte where "AT = 64"
definition QMARK :: byte where "QMARK = 63"
definition HASH :: byte where "HASH = 35"
definition LBRACKET :: byte where "LBRACKET = 91"
definition RBRACKET :: byte where "RBRACKET = 93"

text \<open>One part of the authority: the part, whether a bracket is still open, and the string from its
  separator on.\<close>

fun url_part :: "bool \<Rightarrow> bytes \<Rightarrow> bytes \<times> bool \<times> bytes" where
  "url_part inside [] = ([], inside, [])"
| "url_part inside (c # cs) =
     (if (inside \<or> c \<noteq> COLON) \<and> c \<noteq> SLASH \<and> c \<noteq> AT \<and> c \<noteq> QMARK \<and> c \<noteq> HASH then
        (case url_part (if c = LBRACKET then True else if inside \<and> c = RBRACKET then False else inside) cs of
           (w, ins, q) \<Rightarrow> (c # w, ins, q))
      else ([], inside, c # cs))"

text \<open>At most \<open>n\<close> parts, each with where it starts, its length and its separator, and where the path starts.\<close>

type_synonym url_parts = "(bytes \<times> nat \<times> byte) list"

fun url_parts :: "nat \<Rightarrow> bool \<Rightarrow> bytes \<Rightarrow> (url_parts \<times> bytes) option" where
  "url_parts 0 inside p = None"
| "url_parts (Suc n) inside p =
     (case url_part inside p of (w, ins, q) \<Rightarrow>
        if at q 0 = 0 \<or> at q 0 = SLASH then Some ([(p, length w, at q 0)], q)
        else map_option (\<lambda>(ps, e). ((p, length w, at q 0) # ps, e)) (url_parts n ins (tl q)))"

definition unrecognized :: string where "unrecognized = ''Unrecognized URL construct''"

definition parse_port :: "bytes \<times> nat \<times> byte \<Rightarrow> HttpURL \<Rightarrow> HttpURL parsed" where
  "parse_port part url =
     (case part of (src, len, _) \<Rightarrow>
        (case strtoul src of (v, rest) \<Rightarrow>
           if length rest \<noteq> length src - len then Refused ''Error parsing port number''
           else Parsed (url\<lparr>url_port := word_of_int v\<rparr>)))"

definition parse_user :: "bool \<Rightarrow> bytes \<times> nat \<times> byte \<Rightarrow> HttpURL \<Rightarrow> HttpURL parsed" where
  "parse_user invalid part url =
     (case part of (src, len, _) \<Rightarrow>
        bind_parsed (http_string_assign_url_decode invalid src len) (\<lambda>v. Parsed (url\<lparr>url_user := v\<rparr>)))"

definition parse_passwd :: "bool \<Rightarrow> bytes \<times> nat \<times> byte \<Rightarrow> HttpURL \<Rightarrow> HttpURL parsed" where
  "parse_passwd invalid part url =
     (case part of (src, len, _) \<Rightarrow>
        bind_parsed (http_string_assign_url_decode invalid src len) (\<lambda>v. Parsed (url\<lparr>url_passwd := v\<rparr>)))"

definition parse_host :: "bool \<Rightarrow> bytes \<times> nat \<times> byte \<Rightarrow> HttpURL \<Rightarrow> HttpURL parsed" where
  "parse_host invalid part url =
     (case part of (src, len, _) \<Rightarrow>
        bind_parsed (http_string_assign_url_decode invalid src len) (\<lambda>v. Parsed (url\<lparr>url_host := v\<rparr>)))"

abbreviation sep_of :: "bytes \<times> nat \<times> byte \<Rightarrow> byte" where
  "sep_of part \<equiv> snd (snd part)"

fun parse_authority :: "bool \<Rightarrow> url_parts \<Rightarrow> HttpURL \<Rightarrow> HttpURL parsed" where
  "parse_authority invalid [a] url = parse_host invalid a url"
| "parse_authority invalid [a, b] url =
     (if sep_of a = COLON then bind_parsed (parse_host invalid a url) (parse_port b)
      else if sep_of a = AT then bind_parsed (parse_user invalid a url) (parse_host invalid b)
      else Refused unrecognized)"
| "parse_authority invalid [a, b, c] url =
     (if sep_of a = AT \<and> sep_of b = COLON then
        bind_parsed (parse_user invalid a url) (\<lambda>url. bind_parsed (parse_host invalid b url) (parse_port c))
      else if sep_of a = COLON \<and> sep_of b = AT then
        bind_parsed (parse_user invalid a url) (\<lambda>url. bind_parsed (parse_passwd invalid b url) (parse_host invalid c))
      else Refused unrecognized)"
| "parse_authority invalid [a, b, c, d] url =
     (if sep_of a = COLON \<and> sep_of b = AT \<and> sep_of c = COLON then
        bind_parsed (parse_user invalid a url) (\<lambda>url. bind_parsed (parse_passwd invalid b url)
          (\<lambda>url. bind_parsed (parse_host invalid c url) (parse_port d)))
      else Refused unrecognized)"
| "parse_authority invalid _ url = Refused unrecognized"

text \<open>The brackets around an IPv6 address are removed and remembered; nothing ever clears the mark.\<close>

definition strip_brackets :: "HttpURL \<Rightarrow> HttpURL" where
  "strip_brackets url =
     (let host = url_host url
      in if at host 0 = LBRACKET \<and> last host = RBRACKET
         then url\<lparr>url_need_brackets := True, url_host := butlast (tl host)\<rparr>
         else url)"

text \<open>Path, query and fragment. A URL without a path leaves the original form of an earlier one.\<close>

definition parse_local :: "bool \<Rightarrow> bool \<Rightarrow> bytes \<Rightarrow> HttpURL \<Rightarrow> HttpURL parsed" where
  "parse_local unicode invalid p url =
     (if at p 0 \<noteq> SLASH then
        (if at p 0 = 0 then Parsed (url\<lparr>url_file := [SLASH]\<rparr>) else Refused ''Invalid path component in URL'')
      else
        let url = url\<lparr>url_original_local := p\<rparr>;
            has_query = QMARK \<in> set p; has_fragment = HASH \<in> set p;
            q = length (takeWhile (\<lambda>c. c \<noteq> QMARK) p); f = length (takeWhile (\<lambda>c. c \<noteq> HASH) p);
            decode = (if unicode then http_string_assign_url_decode_unicode else http_string_assign_url_decode);
            canon = (if unicode then http_string_assign_url_canonicalize_unicode else http_string_assign_url_canonicalize);
            file_len = (if has_query then q else f);
            query_len = (if has_fragment then f - (q + 1) else length p - (q + 1));
            fragment_len = length p - (f + 1)
        in if has_query \<and> has_fragment \<and> f < q then Refused ''The fragment part starts earlier than the query''
           else bind_parsed (decode invalid p file_len) (\<lambda>file.
             let url = url\<lparr>url_file := file\<rparr>
             in bind_parsed
               (if has_query then canon invalid HTTP_URL_QUERY_ESCAPE_CHARS (drop (q + 1) p) query_len else Parsed (url_query url)) (\<lambda>query.
             bind_parsed
               (if has_fragment then canon invalid HTTP_URL_FRAGMENT_ESCAPE_CHARS (drop (f + 1) p) fragment_len
                else Parsed (url_fragment url)) (\<lambda>fragment.
             Parsed (url\<lparr>url_query := query, url_fragment := fragment\<rparr>)))))"

definition http_parse_url :: "HttpURL \<Rightarrow> bool \<Rightarrow> bool \<Rightarrow> bool \<Rightarrow> bytes \<Rightarrow> HttpURL parsed" where
  "http_parse_url url unicode invalid relative url_str =
     (let url = url\<lparr>url_scheme := [], url_user := [], url_passwd := [], url_host := [], url_file := [], url_query := [],
            url_fragment := [], url_port := 0\<rparr>;
          str = cstr url_str;
          p = dropWhile (\<lambda>c. c \<noteq> COLON) str
      in if p = [] then
           (if relative then parse_local unicode invalid p url else Refused ''URL has no scheme, colon missing'')
         else if at p 1 \<noteq> SLASH \<or> at p 2 \<noteq> SLASH then Refused (''Scheme not followed by '' @ [CHR 0x27] @ ''//'' @ [CHR 0x27])
         else
           let url = url\<lparr>url_scheme := takeWhile (\<lambda>c. c \<noteq> COLON) str\<rparr>
           in case url_parts 4 False (drop 3 p) of
                None \<Rightarrow> Refused unrecognized
              | Some (parts, rest) \<Rightarrow>
                  bind_parsed (parse_authority invalid parts url) (\<lambda>url. parse_local unicode invalid rest (strip_brackets url)))"

section \<open>Formatting\<close>

definition http_format_url :: "HttpURL \<Rightarrow> bytes \<Rightarrow> bool \<Rightarrow> bool \<Rightarrow> bool \<Rightarrow> bytes parsed" where
  "http_format_url url encode_buf absolute unicode canonicalized =
     (let head = (if absolute then
            cstr (url_scheme url) @ bytes_of ''://'' @
            (if url_user url \<noteq> [] then http_string_append_url_encode HTTP_URL_USER_ESCAPE_CHARS (url_user url) else []) @
            (if url_passwd url \<noteq> []
             then [COLON] @ http_string_append_url_encode HTTP_URL_PASSWD_ESCAPE_CHARS (url_passwd url) else []) @
            (if url_user url \<noteq> [] \<or> url_passwd url \<noteq> [] then [AT] else []) @
            (if url_need_brackets url then [LBRACKET] else []) @
            http_string_append_url_encode HTTP_URL_HOST_ESCAPE_CHARS (url_host url) @
            (if url_need_brackets url then [RBRACKET] else []) @
            (if url_port url \<noteq> 0 then [COLON] @ print_ld (sint (url_port url)) else [])
          else encode_buf)
      in if \<not> canonicalized then Parsed (head @ cstr (url_original_local url))
         else bind_parsed
           (if unicode then http_string_append_url_encode_unicode HTTP_URL_FILE_ESCAPE_CHARS (url_file url)
            else Parsed (http_string_append_url_encode HTTP_URL_FILE_ESCAPE_CHARS (url_file url)))
           (\<lambda>file. Parsed (head @ file @
             (if url_query url \<noteq> [] then [QMARK] @ cstr (url_query url) else []) @
             (if url_fragment url \<noteq> [] then [HASH] @ cstr (url_fragment url) else []))))"

section \<open>Escapes\<close>

lemma bind_parsed_Overrun [simp]: "bind_parsed r f = Overrun \<longleftrightarrow> r = Overrun \<or> (\<exists>a. r = Parsed a \<and> f a = Overrun)"
  by (cases r) auto

lemma bind_parsed_Parsed: "bind_parsed r f = Parsed b \<longleftrightarrow> (\<exists>a. r = Parsed a \<and> f a = Parsed b)"
  by (cases r) auto

lemma at_simps [simp]: "at [] i = 0" "at (c # cs) 0 = c" "at (c # cs) (Suc i) = at cs i" "at (drop n src) i = at src (n + i)"
  by (auto simp: at_def)

lemma xdigit_char_value:
  assumes "0 \<le> n" and "n \<le> 15"
  shows "isxdigit (xdigit_char n)" and "xdigit_value (xdigit_char n) = n" and "xdigit_char n \<noteq> PERCENT"
    and "0x20 \<le> xdigit_char n" and "xdigit_char n \<le> 0x7f" and "xdigit_char n \<noteq> 0"
proof -
  have "n \<in> set [0..15]" using assms by simp
  then have "n \<in> {0,1,2,3,4,5,6,7,8,9,10,11,12,13,14,15}" by (simp add: upto.simps)
  then show "isxdigit (xdigit_char n)" "xdigit_value (xdigit_char n) = n" "xdigit_char n \<noteq> PERCENT"
    "0x20 \<le> xdigit_char n" "xdigit_char n \<le> 0x7f" "xdigit_char n \<noteq> 0"
    by (elim insertE emptyE; simp add: xdigit_char_def xdigit_value_def isxdigit_def PERCENT_def)+
qed

lemma nibbles:
  fixes c :: byte
  shows "uint ((c AND 0xf0) div 16) = uint c div 16" and "uint (c AND 0x0f) = uint c mod 16"
proof -
  have c: "0 \<le> uint c" "uint c < 256" using uint_lt2p [of c] by auto
  have mask: "(x::int) AND 15 = x mod 16" for x
    using take_bit_eq_mask [of 4 x] by (simp add: take_bit_eq_mod mask_eq_exp_minus_1)
  have "uint (c AND 15) = uint c AND 15" by (simp add: uint_and)
  with mask show "uint (c AND 0x0f) = uint c mod 16" by simp
  have "uint ((c AND 0xf0) div 16) = (uint c AND 0xf0) div 16" by (simp add: uint_div uint_and)
  also have "\<dots> = drop_bit 4 (uint c AND 0xf0)" by (simp add: drop_bit_eq_div)
  also have "\<dots> = drop_bit 4 (uint c) AND 15" by (simp add: drop_bit_and)
  also have "\<dots> = uint c div 16" using c by (simp add: mask drop_bit_eq_div mod_pos_pos_trivial pos_imp_zdiv_nonneg_iff)
  finally show "uint ((c AND 0xf0) div 16) = uint c div 16" .
qed

lemma hex_escape:
  shows "http_string_url_decode_hex_byte (tl (hex_escape c) @ rest) = Some c"
    and "length (hex_escape c) = 3" and "hd (hex_escape c) = PERCENT"
proof -
  have c: "0 \<le> uint c div 16" "uint c div 16 \<le> 15" "0 \<le> uint c mod 16" "uint c mod 16 \<le> 15"
    using uint_lt2p [of c] by (auto simp: pos_imp_zdiv_nonneg_iff)
  have "word_of_int (uint c div 16 * 16 + uint c mod 16) = c" by simp
  then show "http_string_url_decode_hex_byte (tl (hex_escape c) @ rest) = Some c"
    using xdigit_char_value [OF c(1,2)] xdigit_char_value [OF c(3,4)]
    by (simp add: hex_escape_def http_string_url_decode_hex_byte_def nibbles)
qed (simp_all add: hex_escape_def)


lemma percent_escape: "hex_escape c = PERCENT # tl (hex_escape c)"
  by (simp add: hex_escape_def)

lemma not_hex_seps: "\<not> isxdigit 0" "\<not> isxdigit COLON" "\<not> isxdigit SLASH" "\<not> isxdigit AT" "\<not> isxdigit QMARK" "\<not> isxdigit HASH"
  by (simp_all add: isxdigit_def COLON_def SLASH_def AT_def QMARK_def HASH_def)

lemma hex_byte_Some:
  "http_string_url_decode_hex_byte src = Some c \<Longrightarrow> isxdigit (at src 0) \<and> isxdigit (at src 1)"
  by (simp add: http_string_url_decode_hex_byte_def split: if_splits)

lemma hex_byte_room:
  assumes "http_string_url_decode_hex_byte (drop n src) = Some c" and "\<not> isxdigit (at src left)" and "n \<le> left"
  shows "n + 2 \<le> left"
proof -
  have "isxdigit (at src n)" "isxdigit (at src (n + 1))" using hex_byte_Some [OF assms(1)] by auto
  with assms(2) have "left \<noteq> n" "left \<noteq> n + 1" by metis+
  with assms(3) show ?thesis by simp
qed

lemma unicode_escape_length:
  assumes "unicode_escape src left = Inr (c, n)" and "\<not> isxdigit (at src left)"
  shows "n < left"
  using assms hex_byte_room [of 1 src _ left] hex_byte_room [of 4 src _ left]
  by (auto simp: unicode_escape_def split: if_splits option.splits)

lemma decoders_0 [simp]:
  "http_string_assign_url_decode invalid src 0 = Parsed []" "http_string_assign_url_decode_unicode invalid src 0 = Parsed []"
  "http_string_assign_url_canonicalize invalid unsafe src 0 = Parsed []"
  "http_string_assign_url_canonicalize_unicode invalid unsafe src 0 = Parsed []"
  by (simp_all add: http_string_assign_url_decode.simps http_string_assign_url_decode_unicode.simps
      http_string_assign_url_canonicalize.simps http_string_assign_url_canonicalize_unicode.simps)

text \<open>A part that is not followed by a hexadecimal digit is never read over.\<close>

lemma decode_no_overrun: "\<not> isxdigit (at src left) \<Longrightarrow> http_string_assign_url_decode invalid src left \<noteq> Overrun"
proof (induction invalid src left rule: http_string_assign_url_decode.induct)
  case (1 invalid src left)
  with hex_byte_room [of 1 src _ left] show ?case
    by (subst http_string_assign_url_decode.simps) (auto split: option.split)
qed

lemma decode_unicode_no_overrun: "\<not> isxdigit (at src left) \<Longrightarrow> http_string_assign_url_decode_unicode invalid src left \<noteq> Overrun"
proof (induction invalid src left rule: http_string_assign_url_decode_unicode.induct)
  case (1 invalid src left)
  with unicode_escape_length [of src left] show ?case
    by (subst http_string_assign_url_decode_unicode.simps) (auto split: sum.split)
qed

lemma canonicalize_no_overrun:
  "\<not> isxdigit (at src left) \<Longrightarrow> http_string_assign_url_canonicalize invalid unsafe src left \<noteq> Overrun"
proof (induction invalid unsafe src left rule: http_string_assign_url_canonicalize.induct)
  case (1 invalid unsafe src left)
  with hex_byte_room [of 1 src _ left] show ?case
    by (subst http_string_assign_url_canonicalize.simps) (auto split: option.split)
qed

lemma canonicalize_unicode_no_overrun:
  "\<not> isxdigit (at src left) \<Longrightarrow> http_string_assign_url_canonicalize_unicode invalid unsafe src left \<noteq> Overrun"
proof (induction invalid unsafe src left rule: http_string_assign_url_canonicalize_unicode.induct)
  case (1 invalid unsafe src left)
  have "canonical_unichar unsafe c e \<noteq> Overrun" for c e by (simp add: canonical_unichar_def)
  with 1 unicode_escape_length [of src left] show ?case
    by (subst http_string_assign_url_canonicalize_unicode.simps) (auto split: sum.split)
qed

section \<open>The parts of a URL\<close>

abbreviation url_sep :: "byte \<Rightarrow> bool" where
  "url_sep c \<equiv> c = 0 \<or> c = COLON \<or> c = SLASH \<or> c = AT \<or> c = QMARK \<or> c = HASH"

lemma url_sep_not_hex: "url_sep c \<Longrightarrow> \<not> isxdigit c"
  using not_hex_seps by auto

lemma url_part_split: "url_part inside p = (w, ins, q) \<Longrightarrow> p = w @ q \<and> url_sep (at q 0)"
  by (induction inside p arbitrary: w ins q rule: url_part.induct) (auto split: if_splits prod.splits)

lemma at_append: "at (xs @ ys) (length xs) = at ys 0"
  by (simp add: at_def nth_append)

lemma url_parts_sep:
  "url_parts n inside p = Some (parts, rest) \<Longrightarrow> (src, len, sep) \<in> set parts \<Longrightarrow> \<not> isxdigit (at src len)"
proof (induction n inside p arbitrary: parts rest rule: url_parts.induct)
  case (2 n inside p)
  obtain w ins q where part: "url_part inside p = (w, ins, q)" by (metis surj_pair)
  then have "\<not> isxdigit (at p (length w))"
    using url_part_split [OF part] url_sep_not_hex by (auto simp: at_append)
  with part "2.prems" "2.IH" [OF part [symmetric] refl] show ?case by (auto split: if_splits)
qed simp

lemma authority_no_overrun:
  assumes "\<And>src len sep. (src, len, sep) \<in> set parts \<Longrightarrow> \<not> isxdigit (at src len)"
  shows "parse_authority invalid parts url \<noteq> Overrun"
proof -
  have fields: "parse_user invalid part url \<noteq> Overrun" "parse_passwd invalid part url \<noteq> Overrun"
      "parse_host invalid part url \<noteq> Overrun" if "part \<in> set parts" for part url
    using assms that decode_no_overrun
    by (auto simp: parse_user_def parse_passwd_def parse_host_def split: prod.split)
  have port: "parse_port part url \<noteq> Overrun" for part url
    by (simp add: parse_port_def split: prod.split)
  from fields show ?thesis
    by (induction invalid parts url rule: parse_authority.induct) (auto simp: port)
qed

lemma takeWhile_at: "\<not> isxdigit c \<Longrightarrow> \<not> isxdigit (at p (length (takeWhile (\<lambda>b. b \<noteq> c) p)))"
proof -
  assume c: "\<not> isxdigit c"
  have "at (dropWhile (\<lambda>b. b \<noteq> c) p) 0 \<in> {0, c}" by (induction p) auto
  moreover have "at p (length (takeWhile (\<lambda>b. b \<noteq> c) p)) = at (dropWhile (\<lambda>b. b \<noteq> c) p) 0"
    using at_append [of "takeWhile (\<lambda>b. b \<noteq> c) p" "dropWhile (\<lambda>b. b \<noteq> c) p"] by simp
  ultimately show ?thesis using c not_hex_seps(1) by auto
qed

lemma at_end: "\<not> isxdigit (at (drop n p) (length p - n))"
  by (simp add: at_def not_hex_seps(1))

lemma takeWhile_len_less: "x \<in> set p \<Longrightarrow> length (takeWhile (\<lambda>b. b \<noteq> x) p) < length p"
  by (induction p) auto

lemma local_no_overrun: "parse_local unicode invalid p url \<noteq> Overrun"
proof (cases "at p 0 = SLASH")
  case True
  let ?q = "length (takeWhile (\<lambda>c. c \<noteq> QMARK) p)" and ?f = "length (takeWhile (\<lambda>c. c \<noteq> HASH) p)"
  have q: "\<not> isxdigit (at p ?q)" and f: "\<not> isxdigit (at p ?f)" by (rule takeWhile_at; simp add: not_hex_seps)+
  have query: "\<not> isxdigit (at (drop (?q + 1) p) (?f - (?q + 1)))" if "QMARK \<in> set p" "HASH \<in> set p" "\<not> ?f < ?q"
  proof -
    have "?f \<noteq> ?q"
    proof
      assume same: "?f = ?q"
      have "p ! ?q = QMARK" "p ! ?f = HASH"
        using nth_length_takeWhile [of "\<lambda>c. c \<noteq> QMARK" p] nth_length_takeWhile [of "\<lambda>c. c \<noteq> HASH" p]
          takeWhile_len_less [OF that(1)] takeWhile_len_less [OF that(2)] by auto
      with same show False by (simp add: QMARK_def HASH_def)
    qed
    with that(3) have "?q + 1 + (?f - (?q + 1)) = ?f" by simp
    then have "at (drop (?q + 1) p) (?f - (?q + 1)) = at p ?f" by (simp only: at_simps)
    with f show ?thesis by (simp only: simp_thms)
  qed
  note over = decode_no_overrun decode_unicode_no_overrun canonicalize_no_overrun canonicalize_unicode_no_overrun
  show ?thesis
    using True q f query at_end [of "?q + 1" p] at_end [of "?f + 1" p]
    by (cases unicode) (auto simp: parse_local_def Let_def over simp del: at_simps)
next
  case False
  then show ?thesis by (simp add: parse_local_def)
qed

section \<open>Decoding what was encoded\<close>

lemma drop_hex: "drop (Suc 0) (hex_escape c) = tl (hex_escape c)" "drop 3 (hex_escape c) = []" "at (hex_escape c @ r) 0 = PERCENT"
  by (simp_all add: hex_escape_def)

lemma decode_hex: "http_string_assign_url_decode invalid (hex_escape c @ r) (length (hex_escape c) + n) =
    emit_before [c] (http_string_assign_url_decode invalid r n)"
  by (subst http_string_assign_url_decode.simps) (simp add: drop_hex hex_escape)

lemma decode_plain: "b \<noteq> PERCENT \<Longrightarrow> http_string_assign_url_decode invalid (b # r) (Suc n) =
    emit_before [b] (http_string_assign_url_decode invalid r n)"
  by (subst http_string_assign_url_decode.simps) simp

lemma canonicalize_hex: "http_string_assign_url_canonicalize invalid unsafe (hex_escape c @ r) (length (hex_escape c) + n) =
    emit_before (canonical_store unsafe c True) (http_string_assign_url_canonicalize invalid unsafe r n)"
  by (subst http_string_assign_url_canonicalize.simps) (simp add: drop_hex hex_escape)

lemma canonicalize_plain: "b \<noteq> PERCENT \<Longrightarrow> http_string_assign_url_canonicalize invalid unsafe (b # r) (Suc n) =
    emit_before (canonical_store unsafe b False) (http_string_assign_url_canonicalize invalid unsafe r n)"
  by (subst http_string_assign_url_canonicalize.simps) simp

lemma decode_encode_more:
  assumes "PERCENT \<in> set unsafe" and "0 \<notin> set s"
  shows "http_string_assign_url_decode invalid (http_string_append_url_encode unsafe s @ rest)
      (length (http_string_append_url_encode unsafe s) + n) = emit_before s (http_string_assign_url_decode invalid rest n)"
proof -
  let ?enc = "\<lambda>s. concat (map (\<lambda>c. if escaped unsafe c then hex_escape c else [c]) s)"
  have emit: "emit_before [c] (emit_before t r) = emit_before (c # t) r" for c t r by (cases r) auto
  have "http_string_assign_url_decode invalid (?enc s @ rest) (length (?enc s) + n) =
      emit_before s (http_string_assign_url_decode invalid rest n)"
  proof (induction s)
    case Nil
    then show ?case by (cases "http_string_assign_url_decode invalid rest n") simp_all
  next
    case (Cons c s)
    show ?case
    proof (cases "escaped unsafe c")
      case True
      then have enc: "?enc (c # s) = hex_escape c @ ?enc s" by simp
      show ?thesis
        unfolding enc append_assoc length_append add.assoc decode_hex Cons.IH by (rule emit)
    next
      case False
      then have "c \<noteq> PERCENT" using assms(1) by (auto simp: escaped_def strchr_def)
      have "http_string_assign_url_decode invalid (c # ?enc s @ rest) (Suc (length (?enc s) + n)) =
          emit_before [c] (emit_before s (http_string_assign_url_decode invalid rest n))"
        unfolding decode_plain [OF \<open>c \<noteq> PERCENT\<close>] Cons.IH ..
      with False show ?thesis by (simp add: emit [simplified])
    qed
  qed
  moreover have "cstr s = s" using assms(2) by (auto simp: cstr_def takeWhile_eq_all_conv)
  ultimately show ?thesis by (simp add: http_string_append_url_encode_def)
qed

lemmas decode_encode = decode_encode_more [where n = 0, simplified]

section \<open>Canonical form\<close>

lemma canonical_ascii: "b \<in> set (hex_escape c) \<Longrightarrow> 0x20 \<le> b \<and> b \<le> 0x7f"
proof -
  have c: "0 \<le> uint c div 16" "uint c div 16 \<le> 15" "0 \<le> uint c mod 16" "uint c mod 16 \<le> 15"
    using uint_lt2p [of c] by (auto simp: pos_imp_zdiv_nonneg_iff)
  assume "b \<in> set (hex_escape c)"
  then show ?thesis
    using xdigit_char_value [OF c(1,2)] xdigit_char_value [OF c(3,4)]
    by (auto simp: hex_escape_def nibbles PERCENT_def)
qed

definition canonical :: "bytes \<Rightarrow> bytes \<Rightarrow> bool" where
  "canonical unsafe r \<longleftrightarrow> (\<forall>invalid rest. http_string_assign_url_canonicalize invalid unsafe (r @ rest) (length r) = Parsed r)"

lemma canonicalize_canonical:
  assumes "http_string_assign_url_canonicalize False unsafe src left = Parsed r" and "PERCENT \<in> set unsafe"
  shows "canonical unsafe r \<and> (\<forall>b\<in>set r. 0x20 \<le> b \<and> b \<le> 0x7f) \<and>
    (\<exists>d. http_string_assign_url_decode False src left = Parsed d \<and>
      (\<forall>rest. http_string_assign_url_decode False (r @ rest) (length r) = Parsed d))"
  using assms
proof (induction "False" unsafe src left arbitrary: r rule: http_string_assign_url_canonicalize.induct)
  case (1 unsafe src left)
  consider (zero) "left = 0"
    | (hex) c where "left \<noteq> 0" "at src 0 = PERCENT" "\<not> left < 3" "http_string_url_decode_hex_byte (drop 1 src) = Some c"
    | (plain) "left \<noteq> 0" "at src 0 \<noteq> PERCENT"
    using "1.prems"(1) by (subst (asm) http_string_assign_url_canonicalize.simps) (auto split: if_splits option.splits)
  then show ?case
  proof cases
    case zero
    then show ?thesis using "1.prems" by (simp add: canonical_def)
  next
    case hex
    then obtain r' where r': "http_string_assign_url_canonicalize False unsafe (drop 3 src) (left - 3) = Parsed r'"
      and r: "r = canonical_store unsafe c True @ r'"
      using "1.prems"(1) by (subst (asm) http_string_assign_url_canonicalize.simps) (auto simp: bind_parsed_Parsed)
    obtain d where d: "http_string_assign_url_decode False (drop 3 src) (left - 3) = Parsed d"
        "\<And>rest. http_string_assign_url_decode False (r' @ rest) (length r') = Parsed d"
      and can: "canonical unsafe r'" "\<forall>b\<in>set r'. 0x20 \<le> b \<and> b \<le> 0x7f"
      using "1.hyps"(3) hex r' "1.prems"(2) by fastforce
    have dec: "http_string_assign_url_decode False src left = Parsed (c # d)"
      using hex d(1) by (subst http_string_assign_url_decode.simps) simp
    show ?thesis
    proof (cases "canonical_store unsafe c True = hex_escape c")
      case True
      with r can d(2) dec canonical_ascii [of _ c] show ?thesis
        by (auto simp: canonical_def canonicalize_hex decode_hex)
    next
      case False
      then have "canonical_store unsafe c e = [c]" "c \<noteq> PERCENT" "0x20 \<le> c" "c \<le> 0x7f" for e
        using "1.prems"(2) by (auto simp: canonical_store_def strchr_def not_le word_le_nat_alt word_less_nat_alt split: if_splits)
      with r can d(2) dec show ?thesis
        by (auto simp: canonical_def canonicalize_plain decode_plain)
    qed
  next
    case plain
    then obtain r' where r': "http_string_assign_url_canonicalize False unsafe (drop 1 src) (left - 1) = Parsed r'"
      and r: "r = canonical_store unsafe (at src 0) False @ r'"
      using "1.prems"(1) by (subst (asm) http_string_assign_url_canonicalize.simps) (auto simp: bind_parsed_Parsed)
    obtain d where d: "http_string_assign_url_decode False (drop 1 src) (left - 1) = Parsed d"
        "\<And>rest. http_string_assign_url_decode False (r' @ rest) (length r') = Parsed d"
      and can: "canonical unsafe r'" "\<forall>b\<in>set r'. 0x20 \<le> b \<and> b \<le> 0x7f"
      using "1.hyps"(4) plain r' "1.prems"(2) by fastforce
    let ?c = "at src 0"
    have dec: "http_string_assign_url_decode False src left = Parsed (?c # d)"
      using plain d(1) by (subst http_string_assign_url_decode.simps) simp
    show ?thesis
    proof (cases "?c \<le> 0x1f \<or> 0x7f < ?c")
      case True
      then have "canonical_store unsafe ?c e = hex_escape ?c" for e by (auto simp: canonical_store_def)
      with r can d(2) dec canonical_ascii [of _ ?c] show ?thesis
        by (auto simp: canonical_def canonicalize_hex decode_hex)
    next
      case False
      then have "canonical_store unsafe ?c False = [?c]" "0x20 \<le> ?c" "?c \<le> 0x7f"
        by (auto simp: canonical_store_def word_le_nat_alt word_less_nat_alt)
      with r can d(2) dec plain show ?thesis
        by (auto simp: canonical_def canonicalize_plain decode_plain)
    qed
  qed
qed

section \<open>Properties\<close>

text \<open>C9: No URL makes the parser read outside the part it decodes, although its length tests accept an
  escape that lacks its last digit: whatever separates the parts of a URL is no hexadecimal digit, so
  such an escape is refused (or taken literally) before anything behind it is used. This holds for
  every string, both encodings and both treatments of invalid escapes.\<close>

theorem http_url_no_overrun: "http_parse_url url unicode invalid relative url_str \<noteq> Overrun"
proof -
  have "parse_authority invalid parts url \<noteq> Overrun" if "url_parts 4 False p = Some (parts, rest)" for p parts rest url
    using authority_no_overrun url_parts_sep [OF that] by blast
  then show ?thesis
    by (auto simp: http_parse_url_def Let_def local_no_overrun split: option.split)
qed



end
