(* ===== verification/Http_Url_Format.thy ===== *)
theory Http_Url_Format
  imports Http_Url
begin

text \<open>
  What becomes of a URL on its way through the proxy: formatting and parsing are inverse on
  well-formed URLs; characters beyond Latin-1 and URLs parsed into a used object are where they are not.
\<close>

unbundle bit_operations_syntax

section \<open>Parsing what was formatted\<close>

abbreviation url_plain :: "byte \<Rightarrow> bool" where
  "url_plain b \<equiv> b \<noteq> 0 \<and> b \<noteq> COLON \<and> b \<noteq> SLASH \<and> b \<noteq> AT \<and> b \<noteq> QMARK \<and> b \<noteq> HASH \<and> b \<noteq> LBRACKET \<and> b \<noteq> RBRACKET"

lemmas url_bytes = COLON_def SLASH_def AT_def QMARK_def HASH_def LBRACKET_def RBRACKET_def PERCENT_def

lemma hex_escape_plain: "b \<in> set (hex_escape c) \<Longrightarrow> url_plain b"
proof -
  have n: "url_plain (xdigit_char n)" if "0 \<le> n" "n \<le> 15" for n
    using xdigit_char_value(1,6) [OF that] by (auto simp: isxdigit_def url_bytes)
  have c: "0 \<le> uint c div 16" "uint c div 16 \<le> 15" "0 \<le> uint c mod 16" "uint c mod 16 \<le> 15"
    using uint_lt2p [of c] by (auto simp: pos_imp_zdiv_nonneg_iff)
  have "url_plain PERCENT" by (simp add: url_bytes)
  moreover assume "b \<in> set (hex_escape c)"
  ultimately show ?thesis using n [OF c(1,2)] n [OF c(3,4)] by (auto simp: hex_escape_def nibbles)
qed

lemma encode_set:
  assumes "b \<in> set (http_string_append_url_encode unsafe s)"
  shows "url_plain b \<or> \<not> escaped unsafe b"
  using assms hex_escape_plain [of b] by (auto simp: http_string_append_url_encode_def split: if_splits)

lemma unsafe_chars:
  "set [SLASH, COLON, AT, QMARK, HASH, LBRACKET, RBRACKET, PERCENT] \<subseteq> set HTTP_URL_USER_ESCAPE_CHARS"
  "set [SLASH, AT, QMARK, HASH, LBRACKET, RBRACKET, PERCENT] \<subseteq> set HTTP_URL_HOST_ESCAPE_CHARS"
  "set [QMARK, HASH, PERCENT] \<subseteq> set HTTP_URL_FILE_ESCAPE_CHARS" "\<not> escaped HTTP_URL_FILE_ESCAPE_CHARS SLASH"
  by (simp_all add: HTTP_URL_USER_ESCAPE_CHARS_def HTTP_URL_HOST_ESCAPE_CHARS_def HTTP_URL_FILE_ESCAPE_CHARS_def
      bytes_of_def url_bytes escaped_def strchr_def)

lemma escaped_0: "escaped unsafe 0" by (simp add: escaped_def)

lemma user_plain: "b \<in> set (http_string_append_url_encode HTTP_URL_USER_ESCAPE_CHARS s) \<Longrightarrow> url_plain b"
  using encode_set [of b] unsafe_chars(1) escaped_0 by (auto simp: escaped_def strchr_def)

lemma host_plain:
  "b \<in> set (http_string_append_url_encode HTTP_URL_HOST_ESCAPE_CHARS s) \<Longrightarrow> b = COLON \<or> url_plain b"
  using encode_set [of b] unsafe_chars(2) escaped_0 by (auto simp: escaped_def strchr_def)

lemma host_colon:
  "COLON \<in> set (http_string_append_url_encode HTTP_URL_HOST_ESCAPE_CHARS s) \<Longrightarrow> COLON \<in> set s"
  using hex_escape_plain [of COLON]
  by (auto simp: http_string_append_url_encode_def cstr_def split: if_splits dest: set_takeWhileD)

lemma url_part_plain: "\<forall>b\<in>set w. url_plain b \<Longrightarrow> url_sep (at q 0) \<Longrightarrow> 0 \<notin> set q \<Longrightarrow> url_part False (w @ q) = (w, False, q)"
proof (induction w)
  case Nil
  then show ?case by (cases q) auto
qed auto

lemma url_part_inside:
  "\<forall>b\<in>set w. b = COLON \<or> url_plain b \<Longrightarrow> url_sep (at q 0) \<Longrightarrow> 0 \<notin> set q \<Longrightarrow>
   url_part True (w @ RBRACKET # q) = (w @ [RBRACKET], False, q)"
proof (induction w)
  case Nil
  then show ?case by (cases q) (auto simp: url_bytes)
qed (auto simp: url_bytes)

lemma url_part_brackets:
  "\<forall>b\<in>set w. b = COLON \<or> url_plain b \<Longrightarrow> url_sep (at q 0) \<Longrightarrow> 0 \<notin> set q \<Longrightarrow>
   url_part False (LBRACKET # w @ RBRACKET # q) = (LBRACKET # w @ [RBRACKET], False, q)"
  by (simp add: url_part_inside) (simp add: url_bytes)

text \<open>A part that stands for itself: the parser takes it up to the separator.\<close>

definition part_ok :: "bytes \<Rightarrow> bool" where
  "part_ok w \<longleftrightarrow> 0 \<notin> set w \<and> (\<forall>q. url_sep (at q 0) \<longrightarrow> 0 \<notin> set q \<longrightarrow> url_part False (w @ q) = (w, False, q))"

lemma part_ok_user: "part_ok (http_string_append_url_encode HTTP_URL_USER_ESCAPE_CHARS s)"
  unfolding part_ok_def by (auto intro!: url_part_plain dest: user_plain)

lemma parts_more:
  "part_ok w \<Longrightarrow> c = COLON \<or> c = AT \<Longrightarrow> 0 \<notin> set r \<Longrightarrow> url_parts (Suc n) False (w @ c # r) =
     map_option (\<lambda>(ps, e). ((w @ c # r, length w, c) # ps, e)) (url_parts n False r)"
  by (auto simp: part_ok_def url_bytes)

lemma parts_last:
  assumes "part_ok w" and "0 \<notin> set r" and "at r 0 = 0 \<or> at r 0 = SLASH"
  shows "url_parts (Suc n) False (w @ r) = Some ([(w @ r, length w, at r 0)], r)"
proof -
  have "url_part False (w @ r) = (w, False, r)" using assms by (auto simp: part_ok_def)
  with assms(3) show ?thesis by simp
qed

definition host_text :: "HttpURL \<Rightarrow> bytes" where
  "host_text url = (if url_need_brackets url then [LBRACKET] else []) @
     http_string_append_url_encode HTTP_URL_HOST_ESCAPE_CHARS (url_host url) @ (if url_need_brackets url then [RBRACKET] else [])"

definition port_text :: "HttpURL \<Rightarrow> bytes" where
  "port_text url = (if url_port url \<noteq> 0 then [COLON] @ print_ld (sint (url_port url)) else [])"

definition creds_text :: "HttpURL \<Rightarrow> bytes" where
  "creds_text url =
     (if url_user url \<noteq> [] then http_string_append_url_encode HTTP_URL_USER_ESCAPE_CHARS (url_user url) else []) @
     (if url_passwd url \<noteq> [] then [COLON] @ http_string_append_url_encode HTTP_URL_PASSWD_ESCAPE_CHARS (url_passwd url) else []) @
     (if url_user url \<noteq> [] \<or> url_passwd url \<noteq> [] then [AT] else [])"

definition local_text :: "HttpURL \<Rightarrow> bytes" where
  "local_text url = http_string_append_url_encode HTTP_URL_FILE_ESCAPE_CHARS (url_file url) @
     (if url_query url \<noteq> [] then [QMARK] @ cstr (url_query url) else []) @
     (if url_fragment url \<noteq> [] then [HASH] @ cstr (url_fragment url) else [])"

lemma format_text:
  "http_format_url url buf True False True =
     Parsed (cstr (url_scheme url) @ bytes_of ''://'' @ creds_text url @ host_text url @ port_text url @ local_text url)"
  by (simp add: http_format_url_def host_text_def port_text_def creds_text_def local_text_def)

text \<open>URLs that survive: no NUL bytes, no colon in the host outside of brackets, no brackets in it that
  are not part of the address, a port that prints without a sign, an absolute path, and query and
  fragment in canonical form.\<close>

definition url_wf :: "HttpURL \<Rightarrow> bool" where
  "url_wf url \<longleftrightarrow> 0 \<notin> set (url_scheme url) \<and> COLON \<notin> set (url_scheme url) \<and> 0 \<notin> set (url_user url) \<and> 0 \<notin> set (url_passwd url) \<and>
     0 \<notin> set (url_host url) \<and> (url_need_brackets url \<or> COLON \<notin> set (url_host url) \<and>
       \<not> (at (url_host url) 0 = LBRACKET \<and> last (url_host url) = RBRACKET)) \<and>
     unat (url_port url) < 2 ^ 31 \<and> at (url_file url) 0 = SLASH \<and> 0 \<notin> set (url_file url) \<and>
     canonical HTTP_URL_QUERY_ESCAPE_CHARS (url_query url) \<and> 0 \<notin> set (url_query url) \<and> HASH \<notin> set (url_query url) \<and>
     canonical HTTP_URL_FRAGMENT_ESCAPE_CHARS (url_fragment url) \<and> 0 \<notin> set (url_fragment url) \<and>
     (url_query url \<noteq> [] \<or> QMARK \<notin> set (url_fragment url))"

lemma part_ok_host: "url_wf url \<Longrightarrow> part_ok (host_text url)"
proof -
  assume wf: "url_wf url"
  let ?h = "http_string_append_url_encode HTTP_URL_HOST_ESCAPE_CHARS (url_host url)"
  have nul: "0 \<notin> set (host_text url)"
    using host_plain [of 0 "url_host url"] by (auto simp: host_text_def url_bytes)
  have "\<forall>b\<in>set ?h. url_plain b" if "\<not> url_need_brackets url"
  proof
    fix b
    assume b: "b \<in> set ?h"
    have "COLON \<notin> set (url_host url)" using wf that by (simp add: url_wf_def)
    with b host_colon [of "url_host url"] have "b \<noteq> COLON" by blast
    with host_plain [OF b] show "url_plain b" by blast
  qed
  moreover have "\<forall>b\<in>set ?h. b = COLON \<or> url_plain b" using host_plain by blast
  note h = this calculation
  have "url_part False (host_text url @ q) = (host_text url, False, q)" if q: "url_sep (at q 0)" "0 \<notin> set q" for q
  proof (cases "url_need_brackets url")
    case True
    have "host_text url @ q = LBRACKET # ?h @ RBRACKET # q" "host_text url = LBRACKET # ?h @ [RBRACKET]"
      using True by (simp_all add: host_text_def)
    with url_part_brackets [OF h(1) q] show ?thesis by (simp only:)
  next
    case False
    then have "host_text url = ?h" by (simp add: host_text_def)
    with url_part_plain [OF h(2) [OF False] q] show ?thesis by (simp only:)
  qed
  with nul show ?thesis unfolding part_ok_def by blast
qed

lemma print_port:
  fixes w :: "32 word"
  assumes "unat w < 2 ^ 31"
  shows "print_ld (sint w) = bytes_of (decimal (unat w))"
proof -
  have "int (unat w) < int (2 ^ 31)" using assms by (simp only: of_nat_less_iff)
  then have "uint w < 2 ^ 31" by (simp only: uint_nat of_nat_power of_nat_numeral)
  then have "sint w = uint w" by (auto simp: sint_uint signed_take_bit_int_eq_self_iff intro: order_trans [OF _ uint_ge_0])
  also have "\<dots> = int (unat w)" by simp
  finally show ?thesis by (simp only: print_ld_def of_nat_less_0_iff if_False nat_int)
qed

lemma strtoul_print:
  assumes "n < 2 ^ 31" and "r = [] \<or> \<not> isdigit (hd r)"
  shows "strtoul (bytes_of (decimal n) @ r) = (int n, r)"
proof -
  let ?ds = "bytes_of (decimal n)"
  have digits: "\<forall>b\<in>set ?ds. isdigit b" using print_digits(1) [of n] by (simp add: list_all_iff)
  obtain d t where ds: "?ds = d # t" by (cases ?ds) (auto simp: bytes_of_def)
  with digits have d: "\<not> isspace d" "d \<noteq> 43" "d \<noteq> 45"
    by (auto simp: isdigit_def isspace_def word_le_nat_alt)
  have take: "takeWhile isdigit (?ds @ r) = ?ds" using digits assms(2) by (cases r) auto
  have "int n \<le> ULONG_MAX" using assms(1) by (simp add: ULONG_MAX_def)
  then show ?thesis
    using d take print_digits(2) [of n] by (simp add: strtoul_def Let_def ds)
qed

lemma part_ok_port: "part_ok (bytes_of (decimal n))"
proof -
  have "\<forall>b\<in>set (bytes_of (decimal n)). isdigit b" using print_digits(1) [of n] by (simp add: list_all_iff)
  then have "\<forall>b\<in>set (bytes_of (decimal n)). url_plain b"
    by (auto simp: isdigit_def url_bytes word_le_nat_alt)
  then show ?thesis unfolding part_ok_def by (auto intro!: url_part_plain)
qed

lemma parse_port_print:
  assumes "unat w < 2 ^ 31" and "r = [] \<or> hd r = SLASH"
  shows "parse_port (bytes_of (decimal (unat w)) @ r, length (bytes_of (decimal (unat w))), c) url = Parsed (url\<lparr>url_port := w\<rparr>)"
proof -
  have "r = [] \<or> \<not> isdigit (hd r)" using assms(2) by (auto simp: isdigit_def url_bytes)
  from strtoul_print [OF assms(1) this] show ?thesis by (simp add: parse_port_def flip: uint_nat)
qed

lemma takeWhile_upto: "x \<notin> set xs \<Longrightarrow> takeWhile (\<lambda>b. b \<noteq> x) (xs @ x # ys) = xs"
  by (induction xs) auto

lemma takeWhile_none: "x \<notin> set xs \<Longrightarrow> takeWhile (\<lambda>b. b \<noteq> x) xs = xs"
  by (induction xs) auto

lemma file_plain:
  assumes "b \<in> set (http_string_append_url_encode HTTP_URL_FILE_ESCAPE_CHARS s)"
  shows "b \<noteq> QMARK" "b \<noteq> HASH" "b \<noteq> 0"
proof -
  have e: "escaped HTTP_URL_FILE_ESCAPE_CHARS QMARK" "escaped HTTP_URL_FILE_ESCAPE_CHARS HASH" "escaped HTTP_URL_FILE_ESCAPE_CHARS 0"
    using unsafe_chars(3) by (auto simp: escaped_def strchr_def)
  from encode_set [OF assms] show "b \<noteq> QMARK" using e(1) by blast
  from encode_set [OF assms] show "b \<noteq> HASH" using e(2) by blast
  from encode_set [OF assms] show "b \<noteq> 0" using e(3) by blast
qed

lemma encode_file_slash:
  assumes "at path 0 = SLASH"
  shows "at (http_string_append_url_encode HTTP_URL_FILE_ESCAPE_CHARS path @ r) 0 = SLASH"
proof -
  obtain t where "path = SLASH # t" using assms by (cases path) (auto simp: url_bytes)
  then have "cstr path = SLASH # cstr t" by (simp add: cstr_def url_bytes)
  with unsafe_chars(4) show ?thesis by (simp add: http_string_append_url_encode_def)
qed

lemma cstr_id: "0 \<notin> set s \<Longrightarrow> cstr s = s"
  by (auto simp: cstr_def takeWhile_eq_all_conv)

lemma local_parsed:
  assumes wf: "url_wf url" and start: "url_query u = []" "url_fragment u = []"
  shows "parse_local False invalid (local_text url) u =
    Parsed (u\<lparr>url_original_local := local_text url, url_file := url_file url, url_query := url_query url, url_fragment := url_fragment url\<rparr>)"
proof -
  let ?F = "http_string_append_url_encode HTTP_URL_FILE_ESCAPE_CHARS (url_file url)"
  let ?q = "url_query url" and ?f = "url_fragment url"
  let ?Q = "if ?q = [] then [] else QMARK # ?q" and ?G = "if ?f = [] then [] else HASH # ?f"
  have txt0: "local_text url = ?F @ ?Q @ ?G"
    using wf by (simp add: local_text_def url_wf_def cstr_id)
  have path: "http_string_assign_url_decode invalid (?F @ r) (length ?F) = Parsed (url_file url)" for r
    by (rule decode_encode) (use wf unsafe_chars(3) in \<open>auto simp: url_wf_def\<close>)
  have query: "http_string_assign_url_canonicalize invalid HTTP_URL_QUERY_ESCAPE_CHARS (?q @ r) (length ?q) = Parsed ?q" for r
    using wf by (simp add: url_wf_def canonical_def)
  have fragment: "http_string_assign_url_canonicalize invalid HTTP_URL_FRAGMENT_ESCAPE_CHARS ?f (length ?f) = Parsed ?f"
    using wf by (simp add: url_wf_def canonical_def) (metis append_Nil2)
  have F: "QMARK \<notin> set ?F" "HASH \<notin> set ?F" using file_plain by blast+
  have q: "HASH \<notin> set ?q" and f: "?q = [] \<Longrightarrow> QMARK \<notin> set ?f" using wf by (auto simp: url_wf_def)
  have slash: "at (local_text url) 0 = SLASH"
    unfolding txt0 using wf by (intro encode_file_slash) (simp add: url_wf_def)
  have sep: "QMARK \<noteq> HASH" by (simp add: url_bytes)
  consider (none) "?q = []" "?f = []" | (frag) "?q = []" "?f \<noteq> []" | (query) "?q \<noteq> []" "?f = []" | (both) "?q \<noteq> []" "?f \<noteq> []"
    by blast
  then show ?thesis
  proof cases
    case none
    then have p: "local_text url = ?F" using txt0 by simp
    with path [of "[]"] F slash none start show ?thesis
      by (simp add: parse_local_def Let_def takeWhile_none)
  next
    case frag
    then have p: "local_text url = ?F @ HASH # ?f" using txt0 by simp
    have "QMARK \<notin> set (?F @ HASH # ?f)" using F f frag sep by auto
    with p path [of "HASH # ?f"] F slash frag start fragment show ?thesis
      by (simp add: parse_local_def Let_def takeWhile_upto)
  next
    case query': query
    then have p: "local_text url = ?F @ QMARK # ?q" using txt0 by simp
    have "HASH \<notin> set (?F @ QMARK # ?q)" using F q sep by auto
    with p path [of "QMARK # ?q"] F slash query' start query [of "[]"] show ?thesis
      by (simp add: parse_local_def Let_def takeWhile_upto)
  next
    case both
    then have p: "local_text url = ?F @ QMARK # ?q @ HASH # ?f" using txt0 by simp
    have tq: "takeWhile (\<lambda>b. b \<noteq> QMARK) (local_text url) = ?F" unfolding p by (rule takeWhile_upto) (rule F(1))
    have "HASH \<notin> set (?F @ QMARK # ?q)" using F q sep by auto
    from takeWhile_upto [OF this, of ?f] have tf: "takeWhile (\<lambda>b. b \<noteq> HASH) (local_text url) = ?F @ QMARK # ?q"
      unfolding p by simp
    have d: "drop (Suc (length ?F)) (local_text url) = ?q @ HASH # ?f"
      "drop (Suc (length ?F + length (QMARK # ?q))) (local_text url) = ?f" unfolding p by simp_all
    have m: "QMARK \<in> set (local_text url)" "HASH \<in> set (local_text url)" unfolding p by simp_all
    have l: "length (local_text url) - Suc (length ?F + length (QMARK # ?q)) = length ?f" unfolding p by simp
    show ?thesis
      using slash start path [of "QMARK # ?q @ HASH # ?f"] query [of "HASH # ?f"] fragment d l m unfolding parse_local_def Let_def tq tf
      by (simp add: p)
  qed
qed

lemma decode_host:
  assumes "url_wf url"
  shows "http_string_assign_url_decode invalid (host_text url @ r) (length (host_text url)) =
    Parsed (if url_need_brackets url then LBRACKET # url_host url @ [RBRACKET] else url_host url)"
proof -
  let ?h = "http_string_append_url_encode HTTP_URL_HOST_ESCAPE_CHARS (url_host url)"
  have h: "PERCENT \<in> set HTTP_URL_HOST_ESCAPE_CHARS" "0 \<notin> set (url_host url)"
    using assms unsafe_chars(2) by (auto simp: url_wf_def)
  show ?thesis
  proof (cases "url_need_brackets url")
    case False
    with decode_encode [OF h] show ?thesis by (simp add: host_text_def)
  next
    case True
    have "http_string_assign_url_decode invalid (?h @ RBRACKET # r) (length ?h + Suc 0) = Parsed (url_host url @ [RBRACKET])"
      unfolding decode_encode_more [OF h] by (subst decode_plain) (simp_all add: url_bytes)
    then have "http_string_assign_url_decode invalid (LBRACKET # ?h @ RBRACKET # r) (Suc (length ?h + Suc 0)) =
        Parsed (LBRACKET # url_host url @ [RBRACKET])"
      by (subst decode_plain) (simp_all add: url_bytes)
    with True show ?thesis by (simp add: host_text_def)
  qed
qed

lemma strip_host:
  assumes "url_wf url" and "\<not> url_need_brackets u"
  shows "strip_brackets (u\<lparr>url_host := if url_need_brackets url then LBRACKET # url_host url @ [RBRACKET] else url_host url\<rparr>) =
    u\<lparr>url_host := url_host url, url_need_brackets := url_need_brackets url\<rparr>"
  using assms by (cases "url_need_brackets url") (auto simp: strip_brackets_def url_wf_def Let_def)

definition authority_text :: "HttpURL \<Rightarrow> bytes" where
  "authority_text url = creds_text url @ host_text url @ port_text url"

text \<open>The authority as parts: host and port first, which come last.\<close>

definition tail_text :: "HttpURL \<Rightarrow> bytes \<Rightarrow> bytes" where
  "tail_text url r = host_text url @ port_text url @ r"

definition tail_parts :: "HttpURL \<Rightarrow> bytes \<Rightarrow> url_parts" where
  "tail_parts url r =
     (let d = bytes_of (decimal (unat (url_port url)))
      in if url_port url = 0 then [(tail_text url r, length (host_text url), at r 0)]
         else [(tail_text url r, length (host_text url), COLON), (d @ r, length d, at r 0)])"

lemma tail_scanned:
  assumes wf: "url_wf url" and r: "0 \<notin> set r" "at r 0 = SLASH"
  shows "url_parts (Suc (Suc n)) False (tail_text url r) = Some (tail_parts url r, r)"
    and "0 \<notin> set (tail_text url r)"
proof -
  let ?H = "host_text url" and ?D = "bytes_of (decimal (unat (url_port url)))"
  have port: "unat (url_port url) < 2 ^ 31" using wf by (simp add: url_wf_def)
  have ok: "part_ok ?H" "part_ok ?D" using part_ok_host [OF wf] part_ok_port by auto
  then have nul: "0 \<notin> set ?H" "0 \<notin> set ?D" by (auto simp: part_ok_def)
  have tail: "tail_text url r = (if url_port url = 0 then ?H @ r else ?H @ COLON # ?D @ r)"
    by (simp add: tail_text_def port_text_def print_port [OF port])
  then show "0 \<notin> set (tail_text url r)" using nul r by (auto simp: url_bytes)
  show "url_parts (Suc (Suc n)) False (tail_text url r) = Some (tail_parts url r, r)"
  proof (cases "url_port url = 0")
    case True
    then show ?thesis
      using parts_last [OF ok(1) r(1), of "Suc n"] r(2) tail by (simp only: tail_parts_def Let_def if_True simp_thms)
  next
    case False
    have "url_parts (Suc n) False (?D @ r) = Some ([(?D @ r, length ?D, at r 0)], r)"
      using parts_last [OF ok(2) r(1)] r(2) by blast
    moreover have "0 \<notin> set (?D @ r)" using nul r by simp
    ultimately have "url_parts (Suc (Suc n)) False (?H @ COLON # ?D @ r) =
        Some ([(?H @ COLON # ?D @ r, length ?H, COLON), (?D @ r, length ?D, at r 0)], r)"
      by (subst parts_more [OF ok(1)]) (simp_all only: option.map prod.case simp_thms)
    with False tail show ?thesis by (simp only: tail_parts_def Let_def if_False)
  qed
qed

abbreviation host_parsed :: "HttpURL \<Rightarrow> bytes" where
  "host_parsed url \<equiv> (if url_need_brackets url then LBRACKET # url_host url @ [RBRACKET] else url_host url)"

lemma fields_parsed:
  assumes wf: "url_wf url" and r: "hd r = SLASH"
  shows "parse_host invalid (tail_text url r, length (host_text url), c) v = Parsed (v\<lparr>url_host := host_parsed url\<rparr>)"
    and "parse_port (bytes_of (decimal (unat (url_port url))) @ r, length (bytes_of (decimal (unat (url_port url)))), c) v =
      Parsed (v\<lparr>url_port := url_port url\<rparr>)"
    and "parse_user invalid (http_string_append_url_encode HTTP_URL_USER_ESCAPE_CHARS (url_user url) @ q,
      length (http_string_append_url_encode HTTP_URL_USER_ESCAPE_CHARS (url_user url)), c) v = Parsed (v\<lparr>url_user := url_user url\<rparr>)"
    and "parse_passwd invalid (http_string_append_url_encode HTTP_URL_USER_ESCAPE_CHARS (url_passwd url) @ q,
      length (http_string_append_url_encode HTTP_URL_USER_ESCAPE_CHARS (url_passwd url)), c) v = Parsed (v\<lparr>url_passwd := url_passwd url\<rparr>)"
proof -
  have f: "PERCENT \<in> set HTTP_URL_USER_ESCAPE_CHARS" "0 \<notin> set (url_user url)" "0 \<notin> set (url_passwd url)"
      "unat (url_port url) < 2 ^ 31"
    using wf unsafe_chars(1) by (auto simp: url_wf_def)
  show "parse_host invalid (tail_text url r, length (host_text url), c) v = Parsed (v\<lparr>url_host := host_parsed url\<rparr>)"
    using decode_host [OF wf] by (simp add: parse_host_def tail_text_def)
  show "parse_port (bytes_of (decimal (unat (url_port url))) @ r, length (bytes_of (decimal (unat (url_port url)))), c) v =
      Parsed (v\<lparr>url_port := url_port url\<rparr>)"
    by (rule parse_port_print) (use f r in auto)
qed (use decode_encode wf unsafe_chars(1) in \<open>auto simp: parse_user_def parse_passwd_def url_wf_def\<close>)

lemma authority_parsed:
  assumes wf: "url_wf url" and r: "0 \<notin> set r" "hd r = SLASH" "r \<noteq> []"
    and u: "url_user u = []" "url_passwd u = []" "url_host u = []" "url_port u = 0"
  shows "\<exists>parts. url_parts 4 False (authority_text url @ r) = Some (parts, r) \<and> parse_authority invalid parts u =
    Parsed (u\<lparr>url_user := url_user url, url_passwd := url_passwd url, url_port := url_port url, url_host := host_parsed url\<rparr>)"
proof -
  let ?U = "http_string_append_url_encode HTTP_URL_USER_ESCAPE_CHARS (url_user url)"
  let ?P = "http_string_append_url_encode HTTP_URL_USER_ESCAPE_CHARS (url_passwd url)"
  let ?t = "tail_text url r"
  have at: "at r 0 = SLASH" using r by (cases r) auto
  note tail = tail_scanned [OF wf r(1) at]
  have seps: "AT \<noteq> COLON" "COLON \<noteq> AT" by (simp_all add: url_bytes)
  note final = tail_parts_def Let_def fields_parsed [OF wf r(2)] seps
  have four: "url_parts 4 False x = url_parts (Suc (Suc (Suc (Suc 0)))) False x" for x by (simp only: numeral_eq_Suc pred_numeral_simps BitM.simps Suc_eq_numeral)
  consider (none) "url_user url = []" "url_passwd url = []" | (user) "url_user url \<noteq> []" "url_passwd url = []"
    | (both) "url_passwd url \<noteq> []" by blast
  then show ?thesis
  proof cases
    case none
    then have t: "authority_text url @ r = ?t" by (simp add: authority_text_def creds_text_def tail_text_def)
    have "parse_authority invalid (tail_parts url r) u =
        Parsed (u\<lparr>url_user := url_user url, url_passwd := url_passwd url, url_port := url_port url, url_host := host_parsed url\<rparr>)"
      using none u by (simp add: final)
    with tail(1) [of "Suc (Suc 0)"] t show ?thesis by (simp only: four) blast
  next
    case user
    then have t: "authority_text url @ r = ?U @ AT # ?t" by (simp add: authority_text_def creds_text_def tail_text_def)
    have "url_parts (Suc (Suc (Suc (Suc 0)))) False (?U @ AT # ?t) = Some ((?U @ AT # ?t, length ?U, AT) # tail_parts url r, r)"
      by (subst parts_more [OF part_ok_user]) (simp_all only: tail option.map prod.case simp_thms)
    moreover have "parse_authority invalid ((?U @ AT # ?t, length ?U, AT) # tail_parts url r) u =
        Parsed (u\<lparr>url_user := url_user url, url_passwd := url_passwd url, url_port := url_port url, url_host := host_parsed url\<rparr>)"
      using user u by (simp add: final)
    ultimately show ?thesis unfolding four t by blast
  next
    case both
    then have t: "authority_text url @ r = ?U @ COLON # ?P @ AT # ?t"
      by (cases "url_user url = []") (simp_all add: authority_text_def creds_text_def tail_text_def HTTP_URL_PASSWD_ESCAPE_CHARS_def
          http_string_append_url_encode_def cstr_def)
    have "0 \<notin> set (?P @ AT # ?t)" using part_ok_user [of "url_passwd url"] tail(2) by (auto simp: url_bytes part_ok_def)
    moreover have "url_parts (Suc (Suc (Suc 0))) False (?P @ AT # ?t) = Some ((?P @ AT # ?t, length ?P, AT) # tail_parts url r, r)"
      by (subst parts_more [OF part_ok_user]) (simp_all only: tail option.map prod.case simp_thms)
    ultimately have "url_parts (Suc (Suc (Suc (Suc 0)))) False (?U @ COLON # ?P @ AT # ?t) =
        Some ((?U @ COLON # ?P @ AT # ?t, length ?U, COLON) # (?P @ AT # ?t, length ?P, AT) # tail_parts url r, r)"
      by (subst parts_more [OF part_ok_user]) (simp_all only: option.map prod.case simp_thms)
    moreover have "parse_authority invalid ((?U @ COLON # ?P @ AT # ?t, length ?U, COLON) # (?P @ AT # ?t, length ?P, AT) # tail_parts url r) u =
        Parsed (u\<lparr>url_user := url_user url, url_passwd := url_passwd url, url_port := url_port url, url_host := host_parsed url\<rparr>)"
      using both u by (simp add: final)
    ultimately show ?thesis unfolding four t by blast
  qed
qed

lemma local_text_start: "url_wf url \<Longrightarrow> local_text url \<noteq> [] \<and> hd (local_text url) = SLASH \<and> 0 \<notin> set (local_text url)"
proof -
  assume wf: "url_wf url"
  then have "at (local_text url) 0 = SLASH"
    unfolding local_text_def by (intro encode_file_slash) (simp add: url_wf_def)
  then have "local_text url \<noteq> []" "hd (local_text url) = SLASH"
    by (cases "local_text url"; simp add: url_bytes)+
  moreover have "0 \<notin> set (local_text url)"
    using wf file_plain(3) by (auto simp: local_text_def url_wf_def cstr_id url_bytes)
  ultimately show ?thesis by blast
qed

lemma format_parsed:
  assumes wf: "url_wf url"
  shows "http_parse_url http_init_url False invalid relative
      (cstr (url_scheme url) @ bytes_of ''://'' @ creds_text url @ host_text url @ port_text url @ local_text url) =
    Parsed (url\<lparr>url_original_local := local_text url\<rparr>)"
proof -
  let ?rest = "authority_text url @ local_text url"
  let ?str = "url_scheme url @ COLON # SLASH # SLASH # ?rest"
  note loc = local_text_start [OF wf]
  have scheme: "COLON \<notin> set (url_scheme url)" "0 \<notin> set (url_scheme url)" using wf by (simp_all add: url_wf_def)
  have "0 \<notin> set (authority_text url)"
    using wf part_ok_user [of "url_user url"] part_ok_user [of "url_passwd url"] part_ok_host [OF wf] part_ok_port [of "unat (url_port url)"]
    by (auto simp: authority_text_def creds_text_def port_text_def print_port url_wf_def part_ok_def HTTP_URL_PASSWD_ESCAPE_CHARS_def url_bytes)
  with loc scheme have nul: "0 \<notin> set ?str" by (auto simp: url_bytes)
  have str: "cstr (url_scheme url) @ bytes_of ''://'' @ creds_text url @ host_text url @ port_text url @ local_text url = ?str"
    using scheme(2) by (simp add: cstr_id authority_text_def bytes_of_def url_bytes)
  have split: "dropWhile (\<lambda>c. c \<noteq> COLON) ?str = COLON # SLASH # SLASH # ?rest" "takeWhile (\<lambda>c. c \<noteq> COLON) ?str = url_scheme url"
    using scheme(1) by (induction "url_scheme url") (auto simp: dropWhile_append takeWhile_upto)
  let ?u = "http_init_url\<lparr>url_scheme := url_scheme url\<rparr>"
  obtain parts where parts: "url_parts 4 False ?rest = Some (parts, local_text url)" and auth: "parse_authority invalid parts ?u =
      Parsed (?u\<lparr>url_user := url_user url, url_passwd := url_passwd url, url_port := url_port url,
        url_host := if url_need_brackets url then LBRACKET # url_host url @ [RBRACKET] else url_host url\<rparr>)"
    using authority_parsed [OF wf, of "local_text url" ?u invalid] loc by (auto simp: http_init_url_def)
  let ?v = "?u\<lparr>url_user := url_user url, url_passwd := url_passwd url, url_port := url_port url\<rparr>"
  have strip: "strip_brackets (?v\<lparr>url_host := if url_need_brackets url then LBRACKET # url_host url @ [RBRACKET] else url_host url\<rparr>) =
      ?v\<lparr>url_host := url_host url, url_need_brackets := url_need_brackets url\<rparr>"
    by (rule strip_host [OF wf]) (simp add: http_init_url_def)
  have init: "http_init_url\<lparr>url_scheme := [], url_user := [], url_passwd := [], url_host := [], url_file := [], url_query := [],
      url_fragment := [], url_port := 0\<rparr> = http_init_url" by (simp add: http_init_url_def)
  have "parse_local False invalid (local_text url) (?v\<lparr>url_host := url_host url, url_need_brackets := url_need_brackets url\<rparr>) =
      Parsed (url\<lparr>url_original_local := local_text url\<rparr>)"
    by (subst local_parsed [OF wf]) (simp_all add: http_init_url_def)
  then show ?thesis
    using parts auth strip unfolding str http_parse_url_def Let_def cstr_id [OF nul] split init
    by (simp add: numeral_2_eq_2)
qed

section \<open>Properties\<close>



section \<open>Characters beyond Latin-1\<close>

lemma utf8_heads:
  "k < 32 \<Longrightarrow> (of_nat (0xc0 + k) :: byte) AND 0xe0 = 0xc0 \<and> \<not> (of_nat (0xc0 + k) :: byte) < 0x80"
  "k < 16 \<Longrightarrow> (of_nat (0xe0 + k) :: byte) AND 0xe0 \<noteq> 0xc0 \<and> (of_nat (0xe0 + k) :: byte) AND 0xf0 = 0xe0 \<and>
     \<not> (of_nat (0xe0 + k) :: byte) < 0x80"
  "k < 64 \<Longrightarrow> (of_nat (0x80 + k) :: byte) AND 0xc0 = 0x80"
proof -
  have "list_all (\<lambda>k. (of_nat (0xc0 + k) :: byte) AND 0xe0 = 0xc0 \<and> \<not> (of_nat (0xc0 + k) :: byte) < 0x80) [0..<32]" by code_simp
  then show "k < 32 \<Longrightarrow> (of_nat (0xc0 + k) :: byte) AND 0xe0 = 0xc0 \<and> \<not> (of_nat (0xc0 + k) :: byte) < 0x80"
    by (simp only: list_all_iff set_upt atLeastLessThan_iff) simp
  have "list_all (\<lambda>k. (of_nat (0xe0 + k) :: byte) AND 0xe0 \<noteq> 0xc0 \<and> (of_nat (0xe0 + k) :: byte) AND 0xf0 = 0xe0 \<and>
     \<not> (of_nat (0xe0 + k) :: byte) < 0x80) [0..<16]" by code_simp
  then show "k < 16 \<Longrightarrow> (of_nat (0xe0 + k) :: byte) AND 0xe0 \<noteq> 0xc0 \<and> (of_nat (0xe0 + k) :: byte) AND 0xf0 = 0xe0 \<and>
     \<not> (of_nat (0xe0 + k) :: byte) < 0x80"
    by (simp only: list_all_iff set_upt atLeastLessThan_iff) simp
  have "list_all (\<lambda>k. (of_nat (0x80 + k) :: byte) AND 0xc0 = 0x80) [0..<64]" by code_simp
  then show "k < 64 \<Longrightarrow> (of_nat (0x80 + k) :: byte) AND 0xc0 = 0x80"
    by (simp only: list_all_iff set_upt atLeastLessThan_iff) simp
qed

lemma unat_byte: "k < 256 \<Longrightarrow> unat (of_nat k :: byte) = k"
  by (simp add: unat_of_nat)

lemma utf8_get_put:
  assumes "c < 0x10000"
  shows "utf8_get_char (unichar_to_utf8 c @ r) = Some (c, r)"
proof -
  consider "c < 0x80" | "0x80 \<le> c" "c < 0x800" | "0x800 \<le> c" by linarith
  then show ?thesis
  proof cases
    case 1
    then have "(of_nat c :: byte) < 0x80" by (simp add: word_less_nat_alt unat_byte)
    with 1 show ?thesis by (simp add: unichar_to_utf8_def unat_byte)
  next
    case 2
    then have k: "c div 0x40 < 32" "c mod 0x40 < 64" by auto
    have u: "unat (of_nat (0xc0 + c div 0x40) :: byte) = 0xc0 + c div 0x40" "unat (of_nat (0x80 + c mod 0x40) :: byte) = 0x80 + c mod 0x40"
      by (rule unat_byte; use k in linarith)+
    from 2 have "unichar_to_utf8 c @ r = of_nat (0xc0 + c div 0x40) # of_nat (0x80 + c mod 0x40) # r"
      by (simp add: unichar_to_utf8_def)
    then show ?thesis
      using utf8_heads(1) [OF k(1)] utf8_heads(3) [OF k(2)]
      by (simp only: utf8_get_char.simps if_True if_False list.case u simp_thms) simp
  next
    case 3
    with assms have k: "c div 0x1000 < 16" "c div 0x40 mod 0x40 < 64" "c mod 0x40 < 64" by auto
    have u: "unat (of_nat (0xe0 + c div 0x1000) :: byte) = 0xe0 + c div 0x1000"
        "unat (of_nat (0x80 + c div 0x40 mod 0x40) :: byte) = 0x80 + c div 0x40 mod 0x40"
        "unat (of_nat (0x80 + c mod 0x40) :: byte) = 0x80 + c mod 0x40"
      by (rule unat_byte; use k in linarith)+
    from 3 have "unichar_to_utf8 c @ r = of_nat (0xe0 + c div 0x1000) # of_nat (0x80 + c div 0x40 mod 0x40) # of_nat (0x80 + c mod 0x40) # r"
      by (simp add: unichar_to_utf8_def)
    moreover have "c div 0x1000 * 0x1000 + c div 0x40 mod 0x40 * 0x40 + c mod 0x40 = c"
    proof -
      have "c div 0x1000 = c div 0x40 div 0x40" by (simp add: div_mult2_eq [symmetric])
      moreover have "c div 0x40 div 0x40 * 0x40 + c div 0x40 mod 0x40 = c div 0x40" "c div 0x40 * 0x40 + c mod 0x40 = c" by simp_all
      ultimately show ?thesis by linarith
    qed
    ultimately show ?thesis
      using utf8_heads(2) [OF k(1)] utf8_heads(3) [OF k(2)] utf8_heads(3) [OF k(3)]
      by (simp only: utf8_get_char.simps if_True if_False list.case u simp_thms) simp
  qed
qed

lemma utf8_nonzero: "0 < c \<Longrightarrow> c < 0x10000 \<Longrightarrow> at (unichar_to_utf8 c @ r) 0 \<noteq> 0"
proof -
  assume c: "0 < c" "c < 0x10000"
  have "k < 256 \<Longrightarrow> k \<noteq> 0 \<Longrightarrow> (of_nat k :: byte) \<noteq> 0" for k
    using unat_byte [of k] by (metis unat_0)
  from this [of c] this [of "0xc0 + c div 0x40"] this [of "0xe0 + c div 0x1000"] c show ?thesis
    by (auto simp: unichar_to_utf8_def)
qed

lemma hex_byte_chars:
  assumes "n < 256"
  shows "http_string_url_decode_hex_byte (xdigit_char (int (n div 16)) # xdigit_char (int (n mod 16)) # r) = Some (of_nat n)"
proof -
  have n: "0 \<le> int (n div 16)" "int (n div 16) \<le> 15" "0 \<le> int (n mod 16)" "int (n mod 16) \<le> 15"
    using assms by auto
  have "int (n div 16) * 16 + int (n mod 16) = int n" by (metis of_nat_add of_nat_mult of_nat_numeral div_mult_mod_eq)
  then show ?thesis
    using xdigit_char_value [OF n(1,2)] xdigit_char_value [OF n(3,4)]
    by (simp add: http_string_url_decode_hex_byte_def)
qed

lemma decode_unicode_hex:
  assumes "c < 0x10000"
  shows "http_string_assign_url_decode_unicode invalid (unicode_hex c @ r) (length (unicode_hex c) + n) =
    emit_before (unichar_to_utf8 c) (http_string_assign_url_decode_unicode invalid r n)"
proof -
  have parts: "c div 0x1000 mod 16 = c div 256 div 16"
      "c div 0x10 mod 16 = c mod 256 div 16" "c mod 16 = c mod 256 mod 16"
  proof -
    have "c mod (16 * 16) = 16 * (c div 16 mod 16) + c mod 16" by (rule mod_mult2_eq)
    then show "c div 0x10 mod 16 = c mod 256 div 16" by simp
    have "c div 0x1000 = c div 256 div 16" by (simp add: div_mult2_eq [symmetric])
    with assms show "c div 0x1000 mod 16 = c div 256 div 16" by simp
  qed (simp_all add: mod_mod_cancel)
  have hi: "c div 256 < 256" using assms by simp
  define x where "x n = xdigit_char (int n)" for n
  have txt0: "unicode_hex c @ r = [PERCENT, 117, x (c div 256 div 16), x (c div 256 mod 16), x (c mod 256 div 16), x (c mod 256 mod 16)] @ r"
    by (simp only: unicode_hex_def parts x_def)
  have b: "http_string_url_decode_hex_byte (x (k div 16) # x (k mod 16) # q) = Some (of_nat k)" if "k < 256" for k q
    unfolding x_def by (rule hex_byte_chars [OF that])
  have lo: "c mod 256 < 256" by simp
  have "unat (of_nat (c div 256) :: byte) * 256 + unat (of_nat (c mod 256) :: byte) = c"
    unfolding unat_byte [OF hi] unat_byte [OF lo] by (rule div_mult_mod_eq)
  then have "unicode_escape (unicode_hex c @ r) (length (unicode_hex c) + n) = Inr (c, 5)"
    unfolding txt0 unicode_escape_def using b [OF hi, of "x (c mod 256 div 16) # x (c mod 256 mod 16) # r"] b [OF lo, of r]
    by (simp add: unicode_hex_def del: unsigned_of_nat)
  then show ?thesis
    by (subst http_string_assign_url_decode_unicode.simps) (simp add: unicode_hex_def)
qed

text \<open>C11: A character beyond Latin-1 in a path does not always survive. Its escape is decoded to the
  character, but the character is encoded again by its low byte only, whenever that byte is one of the
  characters to be escaped, or NUL: such a character reaches the server as another one, for
  instance U+0125 as a percent sign and U+0100 as a NUL byte.\<close>

theorem http_unicode_escape_lost:
  assumes "0xff < c" and "c < 0x10000"
  shows "http_string_assign_url_decode_unicode invalid (unicode_hex c) (length (unicode_hex c)) = Parsed (unichar_to_utf8 c) \<and>
    http_string_append_url_encode_unicode HTTP_URL_FILE_ESCAPE_CHARS (unichar_to_utf8 c) =
      Parsed (if low_byte c \<in> set HTTP_URL_FILE_ESCAPE_CHARS \<or> low_byte c = 0 then hex_escape (low_byte c) else unicode_hex c)"
proof
  show "http_string_assign_url_decode_unicode invalid (unicode_hex c) (length (unicode_hex c)) = Parsed (unichar_to_utf8 c)"
    using decode_unicode_hex [OF assms(2), of invalid "[]" 0] by simp
  have nil: "http_string_append_url_encode_unicode HTTP_URL_FILE_ESCAPE_CHARS [] = Parsed []"
    by (subst http_string_append_url_encode_unicode.simps) simp
  show "http_string_append_url_encode_unicode HTTP_URL_FILE_ESCAPE_CHARS (unichar_to_utf8 c) =
      Parsed (if low_byte c \<in> set HTTP_URL_FILE_ESCAPE_CHARS \<or> low_byte c = 0 then hex_escape (low_byte c) else unicode_hex c)"
    using utf8_get_put [OF assms(2), of "[]"] utf8_nonzero [of c "[]"] assms nil
    by (subst http_string_append_url_encode_unicode.simps) (auto simp: encode_unichar_def strchr_def)
qed

theorem http_unicode_escape_lost_witness:
  "http_string_assign_url_decode_unicode False (bytes_of ''%u0100'') 6 = Parsed (unichar_to_utf8 0x100) \<and>
   http_string_append_url_encode_unicode HTTP_URL_FILE_ESCAPE_CHARS (unichar_to_utf8 0x100) = Parsed (bytes_of ''%00'')"
proof -
  have "unicode_hex 0x100 = bytes_of ''%u0100''" "hex_escape (low_byte 0x100) = bytes_of ''%00''" "low_byte 0x100 = 0"
      "length (unicode_hex 0x100) = 6"
    by code_simp+
  with http_unicode_escape_lost [of "0x100" False] show ?thesis by simp
qed

section \<open>Using a URL again\<close>

lemma decode_literal: "PERCENT \<notin> set w \<Longrightarrow> http_string_assign_url_decode invalid (w @ r) (length w) = Parsed w"
  by (induction w) (auto simp: decode_plain)

text \<open>C12: The proxy parses every request of a connection into the same URL object, and two of its fields
  outlive a request. After a URL without a path, the original form of the path is still the one of
  the request before, and it is what the server is asked for when canonical URLs are switched off;
  and once an IPv6 address was parsed, every later host is taken for one that needs brackets.\<close>

theorem http_url_stale:
  assumes "COLON \<notin> set scheme" and "0 \<notin> set scheme" and "\<forall>b\<in>set host. url_plain b \<and> b \<noteq> PERCENT"
  shows "\<exists>url'. http_parse_url url unicode invalid relative (scheme @ bytes_of ''://'' @ host) = Parsed url' \<and>
    url_host url' = host \<and> url_need_brackets url' = url_need_brackets url \<and>
    http_format_url url' [] False unicode False = Parsed (cstr (url_original_local url))"
proof -
  let ?str = "scheme @ COLON # SLASH # SLASH # host"
  have str: "scheme @ bytes_of ''://'' @ host = ?str" by (simp add: bytes_of_def url_bytes)
  have nul: "0 \<notin> set host" "0 \<notin> set ?str" using assms by (auto simp: url_bytes)
  have "part_ok host" unfolding part_ok_def using assms(3) nul by (auto intro!: url_part_plain)
  from parts_last [OF this, of "[]" 3] have parts: "url_parts 4 False host = Some ([(host, length host, 0)], [])"
    by (simp add: numeral_eq_Suc)
  have split: "dropWhile (\<lambda>c. c \<noteq> COLON) ?str = COLON # SLASH # SLASH # host" "takeWhile (\<lambda>c. c \<noteq> COLON) ?str = scheme"
    using assms(1) by (induction scheme) (auto simp: dropWhile_append takeWhile_upto)
  have nz: "SLASH \<noteq> 0" "LBRACKET \<noteq> 0" by (simp_all add: url_bytes)
  have at_two: "at (COLON # SLASH # SLASH # host) 2 = SLASH" by (simp add: at_def)
  have "PERCENT \<notin> set host" using assms(3) by blast
  from decode_literal [OF this, of invalid "[]"] have host: "http_string_assign_url_decode invalid host (length host) = Parsed host"
    by simp
  have "at host 0 \<noteq> LBRACKET" using assms(3) by (cases host) (auto simp: url_bytes)
  then show ?thesis
    using parts host unfolding str http_parse_url_def Let_def cstr_id [OF nul(2)] split
    by (auto simp: at_two parse_host_def strip_brackets_def parse_local_def http_format_url_def SLASH_def [symmetric] nz)
qed

theorem http_url_stale_witness:
  "\<exists>url'. http_parse_url (http_init_url\<lparr>url_original_local := bytes_of ''/private'', url_need_brackets := True\<rparr>) False False False
      (bytes_of ''http'' @ bytes_of ''://'' @ bytes_of ''example'') = Parsed url' \<and>
    url_host url' = bytes_of ''example'' \<and> url_need_brackets url' \<and>
    http_format_url url' [] False False False = Parsed (bytes_of ''/private'')"
  using http_url_stale [of "bytes_of ''http''" "bytes_of ''example''"
      "http_init_url\<lparr>url_original_local := bytes_of ''/private'', url_need_brackets := True\<rparr>" False False False]
  by (simp add: bytes_of_def url_bytes cstr_def)

text \<open>When invalid escapes are permitted, the percent sign of one is passed on as it is and joins what
  follows: the canonical form stands for other bytes than the query it came from.\<close>

lemma http_canonical_invalid_unstable:
  "http_string_assign_url_canonicalize True HTTP_URL_QUERY_ESCAPE_CHARS (bytes_of ''%%341'') 5 = Parsed (bytes_of ''%41'')"
  "http_string_assign_url_decode True (bytes_of ''%%341'') 5 = Parsed (bytes_of ''%41'')"
  "http_string_assign_url_decode True (bytes_of ''%41'') 3 = Parsed (bytes_of ''A'')"
  by code_simp+

end
