(* ===== verification/Parse.thy ===== *)
theory Parse
  imports CString
begin

text \<open>
  The line splitter of \<^verbatim>\<open>lib/parse.cc\<close>. Its state is two pointers into a line, here the bytes from
  there to the end of the line, and how many bytes are left to parse. A failure carries the message
  that is logged; a message that is not given switches its check off.
\<close>

record ParseState =
  ps_length :: nat
  stringAt :: bytes
  spaceAt :: bytes

abbreviation SPACE :: byte where "SPACE \<equiv> 32"

fun memcspn :: "bytes \<Rightarrow> byte \<Rightarrow> nat \<Rightarrow> bytes option" where
  "memcspn segment segmentChar 0 = None"
| "memcspn segment segmentChar (Suc n) =
     (case segment of
        c # rest \<Rightarrow> if c = segmentChar then memcspn rest segmentChar n else Some segment
      | [] \<Rightarrow> Some segment)"

definition parse_start :: "bytes \<Rightarrow> ParseState" where
  "parse_start line = \<lparr>ps_length = length line, stringAt = line, spaceAt = line\<rparr>"

definition parseToSpace :: "ParseState \<Rightarrow> string option \<Rightarrow> string option \<Rightarrow> string option \<Rightarrow> nat \<Rightarrow> string + nat \<times> ParseState" where
  "parseToSpace st noSpaceAfterMsg zeroLengthMsg tooLongMsg maxLength =
     (let window = take (ps_length st) (stringAt st);
          segmentLength = length (takeWhile (\<lambda>c. c \<noteq> SPACE) window)
      in if SPACE \<notin> set window \<and> noSpaceAfterMsg \<noteq> None then Inl (the noSpaceAfterMsg)
         else
           let segmentLength = (if SPACE \<in> set window then segmentLength else ps_length st)
           in if zeroLengthMsg \<noteq> None \<and> segmentLength = 0 then Inl (the zeroLengthMsg)
              else if tooLongMsg \<noteq> None \<and> maxLength < segmentLength then Inl (the tooLongMsg)
              else Inr (segmentLength, st\<lparr>ps_length := ps_length st - segmentLength, spaceAt := drop segmentLength (stringAt st)\<rparr>))"

definition parse_until_space_to_GString ::
    "ParseState \<Rightarrow> bytes \<Rightarrow> string option \<Rightarrow> string option \<Rightarrow> string option \<Rightarrow> nat \<Rightarrow> string + bytes \<times> ParseState" where
  "parse_until_space_to_GString st outputString noSpaceAfterMsg zeroLengthMsg tooLongMsg maxLength =
     (case parseToSpace st noSpaceAfterMsg zeroLengthMsg tooLongMsg maxLength of
        Inl e \<Rightarrow> Inl e
      | Inr (segmentLength, st') \<Rightarrow> Inr (outputString @ take segmentLength (stringAt st), st'))"

definition parse_until_end_to_GString :: "ParseState \<Rightarrow> bytes \<Rightarrow> string option \<Rightarrow> nat \<Rightarrow> string + bytes \<times> ParseState" where
  "parse_until_end_to_GString st outputString zeroLengthMsg maxLength =
     (case parseToSpace st None zeroLengthMsg None maxLength of
        Inl e \<Rightarrow> Inl e
      | Inr (_, st') \<Rightarrow> Inr (outputString @ take (min (ps_length st) (maxLength + 1)) (stringAt st), st'))"

text \<open>Into a character array: what is copied ends at a NUL.\<close>

definition parse_until_space_to_gchar ::
    "ParseState \<Rightarrow> string option \<Rightarrow> string option \<Rightarrow> string option \<Rightarrow> nat \<Rightarrow> string + bytes \<times> ParseState" where
  "parse_until_space_to_gchar st noSpaceAfterMsg zeroLengthMsg tooLongMsg maxLength =
     (case parseToSpace st noSpaceAfterMsg zeroLengthMsg tooLongMsg maxLength of
        Inl e \<Rightarrow> Inl e
      | Inr (segmentLength, st') \<Rightarrow> Inr (cstr (take segmentLength (stringAt st)), st'))"

definition parse_until_spaces_end :: "string option \<Rightarrow> ParseState \<Rightarrow> string + ParseState" where
  "parse_until_spaces_end noStringReached st =
     (case memcspn (spaceAt st) SPACE (ps_length st) of
        None \<Rightarrow>
          (case noStringReached of
             Some e \<Rightarrow> Inl e
           | None \<Rightarrow> Inr (st\<lparr>stringAt := drop (ps_length st) (spaceAt st), ps_length := 0\<rparr>))
      | Some rest \<Rightarrow> Inr (st\<lparr>stringAt := rest, ps_length := ps_length st - (length (spaceAt st) - length rest)\<rparr>))"

section \<open>What a step takes\<close>

text \<open>A word and blanks at the front of what is left.\<close>

abbreviation word :: "bytes \<Rightarrow> bool" where
  "word w \<equiv> w \<noteq> [] \<and> SPACE \<notin> set w"

definition in_line :: "bytes \<Rightarrow> ParseState \<Rightarrow> bool" where
  "in_line rest st \<longleftrightarrow> stringAt st = rest \<and> ps_length st = length rest"

definition at_space :: "bytes \<Rightarrow> ParseState \<Rightarrow> bool" where
  "at_space rest st \<longleftrightarrow> spaceAt st = rest \<and> ps_length st = length rest"

lemma in_line_start [simp]: "in_line line (parse_start line)"
  by (simp add: in_line_def parse_start_def)

lemma memcspn_blanks:
  "memcspn xs c (length xs) = (if dropWhile (\<lambda>b. b = c) xs = [] then None else Some (dropWhile (\<lambda>b. b = c) xs))"
  by (induction xs) auto

lemma parseToSpace_line:
  assumes "in_line line st"
  shows "parseToSpace st nospace zero long maxlen =
    (let w = takeWhile (\<lambda>c. c \<noteq> SPACE) line
     in if w = line \<and> nospace \<noteq> None then Inl (the nospace)
        else if zero \<noteq> None \<and> w = [] then Inl (the zero)
        else if long \<noteq> None \<and> maxlen < length w then Inl (the long)
        else Inr (length w, st\<lparr>ps_length := length line - length w, spaceAt := drop (length w) line\<rparr>))"
proof -
  have st: "take (ps_length st) (stringAt st) = line" "ps_length st = length line" "stringAt st = line"
    using assms by (simp_all add: in_line_def)
  show ?thesis
  proof (cases "SPACE \<in> set line")
    case True
    then have "takeWhile (\<lambda>c. c \<noteq> SPACE) line \<noteq> line" by (metis (full_types) set_takeWhileD)
    with True show ?thesis by (simp add: parseToSpace_def st Let_def del: takeWhile_eq_all_conv)
  next
    case False
    then have tw: "takeWhile (\<lambda>c. c \<noteq> SPACE) line = line" by (auto simp: takeWhile_eq_all_conv)
    with False show ?thesis by (simp add: parseToSpace_def st Let_def tw del: takeWhile_eq_all_conv)
  qed
qed

lemma spaces_end_line:
  assumes "at_space rest st"
  shows "parse_until_spaces_end (Some e) st =
    (let r = dropWhile (\<lambda>c. c = SPACE) rest
     in if r = [] then Inl e else Inr (st\<lparr>stringAt := r, ps_length := length r\<rparr>))"
proof -
  have "length (dropWhile (\<lambda>c. c = SPACE) rest) \<le> length rest" by (rule length_dropWhile_le)
  with assms show ?thesis
    by (auto simp: parse_until_spaces_end_def at_space_def memcspn_blanks Let_def)
qed

text \<open>A word and the blanks behind it, as a way to split a line.\<close>

definition next_word :: "bytes \<Rightarrow> bytes \<times> bytes" where
  "next_word line = (takeWhile (\<lambda>c. c \<noteq> SPACE) line, dropWhile (\<lambda>c. c = SPACE) (dropWhile (\<lambda>c. c \<noteq> SPACE) line))"

abbreviation blanks :: "bytes \<Rightarrow> bool" where
  "blanks b \<equiv> b \<noteq> [] \<and> set b = {SPACE}"

lemma next_word_iff:
  assumes "rest \<noteq> []"
  shows "(\<exists>b. line = w @ b @ rest \<and> w \<noteq> [] \<and> SPACE \<notin> set w \<and> blanks b \<and> hd rest \<noteq> SPACE) \<longleftrightarrow>
    w \<noteq> [] \<and> next_word line = (w, rest)"
proof
  assume "\<exists>b. line = w @ b @ rest \<and> w \<noteq> [] \<and> SPACE \<notin> set w \<and> blanks b \<and> hd rest \<noteq> SPACE"
  then obtain b where b: "line = w @ b @ rest" "w \<noteq> []" "SPACE \<notin> set w" "blanks b" "hd rest \<noteq> SPACE" by blast
  obtain c b' where b': "b = c # b'" "c = SPACE" using b(4) by (cases b) auto
  have "takeWhile (\<lambda>c. c \<noteq> SPACE) line = w" "dropWhile (\<lambda>c. c \<noteq> SPACE) line = b @ rest"
    using b(1,3) b' by (auto simp: takeWhile_append dropWhile_append)
  moreover have "dropWhile (\<lambda>c. c = SPACE) (b @ rest) = rest"
    using b(4,5) assms by (cases rest) (auto simp: dropWhile_append)
  ultimately show "w \<noteq> [] \<and> next_word line = (w, rest)" using b(2) by (simp add: next_word_def)
next
  assume w: "w \<noteq> [] \<and> next_word line = (w, rest)"
  let ?b = "takeWhile (\<lambda>c. c = SPACE) (dropWhile (\<lambda>c. c \<noteq> SPACE) line)"
  have tail: "dropWhile (\<lambda>c. c = SPACE) (dropWhile (\<lambda>c. c \<noteq> SPACE) line) = rest" using w by (simp add: next_word_def)
  then have "dropWhile (\<lambda>c. c \<noteq> SPACE) line = ?b @ rest" by (metis takeWhile_dropWhile_id)
  moreover have "line = w @ dropWhile (\<lambda>c. c \<noteq> SPACE) line" using w by (auto simp: next_word_def)
  moreover have "?b \<noteq> []" using tail assms hd_dropWhile [of "\<lambda>c. c \<noteq> SPACE" line]
    by (cases "dropWhile (\<lambda>c. c \<noteq> SPACE) line") auto
  moreover have "\<forall>c\<in>set ?b. c = SPACE" by (auto dest: set_takeWhileD)
  then have "blanks ?b" using \<open>?b \<noteq> []\<close> by (cases ?b) auto
  moreover have "hd rest \<noteq> SPACE" using tail assms hd_dropWhile [of "\<lambda>c. c = SPACE"] by metis
  moreover have "SPACE \<notin> set w" using w by (auto simp: next_word_def dest: set_takeWhileD)
  ultimately show "\<exists>b. line = w @ b @ rest \<and> w \<noteq> [] \<and> SPACE \<notin> set w \<and> blanks b \<and> hd rest \<noteq> SPACE" using w by metis
qed

lemma word_step:
  assumes "in_line line st" and "next_word line = (m, r)" and "m \<noteq> []" and "r \<noteq> []" and "long = None \<or> length m \<le> n"
  shows "\<exists>st1 st2. parseToSpace st (Some e1) (Some e2) long n = Inr (length m, st1) \<and> take (length m) (stringAt st) = m \<and>
    parse_until_spaces_end (Some e3) st1 = Inr st2 \<and> in_line r st2"
proof -
  have m: "takeWhile (\<lambda>c. c \<noteq> SPACE) line = m" and r: "dropWhile (\<lambda>c. c = SPACE) (dropWhile (\<lambda>c. c \<noteq> SPACE) line) = r"
    using assms(2) by (auto simp: next_word_def)
  have "m \<noteq> line" using r assms(4) m by (metis dropWhile.simps(1) append_self_conv takeWhile_dropWhile_id)
  then have "parseToSpace st (Some e1) (Some e2) long n =
      Inr (length m, st\<lparr>ps_length := length line - length m, spaceAt := drop (length m) line\<rparr>)"
    using assms(3,5) unfolding parseToSpace_line [OF assms(1)] m by auto
  moreover have "at_space (dropWhile (\<lambda>c. c \<noteq> SPACE) line) (st\<lparr>ps_length := length line - length m, spaceAt := drop (length m) line\<rparr>)"
    by (simp add: at_space_def dropWhile_eq_drop m)
  from spaces_end_line [OF this, of e3] have "parse_until_spaces_end (Some e3)
      (st\<lparr>ps_length := length line - length m, spaceAt := drop (length m) line\<rparr>) =
      Inr (st\<lparr>ps_length := length line - length m, spaceAt := drop (length m) line, stringAt := r, ps_length := length r\<rparr>)"
    using assms(4) by (simp add: r)
  moreover have "take (length m) (stringAt st) = m"
    using assms(1) m by (metis in_line_def takeWhile_eq_take)
  ultimately show ?thesis by (auto simp: in_line_def)
qed

lemma word_step_fails:
  assumes "in_line line st" and "next_word line = (m, r)" and "m = [] \<or> r = [] \<or> long \<noteq> None \<and> n < length m"
    and "parseToSpace st (Some e1) (Some e2) long n = Inr (k, st1)"
  shows "\<exists>e. parse_until_spaces_end (Some e3) st1 = Inl e"
proof -
  have m: "takeWhile (\<lambda>c. c \<noteq> SPACE) line = m" and r: "dropWhile (\<lambda>c. c = SPACE) (dropWhile (\<lambda>c. c \<noteq> SPACE) line) = r"
    using assms(2) by (auto simp: next_word_def)
  have k: "m \<noteq> []" "\<not> (long \<noteq> None \<and> n < length m)"
      "st1 = st\<lparr>ps_length := length line - length m, spaceAt := drop (length m) line\<rparr>"
    using assms(4) unfolding parseToSpace_line [OF assms(1)] m by (auto simp: Let_def split: if_splits)
  then have "r = []" using assms(3) by blast
  moreover have "at_space (dropWhile (\<lambda>c. c \<noteq> SPACE) line) st1"
    unfolding k(3) by (simp add: at_space_def dropWhile_eq_drop m)
  from spaces_end_line [OF this, of e3] have "parse_until_spaces_end (Some e3) st1 = (if r = [] then Inl e3 else Inr (st1\<lparr>stringAt := r, ps_length := length r\<rparr>))"
    by (simp add: r)
  ultimately show ?thesis by simp
qed

lemma last_word:
  assumes "in_line line st" and "line \<noteq> []" and "hd line \<noteq> SPACE"
  shows "parseToSpace st None (Some e2) (Some e3) n =
    (let w = takeWhile (\<lambda>c. c \<noteq> SPACE) line in if n < length w then Inl e3
     else Inr (length w, st\<lparr>ps_length := length line - length w, spaceAt := drop (length w) line\<rparr>))"
    and "take (length (takeWhile (\<lambda>c. c \<noteq> SPACE) line)) (stringAt st) = takeWhile (\<lambda>c. c \<noteq> SPACE) line"
proof -
  have "takeWhile (\<lambda>c. c \<noteq> SPACE) line \<noteq> []" using assms(2,3) by (cases line) auto
  then show "parseToSpace st None (Some e2) (Some e3) n =
    (let w = takeWhile (\<lambda>c. c \<noteq> SPACE) line in if n < length w then Inl e3
     else Inr (length w, st\<lparr>ps_length := length line - length w, spaceAt := drop (length w) line\<rparr>))"
    by (simp add: parseToSpace_line [OF assms(1)] Let_def)
  show "take (length (takeWhile (\<lambda>c. c \<noteq> SPACE) line)) (stringAt st) = takeWhile (\<lambda>c. c \<noteq> SPACE) line"
    using assms(1) by (metis in_line_def takeWhile_eq_take)
qed

end
