(* ===== verification/Http_Lines.thy ===== *)
theory Http_Lines
  imports Parse Policy
begin

text \<open>
  The first line of requests and responses (\<^verbatim>\<open>http_split_request\<close>, \<^verbatim>\<open>http_split_response\<close> and
  \<^verbatim>\<open>http_parse_version\<close> of \<^verbatim>\<open>modules/http/httpmisc.cc\<close>, messages of \<^verbatim>\<open>messages.cc\<close>).
\<close>

section \<open>State\<close>

text \<open>The fields of the proxy that the first lines are split into.\<close>

record HttpLines =
  request_method :: bytes
  request_flags :: "32 word"
  request_url :: bytes
  request_version :: bytes
  max_url_length :: "32 word"
  response_version :: bytes
  response_status :: bytes
  response_code :: int
  response_msg :: bytes
  proto_version :: "endpoint \<Rightarrow> int"

text \<open>The messages of messages.cc, without the line that each of them goes on to quote.\<close>

definition msg_request_have_no_spaces :: string where "msg_request_have_no_spaces = ''Request have no spaces''"
definition msg_request_have_no_method :: string where "msg_request_have_no_method = ''Request have no method''"
definition msg_url_missing :: string where "msg_url_missing = ''URL missing''"
definition msg_url_is_not_followed_by_space :: string where "msg_url_is_not_followed_by_space = ''URL is not followed by space''"
definition msg_url_is_too_long :: string where "msg_url_is_too_long = ''URL is too long''"
definition msg_http_version_missing :: string where "msg_http_version_missing = ''http version missing''"
definition msg_http_version_too_long :: string where "msg_http_version_too_long = ''http version is too long''"
definition msg_response_code_missing :: string where "msg_response_code_missing = ''Response code is missing''"
definition msg_response_version_missing :: string where "msg_response_version_missing = ''Response version is missing''"
definition msg_response_version_too_long :: string where "msg_response_version_too_long = ''Response version is too long''"
definition msg_response_message_missing :: string where "msg_response_message_missing = ''Response message is missing''"
definition msg_response_code_too_long :: string where "msg_response_code_too_long = ''Response code is too long''"

section \<open>Requests\<close>

definition http_split_request :: "bytes \<Rightarrow> 'a HttpLines_scheme \<Rightarrow> (string + unit) \<times> 'a HttpLines_scheme" where
  "http_split_request line s =
     (let s = s\<lparr>request_method := [], request_flags := -1, request_version := [], request_url := []\<rparr>;
          st = parse_start line
      in case parse_until_space_to_GString st (request_method s) (Some msg_request_have_no_spaces)
                (Some msg_request_have_no_method) None 0 of
           Inl e \<Rightarrow> (Inl e, s)
         | Inr (out, st) \<Rightarrow>
      let s = s\<lparr>request_method := out\<rparr> in
      case parse_until_spaces_end (Some msg_url_missing) st of
           Inl e \<Rightarrow> (Inl e, s)
         | Inr st \<Rightarrow>
      case parse_until_space_to_GString st (request_url s) (Some msg_url_is_not_followed_by_space)
                (Some msg_request_have_no_method) (Some msg_url_is_too_long) (unat (max_url_length s)) of
           Inl e \<Rightarrow> (Inl e, s)
         | Inr (out, st) \<Rightarrow>
      let s = s\<lparr>request_url := out\<rparr> in
      case parse_until_spaces_end (Some msg_http_version_missing) st of
           Inl e \<Rightarrow> (Inl e, s)
         | Inr st \<Rightarrow>
      case parse_until_space_to_gchar st None (Some msg_http_version_missing) (Some msg_http_version_too_long) 15 of
           Inl e \<Rightarrow> (Inl e, s)
         | Inr (out, st) \<Rightarrow> (Inr (), s\<lparr>request_version := out\<rparr>))"

section \<open>Responses\<close>

definition http_split_response :: "bytes \<Rightarrow> 'a HttpLines_scheme \<Rightarrow> (string + unit) \<times> 'a HttpLines_scheme" where
  "http_split_response line s =
     (let s = s\<lparr>response_version := [], response_status := [], response_msg := []\<rparr>;
          st = parse_start line
      in case parse_until_space_to_gchar st (Some msg_response_code_missing) (Some msg_response_version_missing)
                (Some msg_response_version_too_long) 15 of
           Inl e \<Rightarrow> (Inl e, s)
         | Inr (out, st) \<Rightarrow>
      let s = s\<lparr>response_version := out\<rparr> in
      if take 4 (response_version s) \<noteq> bytes_of ''HTTP'' then (Inl ''Invalid HTTP status line'', s)
      else case parse_until_spaces_end (Some msg_response_code_missing) st of
           Inl e \<Rightarrow> (Inl e, s)
         | Inr st \<Rightarrow>
      case parse_until_space_to_gchar st (Some msg_response_message_missing) (Some msg_response_code_missing)
                (Some msg_response_code_too_long) 3 of
           Inl e \<Rightarrow> (Inl e, s)
         | Inr (out, st) \<Rightarrow>
      let s = s\<lparr>response_status := out\<rparr> in
      case strtol (response_status s) of (code, _, endptr) \<Rightarrow>
      let s = s\<lparr>response_code := code\<rparr> in
      if endptr = response_status s then (Inl ''Response code is not a number'', s)
      else if 999 < response_code s \<or> response_code s < 100 then (Inl ''Response code is not three digits'', s)
      else case parse_until_spaces_end (Some msg_response_message_missing) st of
           Inl e \<Rightarrow> (Inl e, s)
         | Inr st \<Rightarrow>
      case parse_until_end_to_GString st (response_msg s) (Some msg_response_message_missing) 255 of
           Inl e \<Rightarrow> (Inl e, s)
         | Inr (out, st) \<Rightarrow> (Inr (), s\<lparr>response_msg := out\<rparr>))"

section \<open>Versions\<close>

text \<open>An unknown version is refused and recorded as 1.0.\<close>

definition http_parse_version :: "endpoint \<Rightarrow> bytes \<Rightarrow> 'a HttpLines_scheme \<Rightarrow> bool \<times> 'a HttpLines_scheme" where
  "http_parse_version side version_str s =
     (let v = map ascii_up (cstr version_str);
          record_version = (\<lambda>n. s\<lparr>proto_version := (proto_version s)(side := n)\<rparr>)
      in if v = bytes_of ''HTTP/1.1'' then (True, record_version 0x0101)
         else if v = bytes_of ''HTTP/1.0'' then (True, record_version 0x0100)
         else if v = [] then (True, record_version 0x0009)
         else (False, record_version 0x0100))"

section \<open>Properties\<close>

lemma next_word_tail: "next_word line = (m, r) \<Longrightarrow> r \<noteq> [] \<Longrightarrow> hd r \<noteq> SPACE"
  using hd_dropWhile [of "\<lambda>c. c = SPACE" "dropWhile (\<lambda>c. c \<noteq> SPACE) line"] by (auto simp: next_word_def)

lemma request_accepted:
  assumes "next_word line = (m, r1)" and "next_word r1 = (u, r2)" and "m \<noteq> []" and "r1 \<noteq> []" and "u \<noteq> []" and "r2 \<noteq> []"
    and "length u \<le> unat (max_url_length s)" and "length (takeWhile (\<lambda>c. c \<noteq> SPACE) r2) \<le> 15"
  shows "http_split_request line s = (Inr (), s\<lparr>request_method := m, request_flags := -1, request_url := u,
    request_version := cstr (takeWhile (\<lambda>c. c \<noteq> SPACE) r2)\<rparr>)"
proof -
  obtain st1 st2 where 1: "parseToSpace (parse_start line) (Some msg_request_have_no_spaces) (Some msg_request_have_no_method) None 0 =
        Inr (length m, st1)" "take (length m) (stringAt (parse_start line)) = m"
      "parse_until_spaces_end (Some msg_url_missing) st1 = Inr st2" "in_line r1 st2"
    using word_step [OF in_line_start assms(1,3,4), of None 0] by blast
  obtain st3 st4 where 2: "parseToSpace st2 (Some msg_url_is_not_followed_by_space) (Some msg_request_have_no_method)
        (Some msg_url_is_too_long) (unat (max_url_length s)) = Inr (length u, st3)" "take (length u) (stringAt st2) = u"
      "parse_until_spaces_end (Some msg_http_version_missing) st3 = Inr st4" "in_line r2 st4"
    using word_step [OF 1(4) assms(2,5,6), of "Some msg_url_is_too_long" "unat (max_url_length s)"] assms(7) by blast
  note 3 = last_word [OF 2(4) assms(6) next_word_tail [OF assms(2,6)]]
  show ?thesis
    using 1 2 3 assms(8)
    by (simp add: http_split_request_def parse_until_space_to_GString_def parse_until_space_to_gchar_def Let_def)
qed

lemma request_refused:
  assumes "next_word line = (m, r1)" and "next_word r1 = (u, r2)" and "fst (http_split_request line s) = Inr ()"
  shows "m \<noteq> [] \<and> r1 \<noteq> [] \<and> u \<noteq> [] \<and> r2 \<noteq> [] \<and> length u \<le> unat (max_url_length s) \<and>
    length (takeWhile (\<lambda>c. c \<noteq> SPACE) r2) \<le> 15"
proof -
  obtain k1 st1 st2 where 1: "parseToSpace (parse_start line) (Some msg_request_have_no_spaces) (Some msg_request_have_no_method) None 0 =
        Inr (k1, st1)" "parse_until_spaces_end (Some msg_url_missing) st1 = Inr st2"
    using assms(3) by (auto simp: http_split_request_def parse_until_space_to_GString_def Let_def split: sum.splits)
  then have "\<not> (m = [] \<or> r1 = [] \<or> None \<noteq> (None :: string option) \<and> 0 < length m)"
    using word_step_fails [OF in_line_start assms(1) _ 1(1), of msg_url_missing] by auto
  then have m: "m \<noteq> []" "r1 \<noteq> []" by auto
  have line1: "in_line r1 st2"
    using word_step [OF in_line_start assms(1) m, of None 0 msg_request_have_no_spaces msg_request_have_no_method msg_url_missing] 1 by auto
  obtain k2 st3 st4 where 2: "parseToSpace st2 (Some msg_url_is_not_followed_by_space) (Some msg_request_have_no_method)
        (Some msg_url_is_too_long) (unat (max_url_length s)) = Inr (k2, st3)"
      "parse_until_spaces_end (Some msg_http_version_missing) st3 = Inr st4"
    using assms(3) 1 by (auto simp: http_split_request_def parse_until_space_to_GString_def Let_def split: sum.splits)
  then have "\<not> (u = [] \<or> r2 = [] \<or> Some msg_url_is_too_long \<noteq> None \<and> unat (max_url_length s) < length u)"
    using word_step_fails [OF line1 assms(2) _ 2(1), of msg_http_version_missing] by auto
  then have u: "u \<noteq> []" "r2 \<noteq> []" "length u \<le> unat (max_url_length s)" by auto
  have line2: "in_line r2 st4"
    using word_step [OF line1 assms(2) u(1,2), of "Some msg_url_is_too_long" "unat (max_url_length s)"
        msg_url_is_not_followed_by_space msg_request_have_no_method msg_http_version_missing] 2 u(3) by auto
  have "length (takeWhile (\<lambda>c. c \<noteq> SPACE) r2) \<le> 15"
    using assms(3) 1 2 last_word(1) [OF line2 u(2) next_word_tail [OF assms(2) u(2)], of msg_http_version_missing msg_http_version_too_long 15]
    by (auto simp: http_split_request_def parse_until_space_to_GString_def parse_until_space_to_gchar_def Let_def split: sum.splits if_splits)
  with m u show ?thesis by blast
qed

text \<open>C7: How a request line is split. A line is accepted exactly when it consists of a method, a URL and a
  version, words separated by blanks (what follows another blank is ignored), with a URL of at
  most \<^verbatim>\<open>max_url_length\<close> and a version of at most 15 bytes; and then these three words are what the
  proxy goes on with.\<close>

theorem http_request_split_iff:
  "(\<exists>s'. http_split_request line s = (Inr (), s') \<and> request_method s' = m \<and> request_url s' = u \<and> request_version s' = v) \<longleftrightarrow>
   (\<exists>b1 b2 w tail. line = m @ b1 @ u @ b2 @ w @ tail \<and> word m \<and> blanks b1 \<and> word u \<and> blanks b2 \<and> word w \<and>
     (tail = [] \<or> hd tail = SPACE) \<and> v = cstr w \<and> length u \<le> unat (max_url_length s) \<and> length w \<le> 15)"
proof
  assume "\<exists>s'. http_split_request line s = (Inr (), s') \<and> request_method s' = m \<and> request_url s' = u \<and> request_version s' = v"
  then obtain s' where s': "http_split_request line s = (Inr (), s')" "request_method s' = m" "request_url s' = u" "request_version s' = v"
    by blast
  obtain m' r1 where 1: "next_word line = (m', r1)" by (metis surj_pair)
  obtain u' r2 where 2: "next_word r1 = (u', r2)" by (metis surj_pair)
  let ?w = "takeWhile (\<lambda>c. c \<noteq> SPACE) r2" and ?t = "dropWhile (\<lambda>c. c \<noteq> SPACE) r2"
  have ok: "m' \<noteq> []" "r1 \<noteq> []" "u' \<noteq> []" "r2 \<noteq> []" "length u' \<le> unat (max_url_length s)" "length ?w \<le> 15"
    using request_refused [OF 1 2, of s] s' by auto
  have fields: "m' = m" "u' = u" "cstr ?w = v" using request_accepted [OF 1 2 ok] s' by auto
  obtain b1 where b1: "line = m @ b1 @ r1" "word m" "blanks b1" using next_word_iff [OF ok(2), of line m'] 1 ok(1) fields by blast
  obtain b2 where b2: "r1 = u @ b2 @ r2" "word u" "blanks b2" using next_word_iff [OF ok(4), of r1 u'] 2 ok(3) fields by blast
  have "?w \<noteq> []" using next_word_tail [OF 2 ok(4)] ok(4) by (cases r2) auto
  moreover have "SPACE \<notin> set ?w" by (auto dest: set_takeWhileD)
  moreover have "?t = [] \<or> hd ?t = SPACE" using hd_dropWhile [of "\<lambda>c. c \<noteq> SPACE" r2] by blast
  moreover have "line = m @ b1 @ u @ b2 @ ?w @ ?t" using b1(1) b2(1) by simp
  ultimately show "\<exists>b1 b2 w tail. line = m @ b1 @ u @ b2 @ w @ tail \<and> word m \<and> blanks b1 \<and> word u \<and> blanks b2 \<and> word w \<and>
     (tail = [] \<or> hd tail = SPACE) \<and> v = cstr w \<and> length u \<le> unat (max_url_length s) \<and> length w \<le> 15"
    using b1 b2 ok fields by blast
next
  assume "\<exists>b1 b2 w tail. line = m @ b1 @ u @ b2 @ w @ tail \<and> word m \<and> blanks b1 \<and> word u \<and> blanks b2 \<and> word w \<and>
     (tail = [] \<or> hd tail = SPACE) \<and> v = cstr w \<and> length u \<le> unat (max_url_length s) \<and> length w \<le> 15"
  then obtain b1 b2 w tail where l: "line = m @ b1 @ u @ b2 @ w @ tail" "word m" "blanks b1" "word u" "blanks b2" "word w"
      "tail = [] \<or> hd tail = SPACE" "v = cstr w" "length u \<le> unat (max_url_length s)" "length w \<le> 15"
    by blast
  have w: "takeWhile (\<lambda>c. c \<noteq> SPACE) (w @ tail) = w"
    using l(6,7) by (cases tail) (auto simp: takeWhile_append)
  have "hd (w @ tail) \<noteq> SPACE" "hd (u @ b2 @ w @ tail) \<noteq> SPACE" using l(4,6) by (cases w; cases u; auto)+
  then have "next_word line = (m, u @ b2 @ w @ tail)" "next_word (u @ b2 @ w @ tail) = (u, w @ tail)"
    using next_word_iff [of "u @ b2 @ w @ tail" line m] next_word_iff [of "w @ tail" "u @ b2 @ w @ tail" u] l by auto
  from request_accepted [OF this, of s] l w show "\<exists>s'. http_split_request line s = (Inr (), s') \<and> request_method s' = m \<and> request_url s' = u \<and> request_version s' = v"
    by auto
qed

text \<open>Responses.\<close>

lemma digits_value_bound: "list_all isdigit ds \<Longrightarrow> 0 \<le> digits_value ds \<and> digits_value ds < 10 ^ length ds"
proof (induction ds rule: rev_induct)
  case (snoc d ds)
  then have "48 \<le> uint d" "uint d \<le> 57" by (auto simp: isdigit_def word_le_def)
  with snoc show ?case by (auto simp: digits_value_def)
qed (simp add: digits_value_def)

lemma strtol_three:
  assumes "strtol str = (code, e, rest)" and "length str \<le> 3" and "100 \<le> code"
  shows "length str = 3 \<and> list_all isdigit str \<and> code = digits_value str"
proof -
  let ?ws = "dropWhile isspace str"
  obtain neg body where nb: "(case ?ws of [] \<Rightarrow> (False, []) | c # r \<Rightarrow> if c = 43 then (False, r) else if c = 45 then (True, r) else (False, ?ws)) = (neg, body)"
    by (rule prod.exhaust)
  let ?ds = "takeWhile isdigit body"
  have digits: "list_all isdigit ?ds" by (auto simp: list_all_iff dest: set_takeWhileD)
  note val = digits_value_bound [OF this]
  have code: "?ds \<noteq> []" "code = max LONG_MIN (min LONG_MAX (if neg then - digits_value ?ds else digits_value ?ds))"
    using assms(1,3) nb by (auto simp: strtol_def Let_def split: if_splits)
  have len: "length ?ds \<le> length body" "length body \<le> length ?ws" "length ?ws \<le> length str"
  proof -
    have "(case ws of [] \<Rightarrow> (False, []) | c # r \<Rightarrow> if c = 43 then (False, r) else if c = 45 then (True, r) else (False, ws)) = (neg, body) \<Longrightarrow>
        length body \<le> length ws" for ws :: bytes
      by (cases ws) (auto split: if_splits)
    from this [OF nb] show "length body \<le> length ?ws" .
  qed (simp_all add: length_takeWhile_le length_dropWhile_le)
  have neg: "\<not> neg" "100 \<le> digits_value ?ds"
    using code(2) assms(3) val by (auto simp: LONG_MIN_def LONG_MAX_def split: if_splits)
  have "\<not> length ?ds \<le> 2"
  proof
    assume "length ?ds \<le> 2"
    then have "(10::int) ^ length ?ds \<le> 10 ^ 2" by (intro power_increasing) auto
    with val neg(2) show False by simp
  qed
  with len assms(2) have all: "length ?ds = 3" "length body = 3" "length ?ws = 3" "length str = 3" by auto
  have "?ws = str"
    using all(3,4) length_dropWhile_le [of isspace "tl str"] by (cases str) (auto split: if_splits)
  moreover have "body = ?ws"
  proof -
    have "(case ws of [] \<Rightarrow> (False, []) | c # r \<Rightarrow> if c = 43 then (False, r) else if c = 45 then (True, r) else (False, ws)) = (neg, body) \<Longrightarrow>
        length body = length ws \<Longrightarrow> body = ws" for ws :: bytes
      by (cases ws) (auto split: if_splits)
    from this [OF nb] all(2,3) show ?thesis by simp
  qed
  moreover have "?ds = body" using all(1,2) by (metis append_Nil2 append_eq_append_conv takeWhile_dropWhile_id)
  ultimately have "?ds = str" by simp
  moreover have "code = digits_value ?ds"
    using code(2) neg val all(1) by (simp add: LONG_MIN_def LONG_MAX_def)
  ultimately show ?thesis using digits all(4) by simp
qed

lemma gchar_at_space:
  "in_line line st \<Longrightarrow> parse_until_space_to_gchar st (Some e1) (Some e2) (Some e3) n = Inr (out, st') \<Longrightarrow> \<exists>rest. at_space rest st'"
  by (auto simp: parse_until_space_to_gchar_def parseToSpace_line at_space_def Let_def split: sum.splits if_splits)

lemma spaces_end_in_line:
  "at_space rest st \<Longrightarrow> parse_until_spaces_end (Some e) st = Inr st' \<Longrightarrow> \<exists>r. r \<noteq> [] \<and> in_line r st'"
  by (auto simp: spaces_end_line in_line_def Let_def split: if_splits)

lemma gchar_bounds:
  "parse_until_space_to_gchar st a b (Some e) n = Inr (out, st') \<Longrightarrow> length out \<le> n"
proof -
  assume "parse_until_space_to_gchar st a b (Some e) n = Inr (out, st')"
  then obtain k where "parseToSpace st a b (Some e) n = Inr (k, st')" and out: "out = cstr (take k (stringAt st))"
    by (auto simp: parse_until_space_to_gchar_def split: sum.splits)
  then have "k \<le> n" by (auto simp: parseToSpace_def Let_def split: if_splits)
  with out length_cstr_le [of "take k (stringAt st)"] show ?thesis by simp
qed

text \<open>C8: What an accepted status line guarantees: a version of at most 15 bytes that starts with \<^verbatim>\<open>HTTP\<close>, a
  status of exactly three digits whose value, between 100 and 999, is the code, and a message of one
  to 256 bytes. (A line without a message is refused.)\<close>

theorem http_response_split:
  assumes "http_split_response line s = (Inr (), s')"
  shows "take 4 (response_version s') = bytes_of ''HTTP'' \<and> length (response_version s') \<le> 15 \<and>
    length (response_status s') = 3 \<and> list_all isdigit (response_status s') \<and>
    response_code s' = digits_value (response_status s') \<and> 100 \<le> response_code s' \<and> response_code s' \<le> 999 \<and>
    response_msg s' \<noteq> [] \<and> length (response_msg s') \<le> 256"
proof -
  obtain v st1 where 1: "parse_until_space_to_gchar (parse_start line) (Some msg_response_code_missing) (Some msg_response_version_missing)
      (Some msg_response_version_too_long) 15 = Inr (v, st1)" "take 4 v = bytes_of ''HTTP''"
    using assms by (auto simp: http_split_response_def Let_def split: sum.splits if_splits)
  obtain st2 where 2: "parse_until_spaces_end (Some msg_response_code_missing) st1 = Inr st2"
    using assms 1 by (auto simp: http_split_response_def Let_def split: sum.splits)
  obtain r st3 where 3: "parse_until_space_to_gchar st2 (Some msg_response_message_missing) (Some msg_response_code_missing)
      (Some msg_response_code_too_long) 3 = Inr (r, st3)"
    using assms 1 2 by (auto simp: http_split_response_def Let_def split: sum.splits)
  obtain code e rest where 4: "strtol r = (code, e, rest)" by (metis surj_pair)
  have 5: "100 \<le> code" "code \<le> 999"
    using assms 1 2 3 4 by (auto simp: http_split_response_def Let_def split: if_splits)
  obtain st4 where 6: "parse_until_spaces_end (Some msg_response_message_missing) st3 = Inr st4"
    using assms 1 2 3 4 5 by (auto simp: http_split_response_def Let_def split: sum.splits if_splits)
  obtain msg st5 where 7: "parse_until_end_to_GString st4 [] (Some msg_response_message_missing) 255 = Inr (msg, st5)"
    using assms 1 2 3 4 5 6 by (auto simp: http_split_response_def Let_def split: sum.splits if_splits)
  have s': "response_version s' = v" "response_status s' = r" "response_code s' = code" "response_msg s' = msg"
    using assms 1 2 3 4 5 6 7 by (auto simp: http_split_response_def Let_def split: if_splits)
  obtain line2 where "in_line line2 st2" using spaces_end_in_line [OF _ 2] gchar_at_space [OF in_line_start 1(1)] by blast
  then obtain line4 where "line4 \<noteq> []" "in_line line4 st4" using spaces_end_in_line [OF _ 6] gchar_at_space [OF _ 3] by blast
  then have "msg \<noteq> [] \<and> length msg \<le> 256"
    using 7 by (auto simp: parse_until_end_to_GString_def in_line_def min_def split: sum.splits if_splits)
  with s' 1(2) 5 gchar_bounds [OF 1(1)] strtol_three [OF 4 gchar_bounds [OF 3] 5(1)] show ?thesis by simp
qed

theorem http_response_split_witness:
  "\<exists>s'. http_split_response (bytes_of ''HTTP/1.1 404 Not here'')
      \<lparr>request_method = [], request_flags = 0, request_url = [], request_version = [], max_url_length = 100, response_version = [],
       response_status = [], response_code = 0, response_msg = [], proto_version = (\<lambda>_. 0)\<rparr> = (Inr (), s') \<and>
    response_code s' = 404"
proof -
  let ?s = "\<lparr>request_method = [], request_flags = 0, request_url = [], request_version = [], max_url_length = 100, response_version = [],
       response_status = [], response_code = 0, response_msg = [], proto_version = (\<lambda>_. 0)\<rparr>"
  have r: "http_split_response (bytes_of ''HTTP/1.1 404 Not here'') ?s =
      (Inr (), ?s\<lparr>response_version := bytes_of ''HTTP/1.1'', response_status := bytes_of ''404'', response_code := 404,
        response_msg := bytes_of ''Not here''\<rparr>)"
    by code_simp
  from http_response_split [OF r] r show ?thesis by auto
qed

end
