(* ===== verification/Http_Hash.thy ===== *)
theory Http_Hash
  imports CString
begin

text \<open>
  Hash tables with the hash and comparison functions that the HTTP proxy gives them (the policy hashes
  and protocol tables of \<^verbatim>\<open>modules/http/http.cc\<close>, the header sets of \<^verbatim>\<open>httphdr.cc\<close>). As in GLib, a
  table keeps the hash value that a key had when it was inserted, a lookup compares hash values
  first and keys then, and inserting an equal key replaces the value. The contract of a pair of
  functions, equal keys have equal hash values, is the locale \<open>hash_functions\<close>.
\<close>

unbundle bit_operations_syntax

section \<open>Tables\<close>

type_synonym 'v ghash = "(32 word \<times> bytes \<times> 'v) list"

definition gh_match :: "(bytes \<Rightarrow> 32 word) \<Rightarrow> (bytes \<Rightarrow> bytes \<Rightarrow> bool) \<Rightarrow> bytes \<Rightarrow> 32 word \<times> bytes \<times> 'v \<Rightarrow> bool" where
  "gh_match hash equal k e \<longleftrightarrow> fst e = hash k \<and> equal (fst (snd e)) k"

definition gh_lookup :: "(bytes \<Rightarrow> 32 word) \<Rightarrow> (bytes \<Rightarrow> bytes \<Rightarrow> bool) \<Rightarrow> 'v ghash \<Rightarrow> bytes \<Rightarrow> 'v option" where
  "gh_lookup hash equal t k = map_option (snd \<circ> snd) (find (gh_match hash equal k) t)"

fun gh_insert :: "(bytes \<Rightarrow> 32 word) \<Rightarrow> (bytes \<Rightarrow> bytes \<Rightarrow> bool) \<Rightarrow> bytes \<Rightarrow> 'v \<Rightarrow> 'v ghash \<Rightarrow> 'v ghash" where
  "gh_insert hash equal k v [] = [(hash k, k, v)]"
| "gh_insert hash equal k v (e # t) =
     (if gh_match hash equal k e then (fst e, fst (snd e), v) # t else e # gh_insert hash equal k v t)"

definition gh_ok :: "(bytes \<Rightarrow> 32 word) \<Rightarrow> 'v ghash \<Rightarrow> bool" where
  "gh_ok hash t \<longleftrightarrow> (\<forall>(h, k, v)\<in>set t. h = hash k)"

locale hash_functions =
  fixes hash :: "bytes \<Rightarrow> 32 word"
    and equal :: "bytes \<Rightarrow> bytes \<Rightarrow> bool"
  assumes equal_refl: "equal a a"
    and equal_sym: "equal a b \<Longrightarrow> equal b a"
    and equal_trans: "equal a b \<Longrightarrow> equal b c \<Longrightarrow> equal a c"
    and hash_cong: "equal a b \<Longrightarrow> hash a = hash b"
begin

lemma equal_cong: "equal k j \<Longrightarrow> equal a k = equal a j"
  by (blast intro: equal_trans equal_sym)

lemma match_cong: "equal k j \<Longrightarrow> gh_match hash equal k e = gh_match hash equal j e"
  by (simp add: gh_match_def equal_cong [of k j] hash_cong [of k j])

lemma match_equal: "gh_ok hash (e # t) \<Longrightarrow> gh_match hash equal k e = equal (fst (snd e)) k"
  by (auto simp: gh_match_def gh_ok_def hash_cong split: prod.splits)

lemma insert_ok: "gh_ok hash t \<Longrightarrow> gh_ok hash (gh_insert hash equal k v t)"
  by (induction t) (auto simp: gh_ok_def split: if_splits)

lemma lookup_insert:
  "gh_lookup hash equal (gh_insert hash equal k v t) j = (if equal k j then Some v else gh_lookup hash equal t j)"
proof (induction t)
  case Nil
  then show ?case using hash_cong by (auto simp: gh_lookup_def gh_match_def)
next
  case (Cons e t)
  show ?case
  proof (cases "gh_match hash equal k e")
    case True
    have "equal k j" if "gh_match hash equal j e"
      using that True by (auto simp: gh_match_def intro: equal_trans equal_sym)
    then have "gh_match hash equal j e \<longleftrightarrow> equal k j" using True match_cong by blast
    moreover have "gh_match hash equal j (fst e, fst (snd e), v) = gh_match hash equal j e"
      by (simp add: gh_match_def)
    ultimately show ?thesis using True by (simp add: gh_lookup_def)
  next
    case False
    with Cons match_cong [of k j e] show ?thesis by (auto simp: gh_lookup_def)
  qed
qed

text \<open>A table filled from a list gives the last of the entries with an equal key.\<close>

lemma lookup_filled:
  "gh_lookup hash equal (foldl (\<lambda>t (k, v). gh_insert hash equal k v t) t xs) j =
   (case find (\<lambda>(k, v). equal k j) (rev xs) of None \<Rightarrow> gh_lookup hash equal t j | Some (k, v) \<Rightarrow> Some v)"
proof (induction xs arbitrary: t rule: rev_induct)
  case (snoc x xs)
  then show ?case by (cases x) (simp add: lookup_insert)
qed simp

end

section \<open>Hash and comparison functions\<close>

text \<open>\<^verbatim>\<open>toupper\<close> of a signed char, in the C locale.\<close>

definition ctoupper :: "byte \<Rightarrow> int" where
  "ctoupper b = sint (ascii_up b)"

definition strcasecmp_eq :: "bytes \<Rightarrow> bytes \<Rightarrow> bool" where
  "strcasecmp_eq a b \<longleftrightarrow> map ascii_up (cstr a) = map ascii_up (cstr b)"

definition http_filter_hash_compare :: "bytes \<Rightarrow> bytes \<Rightarrow> int" where
  "http_filter_hash_compare a b = (if strcasecmp_eq a b then 1 else 0)"

text \<open>The remainder of C takes the sign of the dividend.\<close>

definition http_filter_hash_bucket :: "bytes \<Rightarrow> int" where
  "http_filter_hash_bucket a =
     (let sum = foldl (\<lambda>sum b. sum + ctoupper b) 0 (cstr a)
      in if 0 \<le> sum then sum mod 16 else - (- sum mod 16))"

definition http_header_equal :: "bytes \<Rightarrow> bytes \<Rightarrow> bool" where
  "http_header_equal k1 k2 \<longleftrightarrow> strcasecmp_eq k1 k2"

text \<open>The first character is read even of an empty string: it is the terminating NUL.\<close>

definition http_header_hash :: "bytes \<Rightarrow> 32 word" where
  "http_header_hash key =
     (case cstr key of
        [] \<Rightarrow> 0
      | b # bs \<Rightarrow> foldl (\<lambda>h b. (push_bit 5 h - h) + word_of_int (ctoupper b)) (word_of_int (ctoupper b)) bs)"

text \<open>GLib's functions for case-sensitive tables.\<close>

definition g_str_hash :: "bytes \<Rightarrow> 32 word" where
  "g_str_hash key = foldl (\<lambda>h b. push_bit 5 h + h + scast b) 5381 (cstr key)"

definition g_str_equal :: "bytes \<Rightarrow> bytes \<Rightarrow> bool" where
  "g_str_equal a b \<longleftrightarrow> cstr a = cstr b"

abbreviation filter_hash :: "bytes \<Rightarrow> 32 word" where
  "filter_hash a \<equiv> word_of_int (http_filter_hash_bucket a)"

abbreviation filter_equal :: "bytes \<Rightarrow> bytes \<Rightarrow> bool" where
  "filter_equal a b \<equiv> http_filter_hash_compare a b \<noteq> 0"

lemma foldl_ctoupper: "foldl (\<lambda>h b. f h (ctoupper b)) z xs = foldl (\<lambda>h b. f h (sint b)) z (map ascii_up xs)"
  by (induction xs arbitrary: z) (simp_all add: ctoupper_def)

lemma bucket_cong: "strcasecmp_eq a b \<Longrightarrow> http_filter_hash_bucket a = http_filter_hash_bucket b"
  by (simp add: http_filter_hash_bucket_def strcasecmp_eq_def foldl_ctoupper [of "(+)"])

lemma header_hash_cong: "strcasecmp_eq a b \<Longrightarrow> http_header_hash a = http_header_hash b"
proof -
  have up: "http_header_hash k = (case map ascii_up (cstr k) of [] \<Rightarrow> 0
      | b # bs \<Rightarrow> foldl (\<lambda>h b. (push_bit 5 h - h) + scast b) (scast b) bs)" for k
    by (cases "cstr k") (simp_all add: http_header_hash_def ctoupper_def foldl_map)
  show "http_header_hash a = http_header_hash b" if "strcasecmp_eq a b"
    using that by (simp only: up strcasecmp_eq_def)
qed

interpretation filter_table: hash_functions filter_hash filter_equal
  by unfold_locales (auto simp: http_filter_hash_compare_def strcasecmp_eq_def intro: bucket_cong [THEN arg_cong] split: if_splits)

interpretation header_table: hash_functions http_header_hash http_header_equal
  by unfold_locales (auto simp: http_header_equal_def strcasecmp_eq_def intro: header_hash_cong)

interpretation str_table: hash_functions g_str_hash g_str_equal
  by unfold_locales (auto simp: g_str_equal_def g_str_hash_def)

end
