(* ===== verification/Http_Proto.thy ===== *)
theory Http_Proto
  imports Http_Hash
begin

text \<open>
  The protocol tables of \<^verbatim>\<open>modules/http/httpproto.cc\<close>: flags of request methods and of response codes, and for
  every known header the characters and the length that strict header checking permits. Constants and
  lookups are those of \<^verbatim>\<open>http.h\<close>.
\<close>

section \<open>Flags\<close>

definition HTTP_REQ_FLG_HEAD :: "32 word" where "HTTP_REQ_FLG_HEAD = 2"
definition HTTP_REQ_FLG_ASTERIX :: "32 word" where "HTTP_REQ_FLG_ASTERIX = 4"
definition HTTP_REQ_FLG_CONNECT :: "32 word" where "HTTP_REQ_FLG_CONNECT = 8"
definition HTTP_RESP_FLG_CONTINUE :: "32 word" where "HTTP_RESP_FLG_CONTINUE = 1"
definition HTTP_RESP_FLG_SUPPRESS :: "32 word" where "HTTP_RESP_FLG_SUPPRESS = 2"
definition HTTP_RESP_FLG_DONTEXPECT :: "32 word" where "HTTP_RESP_FLG_DONTEXPECT = 4"
definition HTTP_RESP_FLG_STOP :: "32 word" where "HTTP_RESP_FLG_STOP = 8"

definition HTTP_HDR_FF_URL :: "32 word" where "HTTP_HDR_FF_URL = push_bit 1 1"
definition HTTP_HDR_FF_ANY :: "32 word" where "HTTP_HDR_FF_ANY = push_bit 2 1"

definition HTTP_HDR_CF_ALPHA :: "32 word" where "HTTP_HDR_CF_ALPHA = push_bit 3 1"
definition HTTP_HDR_CF_NUMERIC :: "32 word" where "HTTP_HDR_CF_NUMERIC = push_bit 4 1"
definition HTTP_HDR_CF_SPACE :: "32 word" where "HTTP_HDR_CF_SPACE = push_bit 5 1"
definition HTTP_HDR_CF_COMMA :: "32 word" where "HTTP_HDR_CF_COMMA = push_bit 6 1"
definition HTTP_HDR_CF_DOT :: "32 word" where "HTTP_HDR_CF_DOT = push_bit 7 1"
definition HTTP_HDR_CF_BRACKET :: "32 word" where "HTTP_HDR_CF_BRACKET = push_bit 8 1"
definition HTTP_HDR_CF_EQUAL :: "32 word" where "HTTP_HDR_CF_EQUAL = push_bit 9 1"
definition HTTP_HDR_CF_DASH :: "32 word" where "HTTP_HDR_CF_DASH = push_bit 10 1"
definition HTTP_HDR_CF_SLASH :: "32 word" where "HTTP_HDR_CF_SLASH = push_bit 11 1"
definition HTTP_HDR_CF_COLON :: "32 word" where "HTTP_HDR_CF_COLON = push_bit 12 1"
definition HTTP_HDR_CF_SEMICOLON :: "32 word" where "HTTP_HDR_CF_SEMICOLON = push_bit 13 1"
definition HTTP_HDR_CF_AT :: "32 word" where "HTTP_HDR_CF_AT = push_bit 14 1"
definition HTTP_HDR_CF_UNDERLINE :: "32 word" where "HTTP_HDR_CF_UNDERLINE = push_bit 15 1"
definition HTTP_HDR_CF_AND :: "32 word" where "HTTP_HDR_CF_AND = push_bit 16 1"
definition HTTP_HDR_CF_BACKSLASH :: "32 word" where "HTTP_HDR_CF_BACKSLASH = push_bit 17 1"
definition HTTP_HDR_CF_ASTERIX :: "32 word" where "HTTP_HDR_CF_ASTERIX = push_bit 19 1"
definition HTTP_HDR_CF_DOLLAR :: "32 word" where "HTTP_HDR_CF_DOLLAR = push_bit 20 1"
definition HTTP_HDR_CF_HASHMARK :: "32 word" where "HTTP_HDR_CF_HASHMARK = push_bit 21 1"
definition HTTP_HDR_CF_PLUS :: "32 word" where "HTTP_HDR_CF_PLUS = push_bit 22 1"
definition HTTP_HDR_CF_QUOTE :: "32 word" where "HTTP_HDR_CF_QUOTE = push_bit 23 1"
definition HTTP_HDR_CF_QUESTIONMARK :: "32 word" where "HTTP_HDR_CF_QUESTIONMARK = push_bit 24 1"
definition HTTP_HDR_CF_PERCENT :: "32 word" where "HTTP_HDR_CF_PERCENT = push_bit 25 1"
definition HTTP_HDR_CF_TILDE :: "32 word" where "HTTP_HDR_CF_TILDE = push_bit 26 1"
definition HTTP_HDR_CF_EXCLAM :: "32 word" where "HTTP_HDR_CF_EXCLAM = push_bit 27 1"

lemmas hdr_flag_defs =
  HTTP_HDR_FF_URL_def HTTP_HDR_FF_ANY_def HTTP_HDR_CF_ALPHA_def HTTP_HDR_CF_NUMERIC_def HTTP_HDR_CF_SPACE_def
  HTTP_HDR_CF_COMMA_def HTTP_HDR_CF_DOT_def HTTP_HDR_CF_BRACKET_def HTTP_HDR_CF_EQUAL_def HTTP_HDR_CF_DASH_def
  HTTP_HDR_CF_SLASH_def HTTP_HDR_CF_COLON_def HTTP_HDR_CF_SEMICOLON_def HTTP_HDR_CF_AT_def HTTP_HDR_CF_UNDERLINE_def
  HTTP_HDR_CF_AND_def HTTP_HDR_CF_BACKSLASH_def HTTP_HDR_CF_ASTERIX_def HTTP_HDR_CF_DOLLAR_def HTTP_HDR_CF_HASHMARK_def
  HTTP_HDR_CF_PLUS_def HTTP_HDR_CF_QUOTE_def HTTP_HDR_CF_QUESTIONMARK_def HTTP_HDR_CF_PERCENT_def HTTP_HDR_CF_TILDE_def
  HTTP_HDR_CF_EXCLAM_def

lemmas msg_flag_defs =
  HTTP_REQ_FLG_HEAD_def HTTP_REQ_FLG_ASTERIX_def HTTP_REQ_FLG_CONNECT_def HTTP_RESP_FLG_CONTINUE_def
  HTTP_RESP_FLG_SUPPRESS_def HTTP_RESP_FLG_DONTEXPECT_def HTTP_RESP_FLG_STOP_def

section \<open>Tables\<close>

record HttpElementInfo =
  el_name :: bytes
  el_flags :: "32 word"
  el_max_len :: int

definition element :: "string \<Rightarrow> 32 word \<Rightarrow> int \<Rightarrow> HttpElementInfo" where
  "element name flags max_len = \<lparr>el_name = bytes_of name, el_flags = flags, el_max_len = max_len\<rparr>"

definition request_proto_table :: "HttpElementInfo list" where
  "request_proto_table =
     [element ''HEAD'' HTTP_REQ_FLG_HEAD (-1),
      element ''OPTIONS'' HTTP_REQ_FLG_ASTERIX (-1),
      element ''CONNECT'' HTTP_REQ_FLG_CONNECT (-1)]"

definition response_proto_table :: "HttpElementInfo list" where
  "response_proto_table =
     [element ''100'' HTTP_RESP_FLG_CONTINUE (-1),
      element ''101'' (HTTP_RESP_FLG_SUPPRESS OR HTTP_RESP_FLG_STOP) (-1),
      element ''204'' HTTP_RESP_FLG_SUPPRESS (-1),
      element ''205'' HTTP_RESP_FLG_DONTEXPECT (-1),
      element ''304'' HTTP_RESP_FLG_SUPPRESS (-1),
      element ''402'' HTTP_RESP_FLG_STOP (-1)]"

definition request_hdr_proto_table_1 :: "HttpElementInfo list" where
  "request_hdr_proto_table_1 =
     [element ''Allow'' (HTTP_HDR_CF_ALPHA OR HTTP_HDR_CF_COMMA OR HTTP_HDR_CF_SPACE) 64,
      element ''Authorization'' (HTTP_HDR_CF_ALPHA OR HTTP_HDR_CF_SPACE OR HTTP_HDR_CF_NUMERIC OR HTTP_HDR_CF_EQUAL)
        256,
      element ''Content-Encoding'' (HTTP_HDR_CF_ALPHA OR HTTP_HDR_CF_DASH OR HTTP_HDR_CF_SLASH) 64,
      element ''Content-Length'' HTTP_HDR_CF_NUMERIC 64,
      element ''Content-Type'' (HTTP_HDR_CF_ALPHA OR HTTP_HDR_CF_DASH OR HTTP_HDR_CF_SLASH OR HTTP_HDR_CF_NUMERIC OR
        HTTP_HDR_CF_SPACE OR HTTP_HDR_CF_EQUAL OR HTTP_HDR_CF_SEMICOLON OR HTTP_HDR_CF_QUOTE) 64,
      element ''Date'' (HTTP_HDR_CF_ALPHA OR HTTP_HDR_CF_NUMERIC OR HTTP_HDR_CF_COMMA OR HTTP_HDR_CF_SPACE OR
        HTTP_HDR_CF_COLON) 128,
      element ''Expires'' (HTTP_HDR_CF_ALPHA OR HTTP_HDR_CF_NUMERIC OR HTTP_HDR_CF_COMMA OR HTTP_HDR_CF_SPACE OR
        HTTP_HDR_CF_COLON OR HTTP_HDR_CF_DASH) 128,
      element ''From'' (HTTP_HDR_CF_AT OR HTTP_HDR_CF_ALPHA OR HTTP_HDR_CF_NUMERIC OR HTTP_HDR_CF_DASH OR
        HTTP_HDR_CF_DOT OR HTTP_HDR_CF_UNDERLINE) 256,
      element ''If-Modified-Since'' (HTTP_HDR_CF_ALPHA OR HTTP_HDR_CF_NUMERIC OR HTTP_HDR_CF_COMMA OR
        HTTP_HDR_CF_SPACE OR HTTP_HDR_CF_COLON OR HTTP_HDR_CF_EQUAL OR HTTP_HDR_CF_SEMICOLON) 128,
      element ''Last-Modified'' (HTTP_HDR_CF_ALPHA OR HTTP_HDR_CF_NUMERIC OR HTTP_HDR_CF_COMMA OR HTTP_HDR_CF_SPACE OR
        HTTP_HDR_CF_COLON) 128,
      element ''Pragma'' (HTTP_HDR_CF_ALPHA OR HTTP_HDR_CF_DASH) 64,
      element ''Referer'' HTTP_HDR_FF_URL (-1),
      element ''User-Agent'' (HTTP_HDR_CF_ALPHA OR HTTP_HDR_CF_NUMERIC OR HTTP_HDR_CF_SLASH OR HTTP_HDR_CF_BACKSLASH
        OR HTTP_HDR_CF_DOT OR HTTP_HDR_CF_SPACE OR HTTP_HDR_CF_DASH OR HTTP_HDR_CF_BRACKET OR HTTP_HDR_CF_SEMICOLON OR
        HTTP_HDR_CF_COLON) 256,
      element ''Accept'' (HTTP_HDR_CF_ALPHA OR HTTP_HDR_CF_DASH OR HTTP_HDR_CF_SLASH OR HTTP_HDR_CF_NUMERIC OR
        HTTP_HDR_CF_SPACE OR HTTP_HDR_CF_SEMICOLON OR HTTP_HDR_CF_COMMA OR HTTP_HDR_CF_ASTERIX OR HTTP_HDR_CF_EQUAL OR
        HTTP_HDR_CF_DOT OR HTTP_HDR_CF_PLUS) 512,
      element ''Accept-Charset'' (HTTP_HDR_CF_ALPHA OR HTTP_HDR_CF_NUMERIC OR HTTP_HDR_CF_DASH OR HTTP_HDR_CF_SPACE OR
        HTTP_HDR_CF_COMMA OR HTTP_HDR_CF_SEMICOLON OR HTTP_HDR_CF_EQUAL OR HTTP_HDR_CF_DOT OR HTTP_HDR_CF_ASTERIX)
        128,
      element ''Accept-Encoding'' (HTTP_HDR_CF_ALPHA OR HTTP_HDR_CF_NUMERIC OR HTTP_HDR_CF_DASH OR HTTP_HDR_CF_SPACE
        OR HTTP_HDR_CF_COMMA OR HTTP_HDR_CF_SEMICOLON OR HTTP_HDR_CF_EQUAL OR HTTP_HDR_CF_ASTERIX OR HTTP_HDR_CF_DOT)
        128,
      element ''Accept-Language'' (HTTP_HDR_CF_ALPHA OR HTTP_HDR_CF_NUMERIC OR HTTP_HDR_CF_DASH OR HTTP_HDR_CF_SPACE
        OR HTTP_HDR_CF_COMMA OR HTTP_HDR_CF_SEMICOLON OR HTTP_HDR_CF_EQUAL OR HTTP_HDR_CF_DOT) 128,
      element ''Accept-Ranges'' HTTP_HDR_CF_ALPHA 64,
      element ''Cache-Control'' (HTTP_HDR_CF_ALPHA OR HTTP_HDR_CF_NUMERIC OR HTTP_HDR_CF_SPACE OR HTTP_HDR_CF_EQUAL OR
        HTTP_HDR_CF_DASH OR HTTP_HDR_CF_COMMA OR HTTP_HDR_CF_QUOTE) 128]"

definition request_hdr_proto_table_2 :: "HttpElementInfo list" where
  "request_hdr_proto_table_2 =
     [element ''Content-Base'' (HTTP_HDR_CF_ALPHA OR HTTP_HDR_CF_DASH OR HTTP_HDR_CF_SLASH) 128,
      element ''Content-Location'' HTTP_HDR_FF_URL (-1),
      element ''Content-MD5'' HTTP_HDR_FF_ANY 64,
      element ''Content-Range'' (HTTP_HDR_CF_ALPHA OR HTTP_HDR_CF_NUMERIC OR HTTP_HDR_CF_SPACE OR HTTP_HDR_CF_DASH OR
        HTTP_HDR_CF_SLASH) 64,
      element ''ETag'' (HTTP_HDR_CF_ALPHA OR HTTP_HDR_CF_NUMERIC OR HTTP_HDR_CF_DASH OR HTTP_HDR_CF_EQUAL OR
        HTTP_HDR_CF_SEMICOLON OR HTTP_HDR_CF_COLON OR HTTP_HDR_CF_SPACE OR HTTP_HDR_CF_HASHMARK OR HTTP_HDR_CF_QUOTE)
        64,
      element ''Host'' (HTTP_HDR_CF_ALPHA OR HTTP_HDR_CF_NUMERIC OR HTTP_HDR_CF_DOT OR HTTP_HDR_CF_DASH OR
        HTTP_HDR_CF_UNDERLINE OR HTTP_HDR_CF_SLASH OR HTTP_HDR_CF_COLON) 512,
      element ''If-Match'' HTTP_HDR_FF_ANY 512,
      element ''If-None-Match'' HTTP_HDR_FF_ANY 512,
      element ''If-Range'' (HTTP_HDR_CF_ALPHA OR HTTP_HDR_CF_NUMERIC OR HTTP_HDR_CF_COLON OR HTTP_HDR_CF_DOT OR
        HTTP_HDR_CF_SEMICOLON OR HTTP_HDR_CF_SPACE OR HTTP_HDR_CF_HASHMARK OR HTTP_HDR_CF_DASH) 128,
      element ''If-Unmodified-Since'' (HTTP_HDR_CF_ALPHA OR HTTP_HDR_CF_NUMERIC OR HTTP_HDR_CF_COMMA OR
        HTTP_HDR_CF_SPACE OR HTTP_HDR_CF_COLON) 128,
      element ''Max-Forwards'' HTTP_HDR_CF_NUMERIC 128,
      element ''Proxy-Authorization'' (HTTP_HDR_CF_ALPHA OR HTTP_HDR_CF_SPACE OR HTTP_HDR_CF_NUMERIC OR
        HTTP_HDR_CF_EQUAL) 256,
      element ''Range'' (HTTP_HDR_CF_ALPHA OR HTTP_HDR_CF_NUMERIC OR HTTP_HDR_CF_DASH OR HTTP_HDR_CF_EQUAL OR
        HTTP_HDR_CF_COMMA) 64,
      element ''Transfer-Encoding'' HTTP_HDR_CF_ALPHA 64,
      element ''Upgrade'' (HTTP_HDR_CF_ALPHA OR HTTP_HDR_CF_NUMERIC OR HTTP_HDR_CF_SPACE OR HTTP_HDR_CF_COMMA OR
        HTTP_HDR_CF_SLASH OR HTTP_HDR_CF_DOT) 128,
      element ''Via'' (HTTP_HDR_CF_ALPHA OR HTTP_HDR_CF_NUMERIC OR HTTP_HDR_CF_SLASH OR HTTP_HDR_CF_COLON OR
        HTTP_HDR_CF_AND OR HTTP_HDR_CF_DOT OR HTTP_HDR_CF_DASH OR HTTP_HDR_CF_UNDERLINE) 512,
      element ''Cookie'' HTTP_HDR_FF_ANY (-1),
      element ''Meter'' (HTTP_HDR_CF_ALPHA OR HTTP_HDR_CF_NUMERIC OR HTTP_HDR_CF_SPACE OR HTTP_HDR_CF_COMMA OR
        HTTP_HDR_CF_DASH OR HTTP_HDR_CF_EQUAL) 128,
      element ''Accept-Features'' HTTP_HDR_FF_ANY 512,
      element ''Negotiate'' (HTTP_HDR_CF_ALPHA OR HTTP_HDR_CF_ASTERIX OR HTTP_HDR_CF_DASH) 64,
      element ''DAV'' (HTTP_HDR_CF_ALPHA OR HTTP_HDR_CF_NUMERIC OR HTTP_HDR_CF_COMMA OR HTTP_HDR_CF_SPACE) 64]"

definition request_hdr_proto_table_3 :: "HttpElementInfo list" where
  "request_hdr_proto_table_3 =
     [element ''Depth'' (HTTP_HDR_CF_NUMERIC OR HTTP_HDR_CF_ALPHA) 64,
      element ''Destination'' (HTTP_HDR_CF_ALPHA OR HTTP_HDR_CF_NUMERIC OR HTTP_HDR_CF_SLASH OR HTTP_HDR_CF_COLON OR
        HTTP_HDR_CF_AND OR HTTP_HDR_CF_DOT OR HTTP_HDR_CF_DASH OR HTTP_HDR_CF_UNDERLINE) 512,
      element ''If'' HTTP_HDR_FF_ANY 512,
      element ''Lock-Token'' (HTTP_HDR_CF_ALPHA OR HTTP_HDR_CF_NUMERIC OR HTTP_HDR_CF_SLASH OR HTTP_HDR_CF_COLON OR
        HTTP_HDR_CF_AND OR HTTP_HDR_CF_DOT OR HTTP_HDR_CF_DASH OR HTTP_HDR_CF_UNDERLINE) 512,
      element ''Overwrite'' HTTP_HDR_CF_ALPHA 8,
      element ''Timeout'' HTTP_HDR_FF_ANY 64,
      element ''Expect'' (HTTP_HDR_CF_ALPHA OR HTTP_HDR_CF_NUMERIC OR HTTP_HDR_CF_SPACE OR HTTP_HDR_CF_EQUAL OR
        HTTP_HDR_CF_SEMICOLON OR HTTP_HDR_CF_COMMA) 128,
      element ''TE'' (HTTP_HDR_CF_ALPHA OR HTTP_HDR_CF_NUMERIC OR HTTP_HDR_CF_SPACE OR HTTP_HDR_CF_DASH OR
        HTTP_HDR_CF_COMMA OR HTTP_HDR_CF_SEMICOLON OR HTTP_HDR_CF_EQUAL OR HTTP_HDR_CF_DOT) 128,
      element ''Trailer'' (HTTP_HDR_CF_ALPHA OR HTTP_HDR_CF_DASH OR HTTP_HDR_CF_NUMERIC) 128,
      element ''Cookie2'' HTTP_HDR_FF_ANY (-1),
      element ''X-NOKIA-MMSC-Message-Id'' (HTTP_HDR_CF_ALPHA OR HTTP_HDR_CF_NUMERIC OR HTTP_HDR_CF_AT) 128,
      element ''X-NOKIA-MMSC-Status'' HTTP_HDR_CF_NUMERIC 64,
      element ''X-NOKIA-MMSC-Charging'' HTTP_HDR_CF_NUMERIC 8,
      element ''X-NOKIA-MMSC-Charged-Party'' HTTP_HDR_CF_ALPHA 64,
      element ''X-NOKIA-MMSC-To'' (HTTP_HDR_CF_NUMERIC OR HTTP_HDR_CF_ALPHA OR HTTP_HDR_CF_SLASH OR HTTP_HDR_CF_EQUAL
        OR HTTP_HDR_CF_PLUS OR HTTP_HDR_CF_AT OR HTTP_HDR_CF_DOT OR HTTP_HDR_CF_DASH OR HTTP_HDR_CF_UNDERLINE) 128,
      element ''X-NOKIA-MMSC-From'' (HTTP_HDR_CF_NUMERIC OR HTTP_HDR_CF_ALPHA OR HTTP_HDR_CF_SLASH OR
        HTTP_HDR_CF_EQUAL OR HTTP_HDR_CF_PLUS OR HTTP_HDR_CF_AT OR HTTP_HDR_CF_DOT OR HTTP_HDR_CF_DASH OR
        HTTP_HDR_CF_UNDERLINE) 128,
      element ''X-NOKIA-MMSC-Message-Type'' HTTP_HDR_CF_ALPHA 64,
      element ''X-NOKIA-MMSC-Version'' (HTTP_HDR_CF_NUMERIC OR HTTP_HDR_CF_DOT) 16,
      element ''Proxy-Connection'' (HTTP_HDR_CF_ALPHA OR HTTP_HDR_CF_DASH) 64,
      element ''Connection'' (HTTP_HDR_CF_ALPHA OR HTTP_HDR_CF_DASH OR HTTP_HDR_CF_COMMA OR HTTP_HDR_CF_SPACE) 64,
      element ''SOAPAction'' HTTP_HDR_FF_ANY (-1)]"

definition request_hdr_proto_table :: "HttpElementInfo list" where
  "request_hdr_proto_table = request_hdr_proto_table_1 @ request_hdr_proto_table_2 @ request_hdr_proto_table_3"

definition response_hdr_proto_table_1 :: "HttpElementInfo list" where
  "response_hdr_proto_table_1 =
     [element ''Allow'' (HTTP_HDR_CF_ALPHA OR HTTP_HDR_CF_COMMA OR HTTP_HDR_CF_SPACE) 64,
      element ''Content-Encoding'' (HTTP_HDR_CF_ALPHA OR HTTP_HDR_CF_DASH OR HTTP_HDR_CF_SLASH) 64,
      element ''Content-Length'' HTTP_HDR_CF_NUMERIC 64,
      element ''Content-Type'' (HTTP_HDR_CF_ALPHA OR HTTP_HDR_CF_DASH OR HTTP_HDR_CF_SLASH OR HTTP_HDR_CF_NUMERIC OR
        HTTP_HDR_CF_SPACE OR HTTP_HDR_CF_EQUAL OR HTTP_HDR_CF_SEMICOLON OR HTTP_HDR_CF_QUOTE) 64,
      element ''Date'' (HTTP_HDR_CF_ALPHA OR HTTP_HDR_CF_NUMERIC OR HTTP_HDR_CF_COMMA OR HTTP_HDR_CF_SPACE OR
        HTTP_HDR_CF_COLON) 128,
      element ''Expires'' (HTTP_HDR_CF_ALPHA OR HTTP_HDR_CF_NUMERIC OR HTTP_HDR_CF_COMMA OR HTTP_HDR_CF_SPACE OR
        HTTP_HDR_CF_COLON OR HTTP_HDR_CF_DASH) 128,
      element ''Last-Modified'' (HTTP_HDR_CF_ALPHA OR HTTP_HDR_CF_NUMERIC OR HTTP_HDR_CF_COMMA OR HTTP_HDR_CF_SPACE OR
        HTTP_HDR_CF_COLON) 128,
      element ''Location'' HTTP_HDR_FF_URL (-1),
      element ''Pragma'' (HTTP_HDR_CF_ALPHA OR HTTP_HDR_CF_DASH) 64,
      element ''Server'' (HTTP_HDR_CF_ALPHA OR HTTP_HDR_CF_NUMERIC OR HTTP_HDR_CF_SLASH OR HTTP_HDR_CF_COLON OR
        HTTP_HDR_CF_AND OR HTTP_HDR_CF_DOT OR HTTP_HDR_CF_DASH OR HTTP_HDR_CF_UNDERLINE OR HTTP_HDR_CF_BRACKET OR
        HTTP_HDR_CF_SPACE) 512,
      element ''WWW-Authenticate'' (HTTP_HDR_CF_ALPHA OR HTTP_HDR_CF_SPACE OR HTTP_HDR_CF_NUMERIC OR HTTP_HDR_CF_EQUAL
        OR HTTP_HDR_CF_DOT OR HTTP_HDR_CF_QUOTE) 256,
      element ''Age'' HTTP_HDR_CF_NUMERIC 64,
      element ''Authorization'' (HTTP_HDR_CF_ALPHA OR HTTP_HDR_CF_SPACE OR HTTP_HDR_CF_NUMERIC OR HTTP_HDR_CF_EQUAL)
        256,
      element ''Cache-Control'' (HTTP_HDR_CF_ALPHA OR HTTP_HDR_CF_NUMERIC OR HTTP_HDR_CF_SPACE OR HTTP_HDR_CF_EQUAL OR
        HTTP_HDR_CF_DASH OR HTTP_HDR_CF_COMMA OR HTTP_HDR_CF_QUOTE) 128,
      element ''Content-Base'' (HTTP_HDR_CF_ALPHA OR HTTP_HDR_CF_DASH OR HTTP_HDR_CF_SLASH) 128,
      element ''Content-Location'' HTTP_HDR_FF_URL (-1),
      element ''Content-MD5'' HTTP_HDR_FF_ANY 64,
      element ''Content-Range'' (HTTP_HDR_CF_ALPHA OR HTTP_HDR_CF_NUMERIC OR HTTP_HDR_CF_SPACE OR HTTP_HDR_CF_DASH OR
        HTTP_HDR_CF_SLASH) 64,
      element ''ETag'' (HTTP_HDR_CF_ALPHA OR HTTP_HDR_CF_NUMERIC OR HTTP_HDR_CF_DASH OR HTTP_HDR_CF_EQUAL OR
        HTTP_HDR_CF_SEMICOLON OR HTTP_HDR_CF_COLON OR HTTP_HDR_CF_SPACE OR HTTP_HDR_CF_HASHMARK OR HTTP_HDR_CF_QUOTE)
        64,
      element ''Proxy-Authenticate'' (HTTP_HDR_CF_ALPHA OR HTTP_HDR_CF_SPACE OR HTTP_HDR_CF_NUMERIC OR
        HTTP_HDR_CF_EQUAL) 256,
      element ''Public'' (HTTP_HDR_CF_ALPHA OR HTTP_HDR_CF_SPACE OR HTTP_HDR_CF_COMMA) 128]"

definition response_hdr_proto_table_2 :: "HttpElementInfo list" where
  "response_hdr_proto_table_2 =
     [element ''Range'' (HTTP_HDR_CF_ALPHA OR HTTP_HDR_CF_NUMERIC OR HTTP_HDR_CF_DASH OR HTTP_HDR_CF_EQUAL OR
        HTTP_HDR_CF_COMMA) 64,
      element ''Retry-After'' (HTTP_HDR_CF_ALPHA OR HTTP_HDR_CF_NUMERIC OR HTTP_HDR_CF_COMMA OR HTTP_HDR_CF_SPACE OR
        HTTP_HDR_CF_COLON) 128,
      element ''Transfer-Encoding'' HTTP_HDR_CF_ALPHA 64,
      element ''Upgrade'' (HTTP_HDR_CF_ALPHA OR HTTP_HDR_CF_NUMERIC OR HTTP_HDR_CF_SPACE OR HTTP_HDR_CF_COMMA OR
        HTTP_HDR_CF_SLASH OR HTTP_HDR_CF_DOT) 128,
      element ''Vary'' HTTP_HDR_FF_ANY 128,
      element ''Via'' (HTTP_HDR_CF_ALPHA OR HTTP_HDR_CF_NUMERIC OR HTTP_HDR_CF_SLASH OR HTTP_HDR_CF_COLON OR
        HTTP_HDR_CF_AND OR HTTP_HDR_CF_DOT OR HTTP_HDR_CF_DASH OR HTTP_HDR_CF_UNDERLINE OR HTTP_HDR_CF_SPACE OR
        HTTP_HDR_CF_BRACKET) 512,
      element ''Warning'' HTTP_HDR_FF_ANY 512,
      element ''Proxy-Authentication-info'' HTTP_HDR_FF_ANY 512,
      element ''Set-Cookie'' HTTP_HDR_FF_ANY (-1),
      element ''Meter'' (HTTP_HDR_CF_ALPHA OR HTTP_HDR_CF_NUMERIC OR HTTP_HDR_CF_SPACE OR HTTP_HDR_CF_COMMA OR
        HTTP_HDR_CF_DASH OR HTTP_HDR_CF_EQUAL) 128,
      element ''Alternates'' HTTP_HDR_FF_ANY 512,
      element ''TCN'' HTTP_HDR_FF_ANY 128,
      element ''Variant-Vary'' HTTP_HDR_FF_ANY 512,
      element ''DAV'' (HTTP_HDR_CF_ALPHA OR HTTP_HDR_CF_NUMERIC OR HTTP_HDR_CF_COMMA OR HTTP_HDR_CF_SPACE) 64,
      element ''Depth'' (HTTP_HDR_CF_NUMERIC OR HTTP_HDR_CF_ALPHA) 64,
      element ''Destination'' HTTP_HDR_FF_URL (-1),
      element ''If'' HTTP_HDR_FF_ANY 512,
      element ''Lock-Token'' (HTTP_HDR_CF_ALPHA OR HTTP_HDR_CF_NUMERIC OR HTTP_HDR_CF_SLASH OR HTTP_HDR_CF_COLON OR
        HTTP_HDR_CF_AND OR HTTP_HDR_CF_DOT OR HTTP_HDR_CF_DASH OR HTTP_HDR_CF_UNDERLINE) 512,
      element ''Overwrite'' HTTP_HDR_CF_ALPHA 8,
      element ''Status-URI'' HTTP_HDR_FF_URL (-1),
      element ''Accept-Ranges'' HTTP_HDR_CF_ALPHA 64,
      element ''Trailer'' (HTTP_HDR_CF_ALPHA OR HTTP_HDR_CF_DASH OR HTTP_HDR_CF_NUMERIC) 128,
      element ''Set-Cookie2'' HTTP_HDR_FF_ANY (-1)]"

definition response_hdr_proto_table_3 :: "HttpElementInfo list" where
  "response_hdr_proto_table_3 =
     [element ''X-NOKIA-MMSC-Message-Id'' (HTTP_HDR_CF_ALPHA OR HTTP_HDR_CF_NUMERIC OR HTTP_HDR_CF_AT) 128,
      element ''X-NOKIA-MMSC-Status'' HTTP_HDR_CF_NUMERIC 64,
      element ''X-NOKIA-MMSC-Charging'' HTTP_HDR_CF_NUMERIC 8,
      element ''X-NOKIA-MMSC-Charged-Party'' HTTP_HDR_CF_ALPHA 64,
      element ''X-NOKIA-MMSC-To'' (HTTP_HDR_CF_NUMERIC OR HTTP_HDR_CF_ALPHA OR HTTP_HDR_CF_SLASH OR HTTP_HDR_CF_EQUAL
        OR HTTP_HDR_CF_PLUS OR HTTP_HDR_CF_AT OR HTTP_HDR_CF_DOT OR HTTP_HDR_CF_DASH OR HTTP_HDR_CF_UNDERLINE) 128,
      element ''X-NOKIA-MMSC-From'' (HTTP_HDR_CF_NUMERIC OR HTTP_HDR_CF_ALPHA OR HTTP_HDR_CF_SLASH OR
        HTTP_HDR_CF_EQUAL OR HTTP_HDR_CF_PLUS OR HTTP_HDR_CF_AT OR HTTP_HDR_CF_DOT OR HTTP_HDR_CF_DASH OR
        HTTP_HDR_CF_UNDERLINE) 128,
      element ''X-NOKIA-MMSC-Message-Type'' HTTP_HDR_CF_ALPHA 64,
      element ''X-NOKIA-MMSC-Version'' (HTTP_HDR_CF_NUMERIC OR HTTP_HDR_CF_DOT) 16,
      element ''Content-disposition'' (HTTP_HDR_CF_ALPHA OR HTTP_HDR_CF_DASH) 64,
      element ''Proxy-Connection'' (HTTP_HDR_CF_ALPHA OR HTTP_HDR_CF_DASH) 64,
      element ''Connection'' (HTTP_HDR_CF_ALPHA OR HTTP_HDR_CF_DASH OR HTTP_HDR_CF_COMMA OR HTTP_HDR_CF_SPACE) 64,
      element ''X-Cache'' (HTTP_HDR_CF_ALPHA OR HTTP_HDR_CF_DOT OR HTTP_HDR_CF_UNDERLINE OR HTTP_HDR_CF_DASH OR
        HTTP_HDR_CF_NUMERIC OR HTTP_HDR_CF_SPACE) 128,
      element ''X-Cache-Lookup'' (HTTP_HDR_CF_ALPHA OR HTTP_HDR_CF_DOT OR HTTP_HDR_CF_UNDERLINE OR HTTP_HDR_CF_DASH OR
        HTTP_HDR_CF_NUMERIC OR HTTP_HDR_CF_SPACE OR HTTP_HDR_CF_COLON) 128,
      element ''SOAPAction'' HTTP_HDR_FF_ANY 512]"

definition response_hdr_proto_table :: "HttpElementInfo list" where
  "response_hdr_proto_table = response_hdr_proto_table_1 @ response_hdr_proto_table_2 @ response_hdr_proto_table_3"

section \<open>Lookup\<close>

definition http_proto_fill_hash :: "HttpElementInfo list \<Rightarrow> bool \<Rightarrow> HttpElementInfo ghash" where
  "http_proto_fill_hash table casesens =
     (let insert = (if casesens then gh_insert g_str_hash g_str_equal else gh_insert filter_hash filter_equal)
      in foldl (\<lambda>hash (name, e). insert name e hash) [] (map (\<lambda>e. (el_name e, e)) table))"

definition request_proto_hash :: "HttpElementInfo ghash" where
  "request_proto_hash = http_proto_fill_hash request_proto_table True"

definition response_proto_hash :: "HttpElementInfo ghash" where
  "response_proto_hash = http_proto_fill_hash response_proto_table True"

definition request_hdr_proto_hash :: "HttpElementInfo ghash" where
  "request_hdr_proto_hash = http_proto_fill_hash request_hdr_proto_table False"

definition response_hdr_proto_hash :: "HttpElementInfo ghash" where
  "response_hdr_proto_hash = http_proto_fill_hash response_hdr_proto_table False"

definition http_proto_lookup_hash :: "HttpElementInfo ghash \<Rightarrow> bytes \<Rightarrow> 32 word" where
  "http_proto_lookup_hash hash index = (case gh_lookup g_str_hash g_str_equal hash index of None \<Rightarrow> 0 | Some e \<Rightarrow> el_flags e)"

definition http_proto_request_lookup :: "bytes \<Rightarrow> 32 word" where
  "http_proto_request_lookup req = http_proto_lookup_hash request_proto_hash req"

definition http_proto_response_lookup :: "bytes \<Rightarrow> 32 word" where
  "http_proto_response_lookup resp = http_proto_lookup_hash response_proto_hash resp"

definition http_proto_request_hdr_lookup :: "bytes \<Rightarrow> HttpElementInfo option" where
  "http_proto_request_hdr_lookup req = gh_lookup filter_hash filter_equal request_hdr_proto_hash req"

definition http_proto_response_hdr_lookup :: "bytes \<Rightarrow> HttpElementInfo option" where
  "http_proto_response_hdr_lookup resp = gh_lookup filter_hash filter_equal response_hdr_proto_hash resp"

text \<open>A lookup finds the last element of its table with the name; for headers case is ignored.\<close>

definition last_element :: "(bytes \<Rightarrow> bytes \<Rightarrow> bool) \<Rightarrow> HttpElementInfo list \<Rightarrow> bytes \<Rightarrow> HttpElementInfo option" where
  "last_element equal table name = find (\<lambda>e. equal (el_name e) name) (rev table)"

lemma find_map: "find P (map f xs) = map_option f (find (P \<circ> f) xs)"
  by (induction xs) auto

lemma filled_case_sensitive: "gh_lookup g_str_hash g_str_equal (http_proto_fill_hash table True) name = last_element g_str_equal table name"
  unfolding http_proto_fill_hash_def Let_def if_True str_table.lookup_filled
  by (simp add: last_element_def rev_map find_map comp_def gh_lookup_def split: option.split)

lemma filled_headers: "gh_lookup filter_hash filter_equal (http_proto_fill_hash table False) name = last_element strcasecmp_eq table name"
  unfolding http_proto_fill_hash_def Let_def if_False filter_table.lookup_filled
  by (simp add: last_element_def rev_map find_map comp_def gh_lookup_def http_filter_hash_compare_def split: option.split)

lemma request_lookup: "http_proto_request_lookup req = (case last_element g_str_equal request_proto_table req of None \<Rightarrow> 0 | Some e \<Rightarrow> el_flags e)"
  by (simp add: http_proto_request_lookup_def http_proto_lookup_hash_def request_proto_hash_def filled_case_sensitive)

lemma response_lookup: "http_proto_response_lookup resp = (case last_element g_str_equal response_proto_table resp of None \<Rightarrow> 0 | Some e \<Rightarrow> el_flags e)"
  by (simp add: http_proto_response_lookup_def http_proto_lookup_hash_def response_proto_hash_def filled_case_sensitive)

lemma request_hdr_lookup: "http_proto_request_hdr_lookup name = last_element strcasecmp_eq request_hdr_proto_table name"
  by (simp add: http_proto_request_hdr_lookup_def request_hdr_proto_hash_def filled_headers)

lemma response_hdr_lookup: "http_proto_response_hdr_lookup name = last_element strcasecmp_eq response_hdr_proto_table name"
  by (simp add: http_proto_response_hdr_lookup_def response_hdr_proto_hash_def filled_headers)

text \<open>The flags of a request depend on the method alone, and on its case.\<close>

lemma request_flags_cases:
  "http_proto_request_lookup req =
     (if cstr req = bytes_of ''HEAD'' then HTTP_REQ_FLG_HEAD
      else if cstr req = bytes_of ''OPTIONS'' then HTTP_REQ_FLG_ASTERIX
      else if cstr req = bytes_of ''CONNECT'' then HTTP_REQ_FLG_CONNECT else 0)"
proof -
  have c: "cstr (bytes_of ''HEAD'') = bytes_of ''HEAD''" "cstr (bytes_of ''OPTIONS'') = bytes_of ''OPTIONS''"
    "cstr (bytes_of ''CONNECT'') = bytes_of ''CONNECT''"
    by (simp_all add: cstr_def bytes_of_def)
  have d: "bytes_of ''HEAD'' \<noteq> bytes_of ''OPTIONS''" "bytes_of ''HEAD'' \<noteq> bytes_of ''CONNECT''" "bytes_of ''OPTIONS'' \<noteq> bytes_of ''CONNECT''"
    by (simp_all add: bytes_of_def)
  show ?thesis
    unfolding request_lookup last_element_def request_proto_table_def element_def g_str_equal_def
    using c d by auto
qed

end
