(* ===== verification/Http_Headers.thy ===== *)
theory Http_Headers
  imports Http_Proto Http_Url Policy
begin

text \<open>
  Header sets (\<^verbatim>\<open>modules/http/httphdr.cc\<close>). A set is a list, newest header first, and a hash table that leads
  from a name to the header that was added first under it. The key of a table entry is no copy of
  the name but the name of the header itself, so an entry is modelled as the hash value it was
  inserted with and the number of its header (counted in the order of addition); renaming a header
  changes the key and not the stored hash value.
\<close>

section \<open>The data structure\<close>

record HttpHeader =
  hdr_name :: bytes
  hdr_value :: bytes
  hdr_present :: bool

record HttpHeaders =
  hdr_list :: "HttpHeader list"
  hdr_hash :: "(32 word \<times> nat) list"
  hdr_flat :: bytes

definition header_at :: "HttpHeaders \<Rightarrow> nat \<Rightarrow> HttpHeader" where
  "header_at hdrs i = rev (hdr_list hdrs) ! i"

definition upd_header :: "nat \<Rightarrow> (HttpHeader \<Rightarrow> HttpHeader) \<Rightarrow> HttpHeaders \<Rightarrow> HttpHeaders" where
  "upd_header i f hdrs = hdrs\<lparr>hdr_list := rev ((rev (hdr_list hdrs))[i := f (header_at hdrs i)])\<rparr>"

definition smuggle_headers :: "bytes list" where
  "smuggle_headers = map bytes_of [''Content-Length'', ''Transfer-Encoding'', ''Content-Type'', ''Host'', ''Connection'',
     ''Proxy-Connection'', ''Authorization'', ''Proxy-Authorization'']"

definition http_init_headers :: HttpHeaders where
  "http_init_headers = \<lparr>hdr_list = [], hdr_hash = [], hdr_flat = []\<rparr>"

definition http_clear_headers :: "HttpHeaders \<Rightarrow> HttpHeaders" where
  "http_clear_headers hdrs = hdrs\<lparr>hdr_list := [], hdr_flat := [], hdr_hash := []\<rparr>"

definition http_lookup_header :: "HttpHeaders \<Rightarrow> bytes \<Rightarrow> nat option" where
  "http_lookup_header hdrs what =
     map_option snd (find (\<lambda>(h, i). h = http_header_hash what \<and> http_header_equal (hdr_name (header_at hdrs i)) what) (hdr_hash hdrs))"

text \<open>The number of the new header, or nothing when it was dropped as a duplicate.\<close>

definition http_add_header :: "HttpHeaders \<Rightarrow> bytes \<Rightarrow> bytes \<Rightarrow> nat option \<times> HttpHeaders" where
  "http_add_header hdrs name val =
     (let h = \<lparr>hdr_name = name, hdr_value = val, hdr_present = True\<rparr>;
          i = length (hdr_list hdrs)
      in case http_lookup_header hdrs name of
           None \<Rightarrow> (Some i, hdrs\<lparr>hdr_list := h # hdr_list hdrs, hdr_hash := hdr_hash hdrs @ [(http_header_hash name, i)]\<rparr>)
         | Some _ \<Rightarrow>
             if cstr name \<in> set smuggle_headers then (None, hdrs)
             else (Some i, hdrs\<lparr>hdr_list := h # hdr_list hdrs\<rparr>))"

definition header_line :: "HttpHeader \<Rightarrow> bytes" where
  "header_line h = hdr_name h @ bytes_of '': '' @ hdr_value h"

definition http_flat_headers_into :: "HttpHeaders \<Rightarrow> bytes" where
  "http_flat_headers_into hdrs = concat (map (\<lambda>h. if hdr_present h then header_line h @ CRLF else []) (rev (hdr_list hdrs)))"

definition http_flat_headers :: "HttpHeaders \<Rightarrow> HttpHeaders" where
  "http_flat_headers hdrs = hdrs\<lparr>hdr_flat := http_flat_headers_into hdrs\<rparr>"

section \<open>Reading a line\<close>

definition header_blank :: "byte \<Rightarrow> bool" where
  "header_blank c \<longleftrightarrow> c = 32 \<or> c = 9"

definition name_separator :: "byte \<Rightarrow> bool" where
  "name_separator c \<longleftrightarrow> c \<in> set (bytes_of ''()<>@,;:'' @ [92, 34] @ bytes_of ''/[]?={} '' @ [9])"

text \<open>What a header line does to the set. \<open>last_hdr\<close> is the header that a continuation line belongs to,
  \<open>behind\<close> the byte in memory behind the line, which the scan for a colon looks at when it
  reaches the end of the line.\<close>

datatype header_step = Header_next "nat option" HttpHeaders | Header_refused | Header_overrun

definition header_name_len :: "bytes \<Rightarrow> nat" where
  "header_name_len line = length (takeWhile (\<lambda>c. \<not> name_separator c) line)"

definition header_colon :: "bytes \<Rightarrow> nat" where
  "header_colon line = header_name_len line + length (takeWhile (\<lambda>c. c = 32) (drop (header_name_len line) line))"

definition header_line_step :: "bool \<Rightarrow> bytes \<Rightarrow> byte \<Rightarrow> nat option \<Rightarrow> HttpHeaders \<Rightarrow> header_step" where
  "header_line_step strict line behind last_hdr hdrs =
     (if line \<noteq> [] \<and> header_blank (hd line) then
        (case last_hdr of
           None \<Rightarrow> Header_refused
         | Some i \<Rightarrow> Header_next last_hdr (upd_header i (\<lambda>h. h\<lparr>hdr_value := hdr_value h @ dropWhile header_blank line\<rparr>) hdrs))
      else
        let colon = header_colon line
        in if (line @ [behind]) ! colon \<noteq> COLON then (if strict then Header_refused else Header_next last_hdr hdrs)
           else if colon = length line then Header_overrun
           else
             let stripped = rev (dropWhile (\<lambda>c. c = 32) (rev line));
                 val = dropWhile (\<lambda>c. c = 32) (drop (Suc colon) stripped);
                 (new, hdrs') = http_add_header hdrs (take (header_name_len line) line) val
             in Header_next new hdrs')"

text \<open>An answer of the line stream: the status, the line and the byte behind it. A stream that has no answers
  left is at its end.\<close>

type_synonym line_answer = "giostatus \<times> bytes \<times> byte"

fun next_answer :: "line_answer list \<Rightarrow> line_answer \<times> line_answer list" where
  "next_answer [] = ((G_IO_STATUS_EOF, [], 0), [])"
| "next_answer (a # as) = (a, as)"

datatype fetch_result = Fetched | Fetch_failed | Fetch_overrun

text \<open>The loop of \<^verbatim>\<open>http_fetch_headers\<close>. \<open>r\<close> is how many more lines \<^verbatim>\<open>max_header_lines\<close> permits, \<open>null_ok\<close> tells
  that the end of the stream ends the headers.\<close>

fun fetch_loop :: "nat \<Rightarrow> bool \<Rightarrow> bool \<Rightarrow> nat option \<Rightarrow> HttpHeaders \<Rightarrow> line_answer list \<Rightarrow> fetch_result \<times> HttpHeaders \<times> line_answer list" where
  "fetch_loop r null_ok strict last_hdr hdrs answers =
     (case next_answer answers of ((res, line, behind), rest) \<Rightarrow>
        if res \<noteq> G_IO_STATUS_NORMAL then (if res = G_IO_STATUS_EOF \<and> null_ok then Fetched else Fetch_failed, hdrs, rest)
        else if line = [] then (Fetched, hdrs, rest)
        else case header_line_step strict line behind last_hdr hdrs of
               Header_refused \<Rightarrow> (Fetch_failed, hdrs, rest)
             | Header_overrun \<Rightarrow> (Fetch_overrun, hdrs, rest)
             | Header_next last_hdr' hdrs' \<Rightarrow>
                 (case r of
                    0 \<Rightarrow> (Fetch_failed, hdrs', rest)
                  | Suc r' \<Rightarrow> fetch_loop r' null_ok strict last_hdr' hdrs' rest))"

declare fetch_loop.simps [simp del]

section \<open>Cookies\<close>

datatype HttpCookieState = HTTP_COOKIE_NAME | HTTP_COOKIE_VALUE | HTTP_COOKIE_DOTCOMA

definition KEY_SIZE :: nat where "KEY_SIZE = 256"
definition VALUE_SIZE :: nat where "VALUE_SIZE = 4096"

text \<open>The loop over the value of the header with its two buffers. The buffers hold the bytes written so far;
  writing behind the end of one is \<open>Overrun\<close>.\<close>

fun cookie_loop :: "HttpCookieState \<Rightarrow> bytes \<Rightarrow> bytes \<Rightarrow> bytes ghash \<Rightarrow> bytes \<Rightarrow> bytes ghash parsed" where
  "cookie_loop st key val hash [] =
     (if key \<noteq> [] \<and> val \<noteq> [] then
        (if length val < VALUE_SIZE then Parsed (gh_insert g_str_hash g_str_equal key val hash) else Overrun)
      else Parsed hash)"
| "cookie_loop HTTP_COOKIE_NAME key val hash (c # cs) =
     (if KEY_SIZE \<le> length key then Overrun
      else if c = 61 then cookie_loop HTTP_COOKIE_VALUE key val hash cs
      else cookie_loop HTTP_COOKIE_NAME (key @ [c]) val hash cs)"
| "cookie_loop HTTP_COOKIE_VALUE key val hash (c # cs) =
     (if c = 59 then cookie_loop HTTP_COOKIE_DOTCOMA key val hash cs
      else if VALUE_SIZE \<le> length val then Overrun
      else cookie_loop HTTP_COOKIE_VALUE key (val @ [c]) hash cs)"
| "cookie_loop HTTP_COOKIE_DOTCOMA key val hash (c # cs) =
     (if c = 32 \<or> c = 13 \<or> c = 10 \<or> c = 9 then cookie_loop HTTP_COOKIE_DOTCOMA key val hash cs
      else if VALUE_SIZE \<le> length val then Overrun
      else cookie_loop HTTP_COOKIE_NAME [c] [] (gh_insert g_str_hash g_str_equal key val hash) cs)"

definition http_parse_header_cookie :: "HttpHeaders \<Rightarrow> bytes ghash parsed" where
  "http_parse_header_cookie hdrs =
     (case http_lookup_header hdrs (bytes_of ''Cookie'') of
        None \<Rightarrow> Refused ''no cookies''
      | Some i \<Rightarrow> cookie_loop HTTP_COOKIE_NAME [] [] [] (cstr (hdr_value (header_at hdrs i))))"

section \<open>Strict checking\<close>

definition hdr_char_ok :: "32 word \<Rightarrow> byte \<Rightarrow> bool" where
  "hdr_char_ok flags c \<longleftrightarrow>
     flags AND HTTP_HDR_CF_ALPHA \<noteq> 0 \<and> (97 \<le> c \<and> c \<le> 122 \<or> 65 \<le> c \<and> c \<le> 90) \<or>
     flags AND HTTP_HDR_CF_NUMERIC \<noteq> 0 \<and> 48 \<le> c \<and> c \<le> 57 \<or>
     flags AND HTTP_HDR_CF_SPACE \<noteq> 0 \<and> c = 32 \<or>
     flags AND HTTP_HDR_CF_COMMA \<noteq> 0 \<and> c = 44 \<or>
     flags AND HTTP_HDR_CF_DOT \<noteq> 0 \<and> c = 46 \<or>
     flags AND HTTP_HDR_CF_BRACKET \<noteq> 0 \<and> (c = 91 \<or> c = 93 \<or> c = 123 \<or> c = 125 \<or> c = 40 \<or> c = 41) \<or>
     flags AND HTTP_HDR_CF_EQUAL \<noteq> 0 \<and> c = 61 \<or>
     flags AND HTTP_HDR_CF_DASH \<noteq> 0 \<and> c = 45 \<or>
     flags AND HTTP_HDR_CF_SLASH \<noteq> 0 \<and> c = 47 \<or>
     flags AND HTTP_HDR_CF_COLON \<noteq> 0 \<and> c = 58 \<or>
     flags AND HTTP_HDR_CF_SEMICOLON \<noteq> 0 \<and> c = 59 \<or>
     flags AND HTTP_HDR_CF_AT \<noteq> 0 \<and> c = 64 \<or>
     flags AND HTTP_HDR_CF_UNDERLINE \<noteq> 0 \<and> c = 95 \<or>
     flags AND HTTP_HDR_CF_AND \<noteq> 0 \<and> c = 38 \<or>
     flags AND HTTP_HDR_CF_BACKSLASH \<noteq> 0 \<and> c = 92 \<or>
     flags AND HTTP_HDR_CF_ASTERIX \<noteq> 0 \<and> c = 42 \<or>
     flags AND HTTP_HDR_CF_DOLLAR \<noteq> 0 \<and> c = 36 \<or>
     flags AND HTTP_HDR_CF_HASHMARK \<noteq> 0 \<and> c = 35 \<or>
     flags AND HTTP_HDR_CF_PLUS \<noteq> 0 \<and> c = 43 \<or>
     flags AND HTTP_HDR_CF_QUOTE \<noteq> 0 \<and> (c = 34 \<or> c = 39) \<or>
     flags AND HTTP_HDR_CF_QUESTIONMARK \<noteq> 0 \<and> c = 63 \<or>
     flags AND HTTP_HDR_CF_PERCENT \<noteq> 0 \<and> c = 37 \<or>
     flags AND HTTP_HDR_CF_TILDE \<noteq> 0 \<and> c = 126 \<or>
     flags AND HTTP_HDR_CF_EXCLAM \<noteq> 0 \<and> c = 33"

definition http_check_header_charset :: "bool \<Rightarrow> bool \<Rightarrow> bytes \<Rightarrow> 32 word \<Rightarrow> bool" where
  "http_check_header_charset permit_unicode_url permit_invalid_hex_escape header flags \<longleftrightarrow>
     (if flags AND HTTP_HDR_FF_ANY \<noteq> 0 then True
      else if flags AND HTTP_HDR_FF_URL \<noteq> 0 then
        (case http_parse_url http_init_url permit_unicode_url permit_invalid_hex_escape True header of
           Parsed _ \<Rightarrow> True
         | _ \<Rightarrow> False)
      else list_all (hdr_char_ok flags) (cstr header))"

section \<open>The first header of a name\<close>

text \<open>What the table promises: it finds the first header that was added under a name, whatever the case.\<close>

definition first_named :: "HttpHeaders \<Rightarrow> bytes \<Rightarrow> nat option" where
  "first_named hdrs what =
     find (\<lambda>i. http_header_equal (hdr_name (header_at hdrs i)) what) [0..<length (hdr_list hdrs)]"

definition hdrs_ok :: "HttpHeaders \<Rightarrow> bool" where
  "hdrs_ok hdrs \<longleftrightarrow> (\<forall>(h, i)\<in>set (hdr_hash hdrs). i < length (hdr_list hdrs)) \<and>
     (\<forall>what. http_lookup_header hdrs what = first_named hdrs what)"

lemma header_at_Cons [simp]:
  "i < length (hdr_list hdrs) \<Longrightarrow> header_at (hdrs\<lparr>hdr_list := h # hdr_list hdrs\<rparr>) i = header_at hdrs i"
  "header_at (hdrs\<lparr>hdr_list := h # hdr_list hdrs\<rparr>) (length (hdr_list hdrs)) = h"
  by (simp_all add: header_at_def nth_append)

lemma header_at_more [simp]: "header_at (hdrs\<lparr>hdr_hash := t\<rparr>) i = header_at hdrs i"
  "header_at (hdrs\<lparr>hdr_flat := f\<rparr>) i = header_at hdrs i"
  by (simp_all add: header_at_def)

lemma find_cong_set: "(\<And>x. x \<in> set xs \<Longrightarrow> P x = Q x) \<Longrightarrow> find P xs = find Q xs"
  by (induction xs) auto

lemma find_append: "find P (xs @ ys) = (case find P xs of None \<Rightarrow> find P ys | Some x \<Rightarrow> Some x)"
  by (induction xs) auto

lemma hdrs_ok_init: "hdrs_ok http_init_headers" "hdrs_ok (http_clear_headers hdrs)"
  by (simp_all add: hdrs_ok_def http_init_headers_def http_clear_headers_def http_lookup_header_def first_named_def)

lemma first_named_Cons:
  "first_named (hdrs\<lparr>hdr_list := h # hdr_list hdrs, hdr_hash := t\<rparr>) what =
   (case first_named hdrs what of Some i \<Rightarrow> Some i
    | None \<Rightarrow> if http_header_equal (hdr_name h) what then Some (length (hdr_list hdrs)) else None)"
proof -
  let ?P = "\<lambda>hs i. http_header_equal (hdr_name (header_at hs i)) what"
  have "find (?P (hdrs\<lparr>hdr_list := h # hdr_list hdrs\<rparr>)) [0..<length (hdr_list hdrs)] = find (?P hdrs) [0..<length (hdr_list hdrs)]"
    by (rule find_cong_set) simp
  then show ?thesis by (simp add: first_named_def find_append split: option.split)
qed

lemma http_add_header_ok:
  assumes "hdrs_ok hdrs"
  shows "hdrs_ok (snd (http_add_header hdrs name val))"
proof -
  let ?h = "\<lparr>hdr_name = name, hdr_value = val, hdr_present = True\<rparr>" and ?n = "length (hdr_list hdrs)"
  have less: "i < ?n" if "(h, i) \<in> set (hdr_hash hdrs)" for h i
    using assms that by (auto simp: hdrs_ok_def)
  have old: "find (\<lambda>(h, i). h = http_header_hash what \<and> http_header_equal (hdr_name (header_at (hdrs\<lparr>hdr_list := ?h # hdr_list hdrs\<rparr>) i)) what) (hdr_hash hdrs)
      = find (\<lambda>(h, i). h = http_header_hash what \<and> http_header_equal (hdr_name (header_at hdrs i)) what) (hdr_hash hdrs)" for what
    by (rule find_cong_set) (auto dest: less)
  have look: "http_lookup_header hdrs what = first_named hdrs what" for what
    using assms by (simp add: hdrs_ok_def)
  show ?thesis
  proof (cases "http_lookup_header hdrs name")
    case None
    have "http_lookup_header (hdrs\<lparr>hdr_list := ?h # hdr_list hdrs, hdr_hash := hdr_hash hdrs @ [(http_header_hash name, ?n)]\<rparr>) what =
        (case http_lookup_header hdrs what of Some i \<Rightarrow> Some i | None \<Rightarrow> if http_header_equal name what then Some ?n else None)" for what
      by (auto simp: http_lookup_header_def find_append old header_table.hash_cong split: option.split)
    then show ?thesis
      using less None by (auto simp: http_add_header_def Let_def hdrs_ok_def first_named_Cons look [symmetric] less_SucI split: option.split)
  next
    case (Some j)
    then have first: "first_named hdrs name = Some j" by (simp add: look)
    have "\<not> http_header_equal name what" if "first_named hdrs what = None" for what
      using first that header_table.equal_trans by (auto simp: first_named_def find_None_iff find_Some_iff)
    then have "http_lookup_header (hdrs\<lparr>hdr_list := ?h # hdr_list hdrs\<rparr>) what = first_named (hdrs\<lparr>hdr_list := ?h # hdr_list hdrs\<rparr>) what" for what
      using first_named_Cons [of "hdr_hash hdrs" ?h hdrs what] look [of what]
      by (auto simp: http_lookup_header_def old split: option.splits)
    then show ?thesis
      using less Some assms by (auto simp: http_add_header_def Let_def hdrs_ok_def less_Suc_eq)
  qed
qed


lemma add_header_ok: "http_add_header hdrs name val = (l, hdrs') \<Longrightarrow> hdrs_ok hdrs \<Longrightarrow> hdrs_ok hdrs'"
  using http_add_header_ok [of hdrs name val] by simp

text \<open>Changing the value of a header, or whether it is sent, keeps what is found.\<close>

lemma length_upd_header [simp]: "length (hdr_list (upd_header i f hdrs)) = length (hdr_list hdrs)"
  "hdr_hash (upd_header i f hdrs) = hdr_hash hdrs"
  by (simp_all add: upd_header_def)

lemma header_at_upd: "i < length (hdr_list hdrs) \<Longrightarrow> header_at (upd_header i f hdrs) j = (if j = i then f (header_at hdrs i) else header_at hdrs j)"
  by (simp add: upd_header_def header_at_def)

lemma upd_header_ok:
  assumes "hdrs_ok hdrs" and "\<And>h. hdr_name (f h) = hdr_name h"
  shows "hdrs_ok (upd_header i f hdrs)"
proof -
  have name: "hdr_name (header_at (upd_header i f hdrs) j) = hdr_name (header_at hdrs j)" if "j < length (hdr_list hdrs)" for j
    using that assms(2) by (cases "i < length (hdr_list hdrs)") (auto simp: header_at_upd, simp add: upd_header_def header_at_def)
  have "first_named (upd_header i f hdrs) what = first_named hdrs what" for what
    unfolding first_named_def by (simp, rule find_cong_set) (simp add: name)
  moreover have "http_lookup_header (upd_header i f hdrs) what = http_lookup_header hdrs what" for what
    using assms(1) unfolding http_lookup_header_def
    by (simp, intro arg_cong [where f = "map_option snd"], intro find_cong_set) (auto simp: name hdrs_ok_def)
  ultimately show ?thesis using assms(1) by (simp add: hdrs_ok_def)
qed

lemma header_line_step_ok:
  "hdrs_ok hdrs \<Longrightarrow> header_line_step strict line behind last_hdr hdrs = Header_next l hdrs' \<Longrightarrow> hdrs_ok hdrs'"
  using upd_header_ok [of hdrs]
  by (auto simp: header_line_step_def Let_def split: if_splits option.splits prod.splits dest: add_header_ok)

lemma fetch_loop_ok: "hdrs_ok hdrs \<Longrightarrow> hdrs_ok (fst (snd (fetch_loop r null_ok strict last_hdr hdrs answers)))"
proof (induction r arbitrary: last_hdr hdrs answers)
  case 0
  then show ?case
    by (subst fetch_loop.simps) (auto split: prod.split header_step.split dest: header_line_step_ok)
next
  case (Suc r)
  then show ?case
    by (subst fetch_loop.simps) (auto split: prod.split header_step.split dest: header_line_step_ok)
qed

end
