(* ===== verification/Http_Header_Props.thy ===== *)
theory Http_Header_Props
  imports Http_Headers
begin

text \<open>
  What header sets guarantee: headers survive being sent and read again, the headers that matter for
  access control occur once (as long as they are spelled as in the table), reading is bounded, the
  exact conditions under which the cookie buffers overrun, and what strict checking lets pass.
\<close>

section \<open>Sending and reading again\<close>

definition present_headers :: "HttpHeaders \<Rightarrow> HttpHeader list" where
  "present_headers hdrs = filter hdr_present (rev (hdr_list hdrs))"

definition header_plain :: "HttpHeader \<Rightarrow> bool" where
  "header_plain h \<longleftrightarrow> list_all (\<lambda>c. \<not> name_separator c) (hdr_name h) \<and>
     (hdr_value h \<noteq> [] \<longrightarrow> hd (hdr_value h) \<noteq> 32 \<and> last (hdr_value h) \<noteq> 32)"

definition no_smuggled :: "HttpHeader list \<Rightarrow> bool" where
  "no_smuggled hs \<longleftrightarrow> (\<forall>i j. i < j \<longrightarrow> j < length hs \<longrightarrow> http_header_equal (hdr_name (hs ! i)) (hdr_name (hs ! j)) \<longrightarrow>
     cstr (hdr_name (hs ! j)) \<notin> set smuggle_headers)"

lemma flat_present: "http_flat_headers_into hdrs = concat (map (\<lambda>h. header_line h @ CRLF) (present_headers hdrs))"
proof -
  have "concat (map (\<lambda>h. if hdr_present h then header_line h @ CRLF else []) hs) =
      concat (map (\<lambda>h. header_line h @ CRLF) (filter hdr_present hs))" for hs
    by (induction hs) auto
  then show ?thesis by (simp add: http_flat_headers_into_def present_headers_def)
qed

lemma header_line_bytes: "header_line h = hdr_name h @ COLON # 32 # hdr_value h"
  by (simp add: header_line_def bytes_of_def COLON_def)

lemma separator_facts: "name_separator COLON" "header_blank c \<Longrightarrow> name_separator c" "\<not> header_blank COLON" "COLON \<noteq> 32"
  by (auto simp: name_separator_def header_blank_def bytes_of_def COLON_def)

lemma header_line_parts:
  assumes "header_plain h"
  shows "header_name_len (header_line h) = length (hdr_name h)" "header_colon (header_line h) = length (hdr_name h)"
    "header_line h \<noteq> []" "\<not> header_blank (hd (header_line h))"
    "dropWhile (\<lambda>c. c = 32) (drop (Suc (length (hdr_name h))) (rev (dropWhile (\<lambda>c. c = 32) (rev (header_line h))))) = hdr_value h"
proof -
  have all: "\<forall>c\<in>set (hdr_name h). \<not> name_separator c" using assms by (simp add: header_plain_def list_all_iff)
  then have tw: "takeWhile (\<lambda>c. \<not> name_separator c) (header_line h) = hdr_name h"
    by (simp add: header_line_bytes takeWhile_append separator_facts)
  then show len: "header_name_len (header_line h) = length (hdr_name h)" by (simp add: header_name_len_def)
  then show "header_colon (header_line h) = length (hdr_name h)"
    by (simp add: header_colon_def header_line_bytes separator_facts)
  show "header_line h \<noteq> []" by (simp add: header_line_bytes)
  show "\<not> header_blank (hd (header_line h))"
    using all separator_facts by (cases "hdr_name h") (auto simp: header_line_bytes)
  show "dropWhile (\<lambda>c. c = 32) (drop (Suc (length (hdr_name h))) (rev (dropWhile (\<lambda>c. c = 32) (rev (header_line h))))) = hdr_value h"
  proof (cases "hdr_value h" rule: rev_cases)
    case Nil
    then show ?thesis by (simp add: header_line_bytes separator_facts)
  next
    case (snoc vs v)
    then have "v \<noteq> 32" and hd: "hd (hdr_value h) \<noteq> 32" using assms by (auto simp: header_plain_def)
    then have "rev (dropWhile (\<lambda>c. c = 32) (rev (header_line h))) = header_line h"
      by (simp add: header_line_bytes snoc)
    then show ?thesis using hd by (cases "hdr_value h") (auto simp: header_line_bytes)
  qed
qed

lemma header_line_step_plain:
  assumes "header_plain h"
  shows "header_line_step strict (header_line h) b last_hdr hdrs =
    (let (new, hdrs') = http_add_header hdrs (hdr_name h) (hdr_value h) in Header_next new hdrs')"
proof -
  have "(header_line h @ [b]) ! length (hdr_name h) = COLON" "length (hdr_name h) \<noteq> length (header_line h)"
    "take (length (hdr_name h)) (header_line h) = hdr_name h"
    by (simp_all add: header_line_bytes nth_append)
  with header_line_parts [OF assms] show ?thesis by (simp add: header_line_step_def Let_def)
qed

lemma add_header_kept:
  assumes "hdrs_ok hdrs" and "hdr_present h"
    and "\<forall>i<length (hdr_list hdrs). http_header_equal (hdr_name (header_at hdrs i)) (hdr_name h) \<longrightarrow>
      cstr (hdr_name h) \<notin> set smuggle_headers"
  shows "\<exists>t. http_add_header hdrs (hdr_name h) (hdr_value h) =
    (Some (length (hdr_list hdrs)), hdrs\<lparr>hdr_list := h # hdr_list hdrs, hdr_hash := t\<rparr>)"
proof -
  have h: "\<lparr>hdr_name = hdr_name h, hdr_value = hdr_value h, hdr_present = True\<rparr> = h" using assms(2) by simp
  have "cstr (hdr_name h) \<notin> set smuggle_headers" if "http_lookup_header hdrs (hdr_name h) = Some i" for i
    using assms(1,3) that by (auto simp: hdrs_ok_def first_named_def find_Some_iff)
  moreover have "\<exists>t. hdrs\<lparr>hdr_list := h # hdr_list hdrs\<rparr> = hdrs\<lparr>hdr_list := h # hdr_list hdrs, hdr_hash := t\<rparr>"
    by (rule exI [of _ "hdr_hash hdrs"]) simp
  ultimately show ?thesis
    by (auto simp: http_add_header_def Let_def h split: option.split)
qed

lemma fetch_plain:
  assumes "hdrs_ok hdrs" and "\<forall>h\<in>set hs. header_plain h \<and> hdr_present h"
    and "no_smuggled (rev (hdr_list hdrs) @ hs)" and "length hs \<le> r"
  shows "\<exists>hdrs'. fetch_loop r null_ok strict last_hdr hdrs (map (\<lambda>h. (G_IO_STATUS_NORMAL, header_line h, b)) hs @ (G_IO_STATUS_NORMAL, [], b) # rest) =
    (Fetched, hdrs', rest) \<and> rev (hdr_list hdrs') = rev (hdr_list hdrs) @ hs"
  using assms
proof (induction hs arbitrary: r last_hdr hdrs)
  case Nil
  then show ?case by (subst fetch_loop.simps) simp
next
  case (Cons h hs)
  then have h: "header_plain h" "hdr_present h" and r: "0 < r" by auto
  have "\<forall>i<length (hdr_list hdrs). http_header_equal (hdr_name (header_at hdrs i)) (hdr_name h) \<longrightarrow>
      cstr (hdr_name h) \<notin> set smuggle_headers"
    using Cons.prems(3) [unfolded no_smuggled_def, rule_format, of _ "length (hdr_list hdrs)"]
    by (simp add: nth_append header_at_def)
  from add_header_kept [OF Cons.prems(1) h(2) this]
  obtain t where t: "http_add_header hdrs (hdr_name h) (hdr_value h) =
      (Some (length (hdr_list hdrs)), hdrs\<lparr>hdr_list := h # hdr_list hdrs, hdr_hash := t\<rparr>)" by blast
  let ?hdrs = "hdrs\<lparr>hdr_list := h # hdr_list hdrs, hdr_hash := t\<rparr>"
  have "hdrs_ok ?hdrs" using add_header_ok [OF t Cons.prems(1)] .
  then have "\<exists>hdrs'. fetch_loop (r - 1) null_ok strict (Some (length (hdr_list hdrs))) ?hdrs
      (map (\<lambda>h. (G_IO_STATUS_NORMAL, header_line h, b)) hs @ (G_IO_STATUS_NORMAL, [], b) # rest) = (Fetched, hdrs', rest) \<and>
      rev (hdr_list hdrs') = rev (hdr_list ?hdrs) @ hs"
    using Cons.prems by (intro Cons.IH) auto
  then show ?case
    using header_line_step_plain [OF h(1), of strict b last_hdr hdrs] t r header_line_parts(3) [OF h(1)]
    by (subst fetch_loop.simps) (cases r; simp)
qed

text \<open>CX: Headers survive the wire. The headers of a set that are to be sent, written one per line and read
  again by the loop that fetches headers, are the same headers in the same order with the same
  names and values, and flattening them again gives the same text; provided that no name holds a
  separator, no value begins or ends with a space, no header of the smuggling table is doubled and
  the line limit is not exceeded.\<close>

theorem http_headers_roundtrip:
  assumes "\<forall>h\<in>set (present_headers hdrs). header_plain h" and "no_smuggled (present_headers hdrs)"
    and "length (present_headers hdrs) \<le> r"
  shows "\<exists>hdrs'. fetch_loop r null_ok strict None http_init_headers
      (map (\<lambda>h. (G_IO_STATUS_NORMAL, header_line h, b)) (present_headers hdrs) @ (G_IO_STATUS_NORMAL, [], b) # rest) = (Fetched, hdrs', rest) \<and>
    present_headers hdrs' = present_headers hdrs \<and> http_flat_headers_into hdrs' = http_flat_headers_into hdrs"
proof -
  let ?hs = "present_headers hdrs"
  have all: "\<forall>h\<in>set ?hs. header_plain h \<and> hdr_present h" using assms(1) by (simp add: present_headers_def)
  obtain hdrs' where f: "fetch_loop r null_ok strict None http_init_headers
      (map (\<lambda>h. (G_IO_STATUS_NORMAL, header_line h, b)) ?hs @ (G_IO_STATUS_NORMAL, [], b) # rest) = (Fetched, hdrs', rest)"
      "rev (hdr_list hdrs') = ?hs"
    using fetch_plain [OF hdrs_ok_init(1) all _ assms(3), of null_ok strict None b rest] assms(2) by (auto simp: http_init_headers_def)
  then have p: "present_headers hdrs' = ?hs" unfolding present_headers_def [of hdrs'] f(2) by (simp add: present_headers_def)
  then have "http_flat_headers_into hdrs' = http_flat_headers_into hdrs" by (simp add: flat_present)
  with f p show ?thesis by blast
qed

definition sample_headers :: HttpHeaders where
  "sample_headers = snd (http_add_header (snd (http_add_header http_init_headers (bytes_of ''Host'') (bytes_of ''a.org'')))
     (bytes_of ''X-Note'') [])"

theorem http_headers_roundtrip_witness:
  "\<exists>hdrs'. fetch_loop 5 False True None http_init_headers
      [(G_IO_STATUS_NORMAL, bytes_of ''Host: a.org'', 13), (G_IO_STATUS_NORMAL, bytes_of ''X-Note: '', 13), (G_IO_STATUS_NORMAL, [], 13)] =
      (Fetched, hdrs', []) \<and> http_flat_headers_into hdrs' = http_flat_headers_into sample_headers"
proof -
  have p: "present_headers sample_headers = [\<lparr>hdr_name = bytes_of ''Host'', hdr_value = bytes_of ''a.org'', hdr_present = True\<rparr>,
      \<lparr>hdr_name = bytes_of ''X-Note'', hdr_value = [], hdr_present = True\<rparr>]"
    by code_simp
  have "\<forall>h\<in>set (present_headers sample_headers). header_plain h" unfolding p by code_simp
  moreover have "no_smuggled (present_headers sample_headers)"
    unfolding p no_smuggled_def by (auto simp: less_Suc_eq smuggle_headers_def cstr_def bytes_of_def)
  moreover have "length (present_headers sample_headers) \<le> 5" unfolding p by simp
  ultimately show ?thesis
    using http_headers_roundtrip [of sample_headers 5 False True 13 "[]"] unfolding p
    by (simp add: header_line_def bytes_of_def) blast
qed

section \<open>Bounds\<close>

lemma header_colon_le: "header_colon line \<le> length line"
  using length_takeWhile_le [of "\<lambda>c. c = 32" "drop (header_name_len line) line"]
    length_takeWhile_le [of "\<lambda>c. \<not> name_separator c" line]
  unfolding header_colon_def header_name_len_def by simp

lemma step_overrun: "header_line_step strict line behind last_hdr hdrs = Header_overrun \<Longrightarrow> behind = COLON"
  by (auto simp: header_line_step_def Let_def split: if_splits option.splits prod.splits)

lemma add_header_length: "http_add_header hdrs name val = (l, hdrs') \<Longrightarrow> length (hdr_list hdrs') \<le> Suc (length (hdr_list hdrs))"
  by (auto simp: http_add_header_def Let_def split: option.splits if_splits)

lemma step_length: "header_line_step strict line behind last_hdr hdrs = Header_next l hdrs' \<Longrightarrow> length (hdr_list hdrs') \<le> Suc (length (hdr_list hdrs))"
  by (auto simp: header_line_step_def Let_def split: if_splits option.splits prod.splits dest: add_header_length)

lemma next_answer_set: "next_answer answers = (a, rest) \<Longrightarrow> set rest \<subseteq> set answers \<and> (a \<in> set answers \<or> a = (G_IO_STATUS_EOF, [], 0))"
  by (cases answers) auto

text \<open>CX: Fetching headers is bounded: however many lines a peer sends, at most one more header than
  \<^verbatim>\<open>max_header_lines\<close> is stored; and no line is read beyond its end, as long as the byte that follows a
  line in the buffer (part of its line end) is no colon.\<close>

theorem http_fetch_bounded:
  assumes "\<forall>(res, line, behind)\<in>set answers. behind \<noteq> COLON"
  shows "fst (fetch_loop r null_ok strict last_hdr hdrs answers) \<noteq> Fetch_overrun \<and>
    length (hdr_list (fst (snd (fetch_loop r null_ok strict last_hdr hdrs answers)))) \<le> length (hdr_list hdrs) + Suc r"
  using assms
proof (induction r arbitrary: last_hdr hdrs answers)
  case 0
  then show ?case
    using next_answer_set [of answers]
    by (subst (1 2) fetch_loop.simps)
      (auto split: prod.split header_step.split dest!: step_overrun step_length)
next
  case (Suc r)
  have rest: "\<forall>(res, line, behind)\<in>set rest. behind \<noteq> COLON" "behind \<noteq> COLON \<or> res \<noteq> G_IO_STATUS_NORMAL"
    if "next_answer answers = ((res, line, behind), rest)" for res line behind rest
    using next_answer_set [OF that] Suc.prems by auto
  obtain res line behind rest where fields: "next_answer answers = ((res, line, behind), rest)"
    by (metis surj_pair)
  show ?case
  proof (cases "header_line_step strict line behind last_hdr hdrs")
    case (Header_next l hdrs')
    then show ?thesis
      using Suc.IH [OF rest(1) [OF fields], of l hdrs'] step_length [OF Header_next]
      by (subst (1 2) fetch_loop.simps) (simp add: fields)
  qed (use rest(2) [OF fields] step_overrun in \<open>auto simp: fields fetch_loop.simps\<close>)
qed

theorem http_fetch_bounded_witness:
  "fst (fetch_loop 0 False False None http_init_headers [(G_IO_STATUS_NORMAL, bytes_of ''A: b'', 13), (G_IO_STATUS_NORMAL, bytes_of ''C: d'', 13)]) = Fetch_failed \<and>
   length (hdr_list (fst (snd (fetch_loop 0 False False None http_init_headers
     [(G_IO_STATUS_NORMAL, bytes_of ''A: b'', 13), (G_IO_STATUS_NORMAL, bytes_of ''C: d'', 13)])))) \<le> 1"
proof -
  have "fst (fetch_loop 0 False False None http_init_headers [(G_IO_STATUS_NORMAL, bytes_of ''A: b'', 13), (G_IO_STATUS_NORMAL, bytes_of ''C: d'', 13)]) = Fetch_failed"
    by code_simp
  then show ?thesis
    using http_fetch_bounded [of "[(G_IO_STATUS_NORMAL, bytes_of ''A: b'', 13), (G_IO_STATUS_NORMAL, bytes_of ''C: d'', 13)]" 0 False False None http_init_headers]
    by (simp add: http_init_headers_def COLON_def)
qed

section \<open>Duplicates\<close>

lemma no_smuggled_names:
  "map hdr_name hs = map hdr_name hs' \<Longrightarrow> no_smuggled hs = no_smuggled hs'"
proof -
  assume eq: "map hdr_name hs = map hdr_name hs'"
  then have len: "length hs = length hs'" by (rule map_eq_imp_length_eq)
  have "hdr_name (hs ! i) = hdr_name (hs' ! i)" if "i < length hs" for i
    using that eq len nth_map [of i hs hdr_name] nth_map [of i hs' hdr_name] by simp
  then have "hdr_name (hs ! i) = hdr_name (hs' ! i) \<and> hdr_name (hs ! j) = hdr_name (hs' ! j)" if "i < j" "j < length hs" for i j
    using that by simp
  then show ?thesis unfolding no_smuggled_def using len by auto
qed

lemma add_header_no_smuggled:
  assumes "http_add_header hdrs name val = (l, hdrs')" and "hdrs_ok hdrs" and "no_smuggled (rev (hdr_list hdrs))"
  shows "no_smuggled (rev (hdr_list hdrs'))"
proof (cases "l = None")
  case True
  then show ?thesis using assms(1,3) by (auto simp: http_add_header_def Let_def split: option.splits if_splits)
next
  case False
  let ?h = "\<lparr>hdr_name = name, hdr_value = val, hdr_present = True\<rparr>" and ?n = "length (hdr_list hdrs)"
  have list: "hdr_list hdrs' = ?h # hdr_list hdrs"
    using assms(1) False by (auto simp: http_add_header_def Let_def split: option.splits if_splits)
  have new: "cstr name \<notin> set smuggle_headers" if "i < ?n" "http_header_equal (hdr_name (rev (hdr_list hdrs) ! i)) name" for i
  proof
    assume "cstr name \<in> set smuggle_headers"
    then have "first_named hdrs name = None"
      using assms(1,2) False by (auto simp: http_add_header_def Let_def hdrs_ok_def split: option.splits if_splits)
    then show False using that by (auto simp: first_named_def find_None_iff header_at_def)
  qed
  show ?thesis
    unfolding no_smuggled_def list
  proof (intro allI impI)
    fix i j
    assume "i < j" "j < length (rev (?h # hdr_list hdrs))"
      and eq: "http_header_equal (hdr_name (rev (?h # hdr_list hdrs) ! i)) (hdr_name (rev (?h # hdr_list hdrs) ! j))"
    then consider "j < ?n" | "j = ?n" "i < ?n" by fastforce
    then show "cstr (hdr_name (rev (?h # hdr_list hdrs) ! j)) \<notin> set smuggle_headers"
    proof cases
      case 1
      with \<open>i < j\<close> eq assms(3) [unfolded no_smuggled_def, rule_format, of i j] show ?thesis by (simp add: nth_append)
    next
      case 2
      with eq new [of i] show ?thesis by (simp add: nth_append)
    qed
  qed
qed

lemma step_no_smuggled:
  assumes "header_line_step strict line behind last_hdr hdrs = Header_next l hdrs'" and "hdrs_ok hdrs" and "no_smuggled (rev (hdr_list hdrs))"
  shows "no_smuggled (rev (hdr_list hdrs'))"
proof -
  have upd: "no_smuggled (rev (hdr_list (upd_header i (\<lambda>h. h\<lparr>hdr_value := f h\<rparr>) hdrs)))" for i f
  proof -
    have "map hdr_name (rev (hdr_list (upd_header i (\<lambda>h. h\<lparr>hdr_value := f h\<rparr>) hdrs))) = map hdr_name (rev (hdr_list hdrs))"
      by (cases "i < length (hdr_list hdrs)")
        (auto simp: upd_header_def header_at_def map_update intro!: nth_equalityI simp: nth_list_update)
    then show ?thesis using assms(3) no_smuggled_names by blast
  qed
  show ?thesis
    using assms upd add_header_no_smuggled
    by (auto simp: header_line_step_def Let_def split: if_splits option.splits prod.splits)
qed

lemma fetch_no_smuggled:
  "hdrs_ok hdrs \<Longrightarrow> no_smuggled (rev (hdr_list hdrs)) \<Longrightarrow> no_smuggled (rev (hdr_list (fst (snd (fetch_loop r null_ok strict last_hdr hdrs answers)))))"
proof (induction r arbitrary: last_hdr hdrs answers)
  case 0
  then show ?case by (subst fetch_loop.simps) (auto split: prod.split header_step.split dest: step_no_smuggled)
next
  case (Suc r)
  then show ?case
    by (subst fetch_loop.simps)
      (auto split: prod.split header_step.split intro!: Suc.IH intro: step_no_smuggled header_line_step_ok)
qed

text \<open>CX: What a fetched set of headers promises to the rest of the proxy, whatever the peer sent: looking up a
  name gives the first header sent under it, case ignored; and a header that is spelled like one
  of the smuggling table (\<^verbatim>\<open>Content-Length\<close>, \<^verbatim>\<open>Transfer-Encoding\<close>, \<^verbatim>\<open>Host\<close> and so on) is never a repetition
  of an earlier header, so what the proxy decides on is what is forwarded under that spelling.\<close>

theorem http_fetched_headers:
  "let hdrs = fst (snd (fetch_loop r null_ok strict None http_init_headers answers))
   in (\<forall>what. http_lookup_header hdrs what = first_named hdrs what) \<and> no_smuggled (rev (hdr_list hdrs))"
  using fetch_loop_ok [OF hdrs_ok_init(1), of r null_ok strict None answers]
    fetch_no_smuggled [OF hdrs_ok_init(1), of r null_ok strict None answers]
  by (simp add: hdrs_ok_def Let_def no_smuggled_def http_init_headers_def)

text \<open>CX: The test for duplicates compares spellings, while looking up ignores case. A header whose name is
  not literally one of the table is kept and forwarded even when it repeats one of them in other
  letters, as \<^verbatim>\<open>content-length\<close> does after \<^verbatim>\<open>Content-Length\<close>: the proxy uses the first, a server may use the second.\<close>

theorem http_smuggle_case:
  assumes "hdrs_ok hdrs" and "header_plain h" and "hdr_present h" and "cstr (hdr_name h) \<notin> set smuggle_headers"
    and "http_lookup_header hdrs (hdr_name h) = Some i"
  shows "\<exists>hdrs'. header_line_step strict (header_line h) b last_hdr hdrs = Header_next (Some (length (hdr_list hdrs))) hdrs' \<and>
    present_headers hdrs' = present_headers hdrs @ [h] \<and>
    http_lookup_header hdrs' (hdr_name h) = Some i"
proof -
  have h: "\<lparr>hdr_name = hdr_name h, hdr_value = hdr_value h, hdr_present = True\<rparr> = h" using assms(3) by simp
  have add: "http_add_header hdrs (hdr_name h) (hdr_value h) = (Some (length (hdr_list hdrs)), hdrs\<lparr>hdr_list := h # hdr_list hdrs\<rparr>)"
    using assms(4,5) by (simp add: http_add_header_def Let_def h)
  moreover have "http_lookup_header (hdrs\<lparr>hdr_list := h # hdr_list hdrs\<rparr>) (hdr_name h) = Some i"
    using add_header_ok [OF add assms(1)] first_named_Cons [of "hdr_hash hdrs" h hdrs "hdr_name h"] assms(1,5)
    by (simp add: hdrs_ok_def)
  ultimately show ?thesis
    using header_line_step_plain [OF assms(2)] assms(3) by (simp add: present_headers_def)
qed

theorem http_smuggle_case_witness:
  "\<exists>hdrs hdrs'. fetch_loop 5 False True None http_init_headers [(G_IO_STATUS_NORMAL, bytes_of ''Content-Length: 5'', 13), (G_IO_STATUS_NORMAL, [], 13)] = (Fetched, hdrs, []) \<and>
    header_line_step True (bytes_of ''content-length: 50'') 13 None hdrs = Header_next (Some 1) hdrs' \<and>
    map hdr_value (present_headers hdrs') = [bytes_of ''5'', bytes_of ''50'']"
proof -
  let ?hdrs = "\<lparr>hdr_list = [\<lparr>hdr_name = bytes_of ''Content-Length'', hdr_value = bytes_of ''5'', hdr_present = True\<rparr>],
      hdr_hash = [(http_header_hash (bytes_of ''Content-Length''), 0)], hdr_flat = []\<rparr>"
  let ?h = "\<lparr>hdr_name = bytes_of ''content-length'', hdr_value = bytes_of ''50'', hdr_present = True\<rparr>"
  have f: "fetch_loop 5 False True None http_init_headers [(G_IO_STATUS_NORMAL, bytes_of ''Content-Length: 5'', 13), (G_IO_STATUS_NORMAL, [], 13)] =
      (Fetched, ?hdrs, [])" by code_simp
  have ok: "hdrs_ok ?hdrs"
    using fetch_loop_ok [OF hdrs_ok_init(1), of 5 False True None "[(G_IO_STATUS_NORMAL, bytes_of ''Content-Length: 5'', 13), (G_IO_STATUS_NORMAL, [], 13)]"]
    by (simp add: f)
  have "header_plain ?h" "cstr (hdr_name ?h) \<notin> set smuggle_headers" "http_lookup_header ?hdrs (hdr_name ?h) = Some 0"
    by code_simp+
  with http_smuggle_case [OF ok, of ?h 0 True 13 None]
  obtain hdrs' where "header_line_step True (header_line ?h) 13 None ?hdrs = Header_next (Some 1) hdrs'"
    "present_headers hdrs' = present_headers ?hdrs @ [?h]" by auto
  moreover have "header_line ?h = bytes_of ''content-length: 50''" by (simp add: header_line_def bytes_of_def)
  ultimately show ?thesis using f by (auto simp: present_headers_def)
qed

section \<open>Cookies\<close>

type_synonym cookie = "bytes \<times> bytes"

fun cookie_text :: "cookie list \<Rightarrow> bytes" where
  "cookie_text [] = []"
| "cookie_text [(k, v)] = k @ 61 # v"
| "cookie_text ((k, v) # cs) = k @ 61 # v @ 59 # 32 # cookie_text cs"

definition cookie_ok :: "cookie \<Rightarrow> bool" where
  "cookie_ok c \<longleftrightarrow> fst c \<noteq> [] \<and> 61 \<notin> set (fst c) \<and> hd (fst c) \<notin> {32, 13, 10, 9} \<and> snd c \<noteq> [] \<and> 59 \<notin> set (snd c) \<and>
     0 \<notin> set (fst c) \<union> set (snd c)"

definition cookie_long :: "cookie \<Rightarrow> bool" where
  "cookie_long c \<longleftrightarrow> 256 \<le> length (fst c) \<or> 4096 \<le> length (snd c)"

definition cookie_table :: "bytes ghash \<Rightarrow> cookie list \<Rightarrow> bytes ghash" where
  "cookie_table hash cs = foldl (\<lambda>hash (k, v). gh_insert g_str_hash g_str_equal k v hash) hash cs"

lemma cookie_name: "61 \<notin> set k \<Longrightarrow> cookie_loop HTTP_COOKIE_NAME key val hash (k @ 61 # cs) =
    (if 256 \<le> length key + length k then Overrun else cookie_loop HTTP_COOKIE_VALUE (key @ k) val hash cs)"
  by (induction k arbitrary: key) (auto simp: KEY_SIZE_def)

lemma cookie_value_end: "59 \<notin> set v \<Longrightarrow> key \<noteq> [] \<Longrightarrow> val @ v \<noteq> [] \<Longrightarrow> cookie_loop HTTP_COOKIE_VALUE key val hash v =
    (if 4096 \<le> length val + length v then Overrun else Parsed (gh_insert g_str_hash g_str_equal key (val @ v) hash))"
  by (induction v arbitrary: val) (auto simp: VALUE_SIZE_def)

lemma cookie_value: "59 \<notin> set v \<Longrightarrow> cookie_loop HTTP_COOKIE_VALUE key val hash (v @ 59 # cs) =
    (if v \<noteq> [] \<and> 4096 < length val + length v then Overrun else cookie_loop HTTP_COOKIE_DOTCOMA key (val @ v) hash cs)"
  by (induction v arbitrary: val) (auto simp: VALUE_SIZE_def)

lemma cookie_next: "cookie_ok (k, v) \<Longrightarrow> cookie_loop HTTP_COOKIE_DOTCOMA key val hash (k @ 61 # cs) =
    (if 4096 \<le> length val \<or> 256 \<le> length k then Overrun
     else cookie_loop HTTP_COOKIE_VALUE k [] (gh_insert g_str_hash g_str_equal key val hash) cs)"
  by (cases k) (auto simp: cookie_ok_def VALUE_SIZE_def cookie_name)

lemma cookie_values:
  assumes "cookie_ok (k, v)" and "\<forall>c\<in>set cs. cookie_ok c"
  shows "cookie_loop HTTP_COOKIE_VALUE k [] hash (v @ (case cs of [] \<Rightarrow> [] | _ \<Rightarrow> 59 # 32 # cookie_text cs)) =
    (if 4096 \<le> length v \<or> (\<exists>c\<in>set cs. cookie_long c) then Overrun else Parsed (cookie_table hash ((k, v) # cs)))"
  using assms
proof (induction cs arbitrary: k v hash)
  case Nil
  then show ?case by (simp add: cookie_value_end cookie_ok_def cookie_table_def)
next
  case (Cons c cs)
  obtain k2 v2 where c: "c = (k2, v2)" by (cases c)
  have shape: "cookie_text (c # cs) = k2 @ 61 # v2 @ (case cs of [] \<Rightarrow> [] | _ \<Rightarrow> 59 # 32 # cookie_text cs)"
    by (cases cs) (auto simp: c)
  have ok: "cookie_ok (k2, v2)" "v \<noteq> []" "59 \<notin> set v" using Cons.prems by (auto simp: c cookie_ok_def)
  show ?case
    using Cons.IH [OF ok(1), of "gh_insert g_str_hash g_str_equal k v hash"] Cons.prems(2) ok
    by (simp add: shape cookie_value cookie_next [OF ok(1)]) (simp add: c cookie_long_def cookie_table_def)
qed

text \<open>CX: The cookies of a request, read from a header of the usual form (\<^verbatim>\<open>name=value; name=value\<close>). If every
  name is shorter than 256 and every value shorter than 4096 bytes, the result is the table of
  exactly these cookies, a later one replacing an earlier one of the same name. Otherwise a buffer
  is written behind its end: the length tests compare after the write, and allow one byte too many.\<close>

theorem http_cookies_parsed:
  assumes "http_lookup_header hdrs (bytes_of ''Cookie'') = Some i" and "hdr_value (header_at hdrs i) = cookie_text cs"
    and "cs \<noteq> []" and "\<forall>c\<in>set cs. cookie_ok c"
  shows "http_parse_header_cookie hdrs = (if \<exists>c\<in>set cs. cookie_long c then Overrun else Parsed (cookie_table [] cs))"
proof -
  obtain k v cs' where cs: "cs = (k, v) # cs'" using assms(3) by (cases cs) auto
  have shape: "cookie_text cs = k @ 61 # v @ (case cs' of [] \<Rightarrow> [] | _ \<Rightarrow> 59 # 32 # cookie_text cs')"
    unfolding cs by (cases cs') auto
  have "0 \<notin> set (cookie_text cs)" using assms(4) by (induction cs rule: cookie_text.induct) (auto simp: cookie_ok_def)
  then have "cstr (cookie_text cs) = cookie_text cs"
    unfolding cstr_def takeWhile_eq_all_conv by metis
  moreover have "cookie_loop HTTP_COOKIE_NAME [] [] [] (cookie_text cs) =
      (if \<exists>c\<in>set cs. cookie_long c then Overrun else Parsed (cookie_table [] cs))"
    using cookie_values [of k v cs' "[]"] assms(4) cookie_name [of k "[]" "[]" "[]"]
    by (auto simp: shape) (auto simp: cs cookie_ok_def cookie_long_def)
  ultimately show ?thesis using assms(1,2) by (simp add: http_parse_header_cookie_def)
qed

theorem http_cookies_parsed_witness:
  "\<exists>t. http_parse_header_cookie (snd (http_add_header http_init_headers (bytes_of ''cookie'') (bytes_of ''a=1; b=2; a=3''))) = Parsed t \<and>
    gh_lookup g_str_hash g_str_equal t (bytes_of ''a'') = Some (bytes_of ''3'')"
proof -
  let ?hdrs = "snd (http_add_header http_init_headers (bytes_of ''cookie'') (bytes_of ''a=1; b=2; a=3''))"
  let ?cs = "[(bytes_of ''a'', bytes_of ''1''), (bytes_of ''b'', bytes_of ''2''), (bytes_of ''a'', bytes_of ''3'')]"
  have l: "http_lookup_header ?hdrs (bytes_of ''Cookie'') = Some 0" by code_simp
  have v: "hdr_value (header_at ?hdrs 0) = cookie_text ?cs" by code_simp
  have "\<forall>c\<in>set ?cs. cookie_ok c" "\<not> (\<exists>c\<in>set ?cs. cookie_long c)" by (simp_all add: cookie_ok_def cookie_long_def bytes_of_def)
  then have "http_parse_header_cookie ?hdrs = Parsed (cookie_table [] ?cs)"
    using http_cookies_parsed [OF l v] by simp
  moreover have "gh_lookup g_str_hash g_str_equal (cookie_table [] ?cs) (bytes_of ''a'') = Some (bytes_of ''3'')" by code_simp
  ultimately show ?thesis by blast
qed

section \<open>Strict checking\<close>

lemma hdr_char_printable: "hdr_char_ok flags c \<Longrightarrow> 32 \<le> c \<and> c \<le> 126"
  unfolding hdr_char_ok_def by (elim disjE) (auto simp: word_le_nat_alt)

definition unchecked_headers :: "bytes list" where
  "unchecked_headers = map bytes_of [''Referer'', ''Content-Location'', ''Content-MD5'', ''If-Match'', ''If-None-Match'', ''Cookie'',
     ''Accept-Features'', ''If'', ''Timeout'', ''Cookie2'', ''SOAPAction'']"

lemma request_table_unchecked:
  "\<forall>e\<in>set request_hdr_proto_table. el_flags e AND (HTTP_HDR_FF_ANY OR HTTP_HDR_FF_URL) = 0 \<or> el_name e \<in> set unchecked_headers"
  by code_simp

text \<open>CX: What strict checking of request headers is worth. A header that is found in the table and passes the
  check has a value of printable ASCII characters only, so nothing in it can end the line; except
  for eleven headers, whose values are taken as they are or checked as URLs.\<close>

theorem http_strict_printable:
  assumes "http_proto_request_hdr_lookup name = Some info"
    and "http_check_header_charset unicode invalid val (el_flags info)"
    and "\<forall>n\<in>set unchecked_headers. \<not> strcasecmp_eq n name"
  shows "\<forall>c\<in>set (cstr val). 32 \<le> c \<and> c \<le> 126"
proof -
  from assms(1) have "info \<in> set request_hdr_proto_table" and "strcasecmp_eq (el_name info) name"
    by (auto simp: request_hdr_lookup last_element_def find_Some_iff) (metis nth_mem length_rev set_rev)
  with assms(3) request_table_unchecked have "el_flags info AND (HTTP_HDR_FF_ANY OR HTTP_HDR_FF_URL) = 0" by blast
  then have "el_flags info AND HTTP_HDR_FF_ANY = 0" "el_flags info AND HTTP_HDR_FF_URL = 0"
    by (simp_all add: bit.conj_disj_distrib or_eq_0_iff)
  with assms(2) have "list_all (hdr_char_ok (el_flags info)) (cstr val)" by (simp add: http_check_header_charset_def)
  then show ?thesis using hdr_char_printable by (auto simp: list_all_iff)
qed

theorem http_strict_printable_witness:
  "\<exists>info. http_proto_request_hdr_lookup (bytes_of ''Date'') = Some info \<and>
     http_check_header_charset False False (bytes_of ''Sun'') (el_flags info) \<and> (\<forall>c\<in>set (cstr (bytes_of ''Sun'')). 32 \<le> c \<and> c \<le> 126)"
proof -
  obtain info where i: "http_proto_request_hdr_lookup (bytes_of ''Date'') = Some info"
    "http_check_header_charset False False (bytes_of ''Sun'') (el_flags info)"
  proof -
    have "case http_proto_request_hdr_lookup (bytes_of ''Date'') of None \<Rightarrow> False
        | Some info \<Rightarrow> http_check_header_charset False False (bytes_of ''Sun'') (el_flags info)"
      unfolding request_hdr_lookup by code_simp
    then show ?thesis using that by (auto split: option.splits)
  qed
  have "\<forall>n\<in>set unchecked_headers. \<not> strcasecmp_eq n (bytes_of ''Date'')" by code_simp
  with http_strict_printable [OF i] i show ?thesis by blast
qed

text \<open>CX: Strict checking of a header that holds a URL (\<^verbatim>\<open>Referer\<close>, \<^verbatim>\<open>Location\<close>) is void for values without a
  colon: relative URLs are permitted, and a string without a colon always counts as one, whatever its bytes.\<close>

theorem http_strict_url_void:
  assumes "flags AND HTTP_HDR_FF_URL \<noteq> 0" and "COLON \<notin> set (cstr val)"
  shows "http_check_header_charset unicode invalid val flags"
proof -
  have none: "dropWhile (\<lambda>c. c \<noteq> COLON) (cstr val) = []" using assms(2) by (auto simp: dropWhile_eq_Nil_conv)
  have "\<exists>url. http_parse_url http_init_url unicode invalid True val = Parsed url"
    unfolding http_parse_url_def Let_def none by (simp add: parse_local_def Let_def at_def SLASH_def)
  then show ?thesis using assms(1) by (auto simp: http_check_header_charset_def)
qed

theorem http_strict_url_void_witness:
  "\<exists>info. http_proto_request_hdr_lookup (bytes_of ''referer'') = Some info \<and> http_check_header_charset False False [13, 10, 255] (el_flags info)"
proof -
  have "case http_proto_request_hdr_lookup (bytes_of ''referer'') of None \<Rightarrow> False | Some info \<Rightarrow> el_flags info = HTTP_HDR_FF_URL"
    unfolding request_hdr_lookup by code_simp
  then obtain info where i: "http_proto_request_hdr_lookup (bytes_of ''referer'') = Some info" "el_flags info = HTTP_HDR_FF_URL"
    by (auto split: option.splits)
  then have "http_check_header_charset False False [13, 10, 255] (el_flags info)"
    by (intro http_strict_url_void) (simp_all add: HTTP_HDR_FF_URL_def cstr_def COLON_def)
  with i show ?thesis by blast
qed

end
