(* ===== verification/Spec2Isabelle.thy ===== *)
theory Spec2Isabelle
  imports Telnet_Main Smtp_Data Pop3_Main Http_Url_Format Http_Lines Http_Header_Props
begin

text \<open>
  \<^bold>\<open>Zorp, an application-level firewall: a verified model.\<close>

  Zorp sits between a client and a server, speaks the application protocol with both and lets
  through what its policy (Python objects) allows. The library under \<^verbatim>\<open>lib/\<close> gives the proxies
  their policy tables, streams and threads; each directory under \<^verbatim>\<open>modules/\<close> is one protocol.
  This development models the policy hash, the Telnet and the POP3 proxy, each from the bytes of a
  read to the main loop of a session, and the bulk transfer of \<^verbatim>\<open>libproxy/\<close> that the mail proxies use.

  \<^bold>\<open>Theories and what they model.\<close>
  \<^item> \<open>Prelude\<close>: bytes and C strings, the packet buffer with its read position, decimal numbers,
    the state monad with its invariant rules (\<open>keeps\<close>) and pre- and postcondition rules
    (\<open>hoare\<close>), reachability and the locale \<open>invariant_system\<close>.
  \<^item> \<open>Policy\<close>: verdicts, endpoints, policy values and the parsing the proxies apply to them
    (\<^verbatim>\<open>lib/zorp/policy.h\<close>, \<^verbatim>\<open>lib/zorp/proxycommon.h\<close>).
  \<^item> \<open>DimHash\<close>: the multi-dimensional hash of \<^verbatim>\<open>lib/dimhash.cc\<close> with its wildcard search on shared
    key buffers; overruns of the fixed-size buffers are error values.
  \<^item> \<open>Telnet_Option\<close>, \<open>Telnet_Protocol\<close>, \<open>Telnet_LineEdit\<close>: \<^verbatim>\<open>telnetoption.cc\<close> (who uses which
    option), \<^verbatim>\<open>telnetprotocol.cc\<close> (the byte decoder and the escaping), \<^verbatim>\<open>telnetlineedit.cc\<close> (the line
    editor of the prompts) of \<^verbatim>\<open>modules/telnet\<close>.
  \<^item> \<open>Telnet_Proxy\<close>: the record of \<^verbatim>\<open>telnet.h\<close>, its defaults and the output functions of \<^verbatim>\<open>telnet.cc\<close>.
  \<^item> \<open>Telnet_Policy\<close>, \<open>Telnet_Suboption\<close>, \<open>Telnet_Tls\<close>: the verdicts of \<^verbatim>\<open>telnetpolicy.cc\<close>, the filters
    of \<^verbatim>\<open>telnetsuboption.cc\<close>, the STARTTLS machines of \<^verbatim>\<open>telnettls.cc\<close>.
  \<^item> \<open>Telnet_State\<close>, \<open>Telnet_Session\<close>: the protocol events and the session states of \<^verbatim>\<open>telnetstate.cc\<close>.
  \<^item> \<open>Telnet_Main\<close>: configuration, reading, the main loop (\<^verbatim>\<open>telnet.cc\<close>), the sessions as a transition
    system and their invariants.
  \<^item> \<open>Transfer2\<close>: the transfer engine of \<^verbatim>\<open>libproxy/transfer2.cc\<close>; its classes extend the record
    \<open>ZTransfer2\<close> and give a table of functions. \<open>DotTransfer\<close> (\<^verbatim>\<open>libproxy/dottransfer.cc\<close>) and \<open>Smtp_Data\<close>
    (\<^verbatim>\<open>modules/smtp/smtpdata.cc\<close>) are such classes; \<open>Transfer_Refine\<close> relates a class to one it extends.
  \<^item> \<open>Pop3_Proxy\<close>, \<open>Pop3_Cmd\<close>, \<open>Pop3_Policy\<close>, \<open>Pop3_Data\<close>, \<open>Pop3_Main\<close>: \<^verbatim>\<open>modules/pop3\<close>, the proxy record and its
    output, \<^verbatim>\<open>pop3cmd.cc\<close>, \<^verbatim>\<open>pop3policy.cc\<close>, \<^verbatim>\<open>pop3data.cc\<close>, and the session (\<^verbatim>\<open>pop3.cc\<close>, \<^verbatim>\<open>pop3auth.cc\<close>,
    \<^verbatim>\<open>pop3misc.cc\<close>).
  \<^item> this theory: properties of whole sessions that span the components.

  \<^bold>\<open>How the model corresponds to the code.\<close> Every function of the modelled files has a definition
  of the same name with the same branches. Data structures of GLib and of the stream library are
  HOL data: a packet buffer is a byte list with a position, a \<^verbatim>\<open>GString\<close> a byte list, a hash a map.
  Widths are kept where they matter (bytes are \<open>8 word\<close>, ports and counters \<open>32 word\<close>). A failed
  assertion or a memory error is an error value, or a flag of the session (\<open>tn_crashed\<close>, \<open>p3_crashed\<close>). What
  lies outside the modelled files (stream writes, policy callbacks, the authentication, the
  server connection, TLS handshakes) is a record of functions, \<open>telnet_ext\<close> or \<open>pop3_ext\<close>, a parameter of
  every definition that uses it. Such a function is given the history of all outside calls, so it
  may answer differently each time; the history is a ghost field of the state and is what the
  session properties speak about. One round of the poll loop is an input: which streams were
  read and with what result.

  \<^bold>\<open>Interfaces.\<close> \<open>key_store\<close> (tables with equivalent keys), \<open>negotiated\<close> (a pair of negotiation
  bits), \<open>decoder_client\<close> (callbacks that keep an invariant), the chain \<open>session_frame\<close>,
  \<open>tls_frame\<close>, \<open>state_frame\<close>, \<open>read_frame\<close>, \<open>loop_frame\<close> (what an invariant must tolerate to be
  kept by the handlers, the TLS machines, the session states, a read, the loop),
  \<open>gateway_outcome\<close> (what the password check decides), \<open>transfer_class\<close> (what the engine needs of a
  class to come to an end), \<open>transfer_subclass\<close> (a class that only adds to another), \<open>pop3_frame\<close>
  (the same for the handlers of POP3) and \<open>invariant_system\<close>. Each is interpreted
  on the definitions of the model.

  \<^bold>\<open>What the lemmas show.\<close> The hash search refines a declarative order of precedence and its
  overruns are characterised exactly. The option bits refine an abstract negotiation; the
  decoder delivers what the input contains, independent of how reads split it, inverts the
  encoder and stays within its buffers; the line editor's echo and the terminal agree. Policy
  verdicts are characterised by the most specific entry; filters, TLS status, relaying of data,
  commands and negotiations are described on every branch. For whole sessions: no
  crash, nothing reaches the server before authorisation, passwords are not echoed, three
  attempts, TLS only after a handshake, and the end of a session. Transfers come back whatever the
  streams answer; a mail is relayed with its dots escaped anew, and where the code loses an escape
  is stated, too. A POP3 session is authenticated only by the server's consent, requests are kept
  from the server outside their state, numbers reach it in one spelling.

  \<^bold>\<open>Bounds and termination.\<close> The loops of the modelled code are structurally recursive or have a
  termination proof, but for the two loops of the transfer engine (\<open>copy_loop\<close>,
  \<open>run_unsuspended\<close>), which end only if the class does its part: they are partial functions into
  \<open>option\<close>, proved to return for every \<open>transfer_class\<close>. No fuel is used. The main loops are functions
  of the list of poll rounds, since the code's loops end only when an input says so.

  \<^bold>\<open>Not modelled.\<close> Logging, session identifiers, reference counts, flow control of the streams
  and the order in which C frees memory. Of \<^verbatim>\<open>lib/\<close>: the Python binding, TLS, the dispatcher,
  the kernel interface and process control, which are I/O and plumbing around third-party
  libraries. Of \<^verbatim>\<open>modules/\<close>: the other protocols, which are planned next, in the order finger and
  whois, HTTP requests and URLs, FTP, SMTP commands.
\<close>

section \<open>Sample sessions\<close>

text \<open>A login up to the password prompt, and a session that demands TLS of its client.\<close>

definition half_login :: "poll_in list" where
  "half_login = map client_sends [[255, 253, 1, 255, 253, 3, 255, 252, 39], bytes_of ''joe'' @ [13, 10]]"

definition tls_cfg :: telnet_cfg where
  "tls_cfg = gw_cfg\<lparr>cfg_gw_auth := False, cfg_tls_required := (\<lambda>ep. ep = EP_CLIENT)\<rparr>"

definition starttls :: "poll_in list" where
  "starttls = map client_sends
     [[TELNET_IAC, TELNET_CMD_WILL, TELNET_OPTION_STARTTLS],
      [TELNET_IAC, TELNET_CMD_SB, TELNET_OPTION_STARTTLS, TELNET_TLS_FOLLOWS_SUBOPTION, TELNET_IAC, TELNET_CMD_SE]]"

section \<open>Ending a session\<close>

text \<open>The proxy as a client of its decoders.\<close>

interpretation decoding: decoder_client "telnet_state_callbacks x ep" base_inv for x ep
  by (rule base.callbacks_keep) simp

text \<open>Reads keep the wish to quit and the server stream.\<close>

definition pinned :: "bool \<Rightarrow> bool \<Rightarrow> TelnetProxy \<Rightarrow> bool" where
  "pinned q i s \<longleftrightarrow> base_inv s \<and> (q \<longrightarrow> tn_poll_quit s) \<and> (i \<longrightarrow> tn_server_stream_initialized s)"

interpretation pinned: read_frame "pinned q i" "\<lambda>_. True" for q i
proof unfold_locales
  show "pinned q i s \<Longrightarrow> core s' = core s \<Longrightarrow> pinned q i s'" for s s'
    using base_core [of s s'] by (auto simp: pinned_def core_def)
  show "True \<Longrightarrow> keeps (pinned q i) (telnet_tls_switch_stream_to_ssl x ep)" for ep x
    unfolding pinned_def [abs_def]
    by (intro keeps_conj base_inv_switch keeps_switch) auto
  show "pinned q i s \<Longrightarrow> pinned q i (z_poll_quit s)" for s
    using base.I_quit [of s] by (simp add: pinned_def z_poll_quit_def)
qed (auto simp: pinned_def base.I_call base.I_method base.I_write base.I_safe base.I_status base.I_wf base.I_protocol)

lemma pinned_reads: "pinned q i s \<Longrightarrow> pinned q i (fold (poll_read x) reads s)"
  by (induction reads arbitrary: s) (auto simp: poll_read_def pinned.read_keeps)

lemma ended_read_quits:
  assumes "base_inv s" and "(ep, status, data) \<in> set reads" and "status \<in> {G_IO_STATUS_ERROR, G_IO_STATUS_EOF}"
    and "ep = EP_CLIENT \<or> tn_server_stream_initialized s"
  shows "tn_poll_quit (fold (poll_read x) reads s)"
proof -
  obtain before after where reads: "reads = before @ (ep, status, data) # after"
    using assms(2) by (auto simp: in_set_conv_decomp)
  let ?s = "fold (poll_read x) before s"
  have "pinned False (tn_server_stream_initialized s) ?s"
    by (rule pinned_reads) (simp add: pinned_def assms(1))
  then have "pinned True False (poll_read x (ep, status, data) ?s)"
    using assms(3,4) base.I_quit [of ?s] by (auto simp: pinned_def poll_read_def telnet_read_def z_poll_quit_def)
  from pinned_reads [OF this, of x after] show ?thesis by (simp add: reads pinned_def)
qed

lemma escape_append:
  "telnet_protocol_escape_data (xs @ ys) = telnet_protocol_escape_data xs @ telnet_protocol_escape_data ys"
  by (induction xs) auto

lemma reached_settled:
  assumes "cfg_safe cfg" and "telnet_main x cfg inps = Some s"
  shows "settled s" "base_inv s"
  using prompts.reach_inv [OF run_reach(1) [OF assms]] session.reach_inv [OF run_reach(1) [OF assms]] by auto

section \<open>Properties of whole sessions\<close>

text \<open>C17: A session ends when a peer does: once the stream of a peer that is being read reports the
  end of file or an error, the round that sees it leaves the session in its final state, provided the
  poll stops when it was told to.\<close>

theorem telnet_session_ends:
  assumes "cfg_safe cfg" and "telnet_main x cfg inps = Some s" and "proxy_is_running s"
    and "(ep, status, data) \<in> set (pi_reads inp)" and "status \<in> {G_IO_STATUS_ERROR, G_IO_STATUS_EOF}"
    and "ep = EP_CLIENT \<or> tn_server_stream_initialized s" and "\<not> pi_poll inp True"
  shows "\<exists>s'. telnet_main x cfg (inps @ [inp]) = Some s' \<and> tn_state s' = TELNET_STATE_QUIT"
proof -
  have loop: "telnet_main_loop x (is @ [inp]) s0 = (let t = telnet_main_loop x is s0 in
      if proxy_is_running t then telnet_main_iteration x inp t else t)" for "is" s0
    by (induction "is" arbitrary: s0) (auto simp: Let_def)
  have "telnet_main x cfg (inps @ [inp]) = Some (telnet_main_iteration x inp s)"
    using assms(2,3) by (auto simp: telnet_main_def loop Let_def split: sum.splits)
  moreover have "tn_state (telnet_main_iteration x inp s) = TELNET_STATE_QUIT"
    using ended_read_quits [OF reached_settled(2) [OF assms(1,2)] assms(4,5,6), of x] assms(7)
    by (simp add: telnet_main_iteration_def Let_def)
  ultimately show ?thesis by blast
qed

theorem telnet_session_ends_witness:
  "\<exists>s'. telnet_main quiet_ext gw_cfg (login ''secret'' @
       [\<lparr>pi_loop = True, pi_reads = [(EP_SERVER, G_IO_STATUS_EOF, [])], pi_poll = (\<lambda>quit. \<not> quit)\<rparr>]) = Some s' \<and>
     tn_state s' = TELNET_STATE_QUIT"
proof -
  have "map_option (\<lambda>s. (tn_state s, tn_server_stream_initialized s)) (telnet_main quiet_ext gw_cfg (login ''secret'')) =
      Some (TELNET_STATE_RELAYING, True)"
    by (simp add: session_eval cong: bind_weak_cong)
  then obtain s where "telnet_main quiet_ext gw_cfg (login ''secret'') = Some s" "tn_state s = TELNET_STATE_RELAYING"
      "tn_server_stream_initialized s"
    by auto
  with telnet_session_ends [OF gw_cfg_safe(1), of quiet_ext "login ''secret''" s EP_SERVER G_IO_STATUS_EOF "[]"
      "\<lparr>pi_loop = True, pi_reads = [(EP_SERVER, G_IO_STATUS_EOF, [])], pi_poll = (\<lambda>quit. \<not> quit)\<rparr>"]
  show ?thesis by (simp add: proxy_is_running_def)
qed

text \<open>C16: A client gets three attempts: a session counts at most three failed authentications, and
  with the third it is over.\<close>

theorem gateway_three_attempts:
  assumes "cfg_safe cfg" and "telnet_main x cfg inps = Some s"
  shows "tn_gw_authentication_failures s \<le> 3 \<and>
    (tn_gw_authentication_failures s = 3 \<longrightarrow> tn_state s = TELNET_STATE_QUIT)"
  using reached_settled(1) [OF assms] by (auto simp: settled_def live_defs)

theorem gateway_three_attempts_witness:
  "\<exists>s. telnet_main (shipped_ext quiet_ext) gw_cfg (login ''guess'') = Some s \<and>
     tn_gw_authentication_failures s = 1 \<and> tn_gw_authentication_failures s \<le> 3"
proof -
  have "map_option tn_gw_authentication_failures (telnet_main (shipped_ext quiet_ext) gw_cfg (login ''guess'')) = Some 1"
    by (simp add: session_eval shipped_ext_def z_auth_provider_check_passwd_def gateway_authentication_failed_def
        auth_failed_message_def cong: bind_weak_cong)
  with gateway_three_attempts [OF gw_cfg_safe(1)] show ?thesis by blast
qed

text \<open>C15: A password never appears on the client's terminal: whatever bytes the client sends while the
  session prompts for the password, all that is written back to it are line ends.\<close>

theorem password_never_echoed:
  assumes "cfg_safe cfg" and "telnet_main x cfg inps = Some s" and "tn_state s = TELNET_STATE_PROMPT_PASSWORD"
    and "run_state (process_data x EP_CLIENT data) s = (res, s')"
  shows "\<exists>evs. tn_hist s' = evs @ tn_hist s \<and>
    (\<forall>e\<in>set evs. \<exists>pkt status. e = EvWrite EP_CLIENT pkt status \<and> only_newlines pkt)"
proof -
  have echo: "\<not> do_echo (tn_line_editor s)"
    using reached_settled(1) [OF assms(1,2)] assms(3) by (auto simp: settled_def live_defs)
  obtain le out where le: "telnet_lineedit_process_data (tn_line_editor s) data = (le, out)" by fastforce
  have esc: "only_newlines ps \<Longrightarrow> telnet_protocol_escape_data ps = ps" for ps
    by (induction rule: only_newlines.induct) (auto simp: ECHO_NEWLINE_def escape_append)
  have "only_newlines (telnet_protocol_escape_data out)"
    using lineedit_silent [OF echo le] esc by simp
  then show ?thesis
    using assms(3,4) le
    by (auto simp: process_data_def telnet_state_is_lineedit_def edit_line_def telnet_send_data_def
        telnet_write_packet_def log_event_def split: if_splits)
qed

theorem password_never_echoed_witness:
  "\<exists>s res s' evs. telnet_main quiet_ext gw_cfg half_login = Some s \<and>
     tn_state s = TELNET_STATE_PROMPT_PASSWORD \<and>
     run_state (process_data quiet_ext EP_CLIENT (bytes_of ''secret'' @ [13, 10])) s = (res, s') \<and>
     tn_hist s' = evs @ tn_hist s \<and>
     (\<forall>e\<in>set evs. \<exists>pkt status. e = EvWrite EP_CLIENT pkt status \<and> only_newlines pkt)"
proof -
  have "map_option tn_state (telnet_main quiet_ext gw_cfg half_login) = Some TELNET_STATE_PROMPT_PASSWORD"
    by (simp add: session_eval half_login_def cong: bind_weak_cong)
  then obtain s where s: "telnet_main quiet_ext gw_cfg half_login = Some s"
      "tn_state s = TELNET_STATE_PROMPT_PASSWORD"
    by auto
  obtain res s' where run: "run_state (process_data quiet_ext EP_CLIENT (bytes_of ''secret'' @ [13, 10])) s = (res, s')"
    by fastforce
  obtain evs where "tn_hist s' = evs @ tn_hist s"
      "\<forall>e\<in>set evs. \<exists>pkt status. e = EvWrite EP_CLIENT pkt status \<and> only_newlines pkt"
    using password_never_echoed [OF gw_cfg_safe(1) s run] by (elim exE conjE)
  with s run show ?thesis by (intro exI conjI) assumption+
qed



text \<open>C19: Relayed data arrives unchanged: the one packet written to the other side decodes to exactly
  the data that was received.\<close>

theorem data_relayed:
  assumes "tn_state s = TELNET_STATE_RELAYING" and "\<not> tn_handshake_pending s (EP_OTHER ep)"
    and "2 * length data \<le> TELNET_BUFFER_SIZE"
    and "run_state (process_data x ep data) s = (res, s')"
  shows "\<exists>pkt status. tn_hist s' = EvWrite (EP_OTHER ep) pkt status # tn_hist s \<and>
    flat (tp_events telnet_protocol_init pkt) = flat [Data data] \<and>
    res = (if status = G_IO_STATUS_NORMAL then ZV_ACCEPT else ZV_ABORT)"
proof -
  let ?pkt = "telnet_protocol_escape_data data"
  have "length ?pkt \<le> 2 * length data"
    by (induction data) auto
  then have "length (encode (Data data)) \<le> TELNET_BUFFER_SIZE"
    using assms(3) by simp
  then have "flat (tp_events telnet_protocol_init ?pkt) = flat [Data data]"
    using loop_encode [of telnet_protocol_init "Data data" "[]"]
    by (auto simp: telnet_protocol_init_def tp_events_def telnet_protocol_process_data_def recorder_calls
        telnet_protocol_is_running_def)
  moreover have "tn_hist s' = EvWrite (EP_OTHER ep) ?pkt (x_write x (tn_hist s) (EP_OTHER ep) ?pkt) # tn_hist s"
    "res = (if x_write x (tn_hist s) (EP_OTHER ep) ?pkt = G_IO_STATUS_NORMAL then ZV_ACCEPT else ZV_ABORT)"
    using assms(1,2,4)
    by (auto simp: process_data_def telnet_send_data_def telnet_write_packet_def log_event_def split: if_splits)
  ultimately show ?thesis by blast
qed

theorem data_relayed_witness:
  "\<exists>res s' pkt status. run_state (process_data quiet_ext EP_CLIENT [108, 115, 255, 13, 10])
       (telnet_set_defaults\<lparr>tn_state := TELNET_STATE_RELAYING\<rparr>) = (res, s') \<and>
     tn_hist s' = [EvWrite EP_SERVER pkt status] \<and>
     flat (tp_events telnet_protocol_init pkt) = flat [Data [108, 115, 255, 13, 10]]"
proof -
  let ?s = "telnet_set_defaults\<lparr>tn_state := TELNET_STATE_RELAYING\<rparr>"
  obtain res s' where run: "run_state (process_data quiet_ext EP_CLIENT [108, 115, 255, 13, 10]) ?s = (res, s')"
    by fastforce
  show ?thesis
    using data_relayed [OF _ _ _ run] run by (auto simp: telnet_set_defaults_def TELNET_BUFFER_SIZE_def)
qed

end
